(* ===== verification/C_Prelude.thy ===== *)
theory C_Prelude
  imports Main "HOL-Library.Word" "HOL-Library.Multiset"
begin

text \<open>
  Shared vocabulary of the development: the fixed-width integers of the C sources, the ways in
  which a C fragment can go wrong, the result type that carries such a fault, bounded arrays,
  cells of a statically sized pool, counted loops, and the bit-level view of a byte buffer.
  A fault is the value the model gives to behaviour that the C text does not define (a store
  outside its array, a read through NULL, a shift by a negative amount), to a failing
  \<^verbatim>\<open>assert\<close>, and to a loop that exceeds the number of steps any terminating run can take.
\<close>

unbundle bit_operations_syntax

section \<open>Machine integers\<close>

type_synonym u8 = "8 word"
type_synonym u16 = "16 word"
type_synonym u32 = "32 word"

lemma unat_of_nat_u16: "n < 65536 \<Longrightarrow> unat (of_nat n :: u16) = n"
  by (simp add: of_nat_inverse)

lemma unat_of_nat_u8: "n < 256 \<Longrightarrow> unat (of_nat n :: u8) = n"
  by (simp add: of_nat_inverse)

named_theorems res_simps \<open>how a sequence of fallible steps succeeds or fails\<close>
named_theorems mem_simps \<open>reads and writes of arrays and pools\<close>

section \<open>Faults and results\<close>

datatype fault =
    Null_Deref
  | Out_Of_Bounds
  | Uninitialised
  | Assert_Failed
  | Bad_Shift
  | Bad_Format
  | Diverge

datatype 'a result = Fail fault | Ok 'a

primrec rbind :: "'a result \<Rightarrow> ('a \<Rightarrow> 'b result) \<Rightarrow> 'b result" where
  "rbind (Fail e) f = Fail e"
| "rbind (Ok x) f = f x"

lemma rbind_cong [fundef_cong]:
  assumes "m = m'" and "\<And>x. m' = Ok x \<Longrightarrow> f x = g x"
  shows "rbind m f = rbind m' g"
  using assms by (cases m') auto

lemma rbind_Ok_iff [res_simps]: "rbind m f = Ok y \<longleftrightarrow> (\<exists>x. m = Ok x \<and> f x = Ok y)"
  by (cases m) auto

lemma rbind_Fail_iff [res_simps]:
  "rbind m f = Fail e \<longleftrightarrow> m = Fail e \<or> (\<exists>x. m = Ok x \<and> f x = Fail e)"
  by (cases m) auto

lemma rbind_assoc: "rbind (rbind m f) g = rbind m (\<lambda>x. rbind (f x) g)"
  by (cases m) auto

lemma rbind_Ok_right [simp]: "rbind m Ok = m"
  by (cases m) auto

section \<open>Counted loops\<close>

text \<open>
  \<^verbatim>\<open>for (i = 0; i < n; i++) body\<close> is \<open>rfold body [0..<n]\<close>: the body runs once for every index,
  in order, on the state the previous round left, and the first fault ends the loop.
\<close>

primrec rfold :: "('i \<Rightarrow> 's \<Rightarrow> 's result) \<Rightarrow> 'i list \<Rightarrow> 's \<Rightarrow> 's result" where
  "rfold body [] s = Ok s"
| "rfold body (i # is) s = rbind (body i s) (rfold body is)"

lemma rfold_append: "rfold body (xs @ ys) s = rbind (rfold body xs s) (rfold body ys)"
proof (induction xs arbitrary: s)
  case (Cons i xs)
  then show ?case by (cases "body i s") simp_all
qed simp

lemma rfold_cong [fundef_cong]:
  assumes "xs = ys" and "s = t" and "\<And>i s. i \<in> set ys \<Longrightarrow> f i s = g i s"
  shows "rfold f xs s = rfold g ys t"
proof -
  have "rfold f ys s = rfold g ys s"
    using assms(3) by (induction ys arbitrary: s) (auto intro!: rbind_cong)
  then show ?thesis using assms(1,2) by simp
qed

text \<open>A counted loop whose rounds all succeed: induction over the rounds with an invariant.\<close>

lemma rfold_upt_invariant:
  assumes "I 0 s"
    and "\<And>i s. i < n \<Longrightarrow> I i s \<Longrightarrow> \<exists>s'. body i s = Ok s' \<and> I (Suc i) s'"
  shows "\<exists>s'. rfold body [0..<n] s = Ok s' \<and> I n s'"
  using assms(2)
proof (induction n)
  case 0
  then show ?case using assms(1) by simp
next
  case (Suc n)
  then obtain t where "rfold body [0..<n] s = Ok t" and "I n t" by auto
  moreover from this(2) obtain t' where "body n t = Ok t'" and "I (Suc n) t'"
    using Suc.prems by blast
  ultimately show ?case by (simp add: rfold_append)
qed

section \<open>Runs that end\<close>

text \<open>
  \<open>ends r Q\<close>: the run ends, with a value that satisfies \<open>Q\<close> or with a fault other than
  \<^const>\<open>Diverge\<close>. The collection \<open>ends_intros\<close> holds one rule per construct of the model.
\<close>

named_theorems ends_intros \<open>how a run is shown to end\<close>

definition ends :: "'a result \<Rightarrow> ('a \<Rightarrow> bool) \<Rightarrow> bool" where
  "ends r Q \<longleftrightarrow> (case r of Fail e \<Rightarrow> e \<noteq> Diverge | Ok x \<Rightarrow> Q x)"

lemma ends_Ok [simp]: "ends (Ok x) Q = Q x"
  by (simp add: ends_def)

lemma ends_Fail [simp]: "ends (Fail e) Q \<longleftrightarrow> e \<noteq> Diverge"
  by (simp add: ends_def)

lemma ends_returns: "ends r Q \<Longrightarrow> r \<noteq> Fail Diverge"
  by (auto simp: ends_def)

lemma ends_mono: "ends r P \<Longrightarrow> (\<And>x. r = Ok x \<Longrightarrow> P x \<Longrightarrow> Q x) \<Longrightarrow> ends r Q"
  by (cases r) simp_all

lemma ends_rbind [simp]: "ends (rbind r f) Q \<longleftrightarrow> ends r (\<lambda>x. ends (f x) Q)"
  by (cases r) simp_all

lemma ends_rfold:
  assumes "I s" and "\<And>i s. i \<in> set is \<Longrightarrow> I s \<Longrightarrow> ends (body i s) I"
  shows "ends (rfold body is s) I"
  using assms
proof (induction "is" arbitrary: s)
  case (Cons i "is")
  have "ends (body i s) I" using Cons.prems by simp
  then have "ends (body i s) (\<lambda>x. ends (rfold body is x) I)"
    by (rule ends_mono) (use Cons in simp)
  then show ?case by simp
qed simp

section \<open>Arrays\<close>

definition aget :: "'a list \<Rightarrow> nat \<Rightarrow> 'a result" where
  "aget xs i = (if i < length xs then Ok (xs ! i) else Fail Out_Of_Bounds)"

definition aset :: "'a list \<Rightarrow> nat \<Rightarrow> 'a \<Rightarrow> 'a list result" where
  "aset xs i v = (if i < length xs then Ok (xs[i := v]) else Fail Out_Of_Bounds)"

lemma aget_in [simp]: "i < length xs \<Longrightarrow> aget xs i = Ok (xs ! i)"
  by (simp add: aget_def)

lemma aset_in [simp]: "i < length xs \<Longrightarrow> aset xs i v = Ok (xs[i := v])"
  by (simp add: aset_def)

lemma aget_Ok_iff [mem_simps]: "aget xs i = Ok v \<longleftrightarrow> i < length xs \<and> v = xs ! i"
  by (auto simp: aget_def)

lemma aset_Ok_iff [mem_simps]: "aset xs i v = Ok ys \<longleftrightarrow> i < length xs \<and> ys = xs[i := v]"
  by (auto simp: aset_def)

lemma ends_aget [ends_intros]: "(i < length xs \<Longrightarrow> Q (xs ! i)) \<Longrightarrow> ends (aget xs i) Q"
  by (simp add: aget_def)

lemma ends_aset [ends_intros]: "(i < length xs \<Longrightarrow> Q (xs[i := v])) \<Longrightarrow> ends (aset xs i v) Q"
  by (simp add: aset_def)

section \<open>Pools of cells addressed by pointers\<close>

text \<open>
  A pool is a statically sized array of structs. A slot that has not been written holds no
  determinate value (\<^const>\<open>None\<close>). A pointer into the pool is NULL (\<^const>\<open>None\<close>) or a slot number.
\<close>

type_synonym ptr = "nat option"

definition cell_get :: "'c option list \<Rightarrow> ptr \<Rightarrow> 'c result" where
  "cell_get m p =
     (case p of
        None \<Rightarrow> Fail Null_Deref
      | Some i \<Rightarrow>
          if i < length m
          then (case m ! i of None \<Rightarrow> Fail Uninitialised | Some c \<Rightarrow> Ok c)
          else Fail Out_Of_Bounds)"

definition cell_set :: "'c option list \<Rightarrow> ptr \<Rightarrow> 'c \<Rightarrow> 'c option list result" where
  "cell_set m p c =
     (case p of
        None \<Rightarrow> Fail Null_Deref
      | Some i \<Rightarrow> if i < length m then Ok (m[i := Some c]) else Fail Out_Of_Bounds)"

text \<open>\<open>holds m i c\<close>: slot \<open>i\<close> of the pool holds the struct \<open>c\<close>.\<close>

definition holds :: "'c option list \<Rightarrow> nat \<Rightarrow> 'c \<Rightarrow> bool" where
  "holds m i c \<longleftrightarrow> i < length m \<and> m ! i = Some c"

lemma cell_get_holds [simp]: "holds m i c \<Longrightarrow> cell_get m (Some i) = Ok c"
  by (simp add: holds_def cell_get_def)

lemma cell_set_holds [simp]: "holds m i c \<Longrightarrow> cell_set m (Some i) d = Ok (m[i := Some d])"
  by (simp add: holds_def cell_set_def)

lemma cell_get_Ok_iff [mem_simps]: "cell_get m p = Ok c \<longleftrightarrow> (\<exists>i. p = Some i \<and> holds m i c)"
  by (auto simp: cell_get_def holds_def split: option.splits)

lemma ends_cell_get [ends_intros]:
  "(\<And>i c. p = Some i \<Longrightarrow> holds m i c \<Longrightarrow> Q c) \<Longrightarrow> ends (cell_get m p) Q"
  by (auto simp: cell_get_def holds_def split: option.splits)

lemma ends_cell_set [ends_intros]:
  "(\<And>i. p = Some i \<Longrightarrow> i < length m \<Longrightarrow> Q (m[i := Some c])) \<Longrightarrow> ends (cell_set m p c) Q"
  by (auto simp: cell_set_def split: option.splits)

lemma holds_unique: "holds m i c \<Longrightarrow> holds m i d \<Longrightarrow> c = d"
  by (simp add: holds_def)

lemma holds_update_same [simp]: "i < length m \<Longrightarrow> holds (m[i := Some c]) i d \<longleftrightarrow> d = c"
  by (auto simp: holds_def)

lemma holds_update_other [simp]: "i \<noteq> j \<Longrightarrow> holds (m[i := v]) j d = holds m j d"
  by (simp add: holds_def)

lemma holds_length: "holds m i c \<Longrightarrow> i < length m"
  by (simp add: holds_def)

section \<open>Bytes as bit sequences, least significant bit first\<close>

definition byte_bits :: "u8 \<Rightarrow> bool list" where
  "byte_bits b = map (bit b) [0..<8]"

definition buf_bits :: "u8 list \<Rightarrow> bool list" where
  "buf_bits bs = concat (map byte_bits bs)"

lemma length_byte_bits [simp]: "length (byte_bits b) = 8"
  by (simp add: byte_bits_def)

lemma length_buf_bits [simp]: "length (buf_bits bs) = 8 * length bs"
  by (induction bs) (auto simp: buf_bits_def)

lemma buf_bits_Nil [simp]: "buf_bits [] = []"
  by (simp add: buf_bits_def)

lemma buf_bits_Cons [simp]: "buf_bits (b # bs) = byte_bits b @ buf_bits bs"
  by (simp add: buf_bits_def)

lemma buf_bits_append [simp]: "buf_bits (xs @ ys) = buf_bits xs @ buf_bits ys"
  by (simp add: buf_bits_def)

lemma nth_byte_bits [simp]: "k < 8 \<Longrightarrow> byte_bits b ! k = bit b k"
  by (simp add: byte_bits_def)

lemma nth_buf_bits:
  "i < length bs \<Longrightarrow> k < 8 \<Longrightarrow> buf_bits bs ! (8 * i + k) = bit (bs ! i) k"
proof (induction bs arbitrary: i)
  case Nil
  then show ?case by simp
next
  case (Cons b bs)
  then show ?case by (cases i) (simp_all add: nth_append)
qed

lemma nth_buf_bits_div:
  "n < 8 * length bs \<Longrightarrow> buf_bits bs ! n = bit (bs ! (n div 8)) (n mod 8)"
  using nth_buf_bits [of "n div 8" bs "n mod 8"] by (simp add: less_mult_imp_div_less mult.commute)

subsection \<open>Blocks in an array\<close>

text \<open>The array with the block \<open>p\<close> copied to place \<open>i\<close>.\<close>

definition overlay :: "'a list \<Rightarrow> nat \<Rightarrow> 'a list \<Rightarrow> 'a list" where
  "overlay buf i p = take i buf @ p @ drop (i + length p) buf"

lemma overlay_simps [simp]:
  "overlay buf i [] = buf"
  "i + length p \<le> length buf \<Longrightarrow> length (overlay buf i p) = length buf"
  by (simp_all add: overlay_def)

lemma overlay_Cons: "i < length buf \<Longrightarrow> overlay (buf[i := b]) (Suc i) bs = overlay buf i (b # bs)"
  by (simp add: overlay_def take_Suc_conv_app_nth)

lemma overlay_overlay: "i + length p \<le> length buf \<Longrightarrow> overlay (overlay buf i p) (i + length p) q = overlay buf i (p @ q)"
  by (simp add: overlay_def ac_simps)

lemma overlay_one: "i < length buf \<Longrightarrow> buf[i := x] = overlay buf i [x]"
  by (simp add: overlay_def upd_conv_take_nth_drop)

lemma overlay_at_0: "overlay buf 0 p = p @ drop (length p) buf"
  by (simp add: overlay_def)

lemma nth_overlay:
  "i + length p \<le> length buf \<Longrightarrow> j < length buf \<Longrightarrow>
    overlay buf i p ! j = (if i \<le> j \<and> j < i + length p then p ! (j - i) else buf ! j)"
  by (auto simp: overlay_def nth_append min_def)

end
