(* ===== verification/Huff_Pool.thy ===== *)
theory Huff_Pool
  imports C_Prelude
begin

text \<open>
  The memory of the Huffman library (\<^verbatim>\<open>huffman.c\<close>): the structs \<^verbatim>\<open>node_t\<close>, \<^verbatim>\<open>queue_t\<close> and
  \<^verbatim>\<open>huffman_t\<close>, the two bump allocators, and the heap predicates that say which abstract tree or
  list a pointer stands for. \<^verbatim>\<open>tree_memory\<close> and \<^verbatim>\<open>queue_memory\<close> are fixed-size arrays on the C
  stack; a pointer into one of them is its slot number.
\<close>

section \<open>Structs\<close>

record node_t =
  left :: ptr
  right :: ptr
  weight :: u16
  byte :: u8

record queue_t =
  nxt :: ptr
  el :: ptr

record huffman_t =
  tree_memory :: "node_t option list"
  tree_ptr :: nat
  allocated_tree_size :: u16
  queue_memory :: "queue_t option list"
  queue_ptr :: nat
  allocated_queue_size :: u16

definition ALPHABET_SIZE :: nat where
  "ALPHABET_SIZE = 26 + 26 + 7"

definition TREE_MAX_SIZE :: nat where
  "TREE_MAX_SIZE = ALPHABET_SIZE * 2 - 1"

definition QUEUE_MAX_SIZE :: nat where
  "QUEUE_MAX_SIZE = ALPHABET_SIZE"

section \<open>Allocation\<close>

definition new_node :: "u16 \<Rightarrow> node_t" where
  "new_node w = \<lparr>left = None, right = None, weight = w, byte = 0\<rparr>"

definition new_queue :: "ptr \<Rightarrow> queue_t" where
  "new_queue e = \<lparr>nxt = None, el = e\<rparr>"

definition tree_alloc :: "u16 \<Rightarrow> huffman_t \<Rightarrow> (nat \<times> huffman_t) result" where
  "tree_alloc w h =
     rbind (cell_set (tree_memory h) (Some (tree_ptr h)) (new_node w)) (\<lambda>m.
     Ok (tree_ptr h,
         h\<lparr>tree_memory := m, tree_ptr := Suc (tree_ptr h),
           allocated_tree_size := allocated_tree_size h + 1\<rparr>))"

definition queue_alloc :: "ptr \<Rightarrow> huffman_t \<Rightarrow> (nat \<times> huffman_t) result" where
  "queue_alloc e h =
     rbind (cell_set (queue_memory h) (Some (queue_ptr h)) (new_queue e)) (\<lambda>m.
     Ok (queue_ptr h,
         h\<lparr>queue_memory := m, queue_ptr := Suc (queue_ptr h),
           allocated_queue_size := allocated_queue_size h + 1\<rparr>))"

definition queue_clear :: "huffman_t \<Rightarrow> huffman_t" where
  "queue_clear h = h\<lparr>queue_ptr := 0\<rparr>"

section \<open>Access through pointers\<close>

definition get_node :: "huffman_t \<Rightarrow> ptr \<Rightarrow> node_t result" where
  "get_node h p = cell_get (tree_memory h) p"

definition set_node :: "huffman_t \<Rightarrow> ptr \<Rightarrow> node_t \<Rightarrow> huffman_t result" where
  "set_node h p n = rbind (cell_set (tree_memory h) p n) (\<lambda>m. Ok (h\<lparr>tree_memory := m\<rparr>))"

definition get_queue :: "huffman_t \<Rightarrow> ptr \<Rightarrow> queue_t result" where
  "get_queue h p = cell_get (queue_memory h) p"

definition set_next :: "huffman_t \<Rightarrow> ptr \<Rightarrow> ptr \<Rightarrow> huffman_t result" where
  "set_next h p q =
     rbind (get_queue h p) (\<lambda>c.
     rbind (cell_set (queue_memory h) p (c\<lparr>nxt := q\<rparr>)) (\<lambda>m.
     Ok (h\<lparr>queue_memory := m\<rparr>)))"

lemmas access_defs = get_node_def set_node_def get_queue_def set_next_def

section \<open>The contract of a bump allocator\<close>

text \<open>
  \<open>fresh_from m n\<close>: the slots from \<open>n\<close> on have not been handed out. An allocator fills the slot
  its top points at and moves the top up by one; it fails exactly when the pool is used up.
\<close>

definition fresh_from :: "'c option list \<Rightarrow> nat \<Rightarrow> bool" where
  "fresh_from m n \<longleftrightarrow> n \<le> length m \<and> (\<forall>i. n \<le> i \<longrightarrow> i < length m \<longrightarrow> m ! i = None)"

lemma fresh_from_replicate [simp]: "fresh_from (replicate n None) 0"
  by (simp add: fresh_from_def)

lemma holds_below_fresh: "holds m i c \<Longrightarrow> fresh_from m n \<Longrightarrow> i < n"
  by (rule ccontr) (auto simp: holds_def fresh_from_def)

lemma fresh_from_frame:
  "fresh_from m n \<Longrightarrow> length m' = length m \<Longrightarrow> (\<And>i. n \<le> i \<Longrightarrow> m' ! i = m ! i) \<Longrightarrow> fresh_from m' n"
  by (simp add: fresh_from_def)

definition extends :: "'c option list \<Rightarrow> 'c option list \<Rightarrow> bool" where
  "extends m m' \<longleftrightarrow> (\<forall>i c. holds m i c \<longrightarrow> holds m' i c)"

lemma extends_refl [simp]: "extends m m"
  by (simp add: extends_def)

lemma extends_trans: "extends a b \<Longrightarrow> extends b c \<Longrightarrow> extends a c"
  by (simp add: extends_def)

lemma extendsD: "extends m m' \<Longrightarrow> holds m i c \<Longrightarrow> holds m' i c"
  by (simp add: extends_def)

lemma extends_fill: "fresh_from m n \<Longrightarrow> extends m (m[n := v])"
  unfolding extends_def by (metis holds_below_fresh holds_update_other less_irrefl)

lemma fresh_fill: "fresh_from m n \<Longrightarrow> n < length m \<Longrightarrow> fresh_from (m[n := v]) (Suc n)"
  by (simp add: fresh_from_def)

locale bump_pool =
  fixes mem :: "'s \<Rightarrow> 'c option list"
    and top :: "'s \<Rightarrow> nat"
    and init :: "'a \<Rightarrow> 'c"
    and alloc :: "'a \<Rightarrow> 's \<Rightarrow> (nat \<times> 's) result"
  assumes alloc_fault: "length (mem s) \<le> top s \<Longrightarrow> alloc a s = Fail Out_Of_Bounds"
    and alloc_total: "top s < length (mem s) \<Longrightarrow> \<exists>s'. alloc a s = Ok (top s, s')"
    and alloc_mem: "alloc a s = Ok (i, s') \<Longrightarrow> mem s' = (mem s)[top s := Some (init a)]"
    and alloc_top: "alloc a s = Ok (i, s') \<Longrightarrow> top s' = Suc (top s)"
begin

lemma alloc_slot: "alloc a s = Ok (i, s') \<Longrightarrow> i = top s \<and> top s < length (mem s)"
  using alloc_fault [of s a] alloc_total [of s a] by (cases "top s < length (mem s)") auto

lemma alloc_length: "alloc a s = Ok (i, s') \<Longrightarrow> length (mem s') = length (mem s)"
  using alloc_mem by simp

lemma alloc_holds: "alloc a s = Ok (i, s') \<Longrightarrow> holds (mem s') i (init a)"
  using alloc_mem alloc_slot by (fastforce simp: holds_def)

lemma alloc_fresh:
  assumes "alloc a s = Ok (i, s')" and "fresh_from (mem s) (top s)"
  shows "fresh_from (mem s') (top s')"
  using assms alloc_mem [OF assms(1)] alloc_top [OF assms(1)] alloc_slot [OF assms(1)]
  by (auto simp: fresh_from_def nth_list_update)

lemma alloc_extends:
  assumes "alloc a s = Ok (i, s')" and "fresh_from (mem s) (top s)"
  shows "extends (mem s) (mem s')"
proof -
  have "j \<noteq> top s" if "holds (mem s) j c" for j c
    using holds_below_fresh [OF that assms(2)] by simp
  then show ?thesis
    using alloc_mem [OF assms(1)] by (metis extends_def holds_update_other)
qed

lemma alloc_new:
  assumes "alloc a s = Ok (i, s')" and "fresh_from (mem s) (top s)"
  shows "\<not> holds (mem s) i c"
  using alloc_slot [OF assms(1)] holds_below_fresh [OF _ assms(2)] by fastforce

text \<open>A run of allocations succeeds exactly when the pool has room for all of them.\<close>

lemma alloc_run_Ok_iff:
  "top s \<le> length (mem s) \<Longrightarrow>
   (\<exists>s'. rfold (\<lambda>a t. rbind (alloc a t) (\<lambda>(i, t'). Ok t')) as s = Ok s')
     \<longleftrightarrow> top s + length as \<le> length (mem s)"
proof (induction as arbitrary: s)
  case (Cons a as)
  show ?case
  proof (cases "top s < length (mem s)")
    case True
    then obtain s1 where s1: "alloc a s = Ok (top s, s1)"
      using alloc_total by blast
    with True have "top s1 \<le> length (mem s1)"
      by (simp add: alloc_top alloc_length)
    from Cons.IH [OF this] show ?thesis
      using s1 by (simp add: alloc_top [OF s1] alloc_length [OF s1])
  next
    case False
    then show ?thesis using Cons.prems by (simp add: alloc_fault)
  qed
qed simp

end

interpretation tree_pool: bump_pool tree_memory tree_ptr new_node tree_alloc
  by unfold_locales (auto simp: tree_alloc_def cell_set_def split: if_splits)

interpretation queue_pool: bump_pool queue_memory queue_ptr new_queue queue_alloc
  by unfold_locales (auto simp: queue_alloc_def cell_set_def split: if_splits)

text \<open>Each allocator leaves the other pool alone.\<close>

lemma tree_alloc_frame:
  assumes "tree_alloc w h = Ok (i, h')"
  shows "queue_memory h' = queue_memory h" and "queue_ptr h' = queue_ptr h"
  using assms by (auto simp: tree_alloc_def res_simps)

lemma queue_alloc_frame:
  assumes "queue_alloc e h = Ok (i, h')"
  shows "tree_memory h' = tree_memory h" and "tree_ptr h' = tree_ptr h"
  using assms by (auto simp: queue_alloc_def res_simps)

section \<open>Heap predicates\<close>

text \<open>The tree a node pointer stands for; \<open>Null\<close> is the NULL pointer.\<close>

datatype ptree = Null | PNode u16 u8 ptree ptree

primrec tree_at :: "node_t option list \<Rightarrow> ptr \<Rightarrow> ptree \<Rightarrow> bool" where
  "tree_at m p Null \<longleftrightarrow> p = None"
| "tree_at m p (PNode w b l r) \<longleftrightarrow>
     (\<exists>i n. p = Some i \<and> holds m i n \<and> weight n = w \<and> byte n = b \<and>
        tree_at m (left n) l \<and> tree_at m (right n) r)"

lemma tree_at_extends: "extends m m' \<Longrightarrow> tree_at m p t \<Longrightarrow> tree_at m' p t"
proof (induction t arbitrary: p)
  case (PNode w b l r)
  then show ?case by simp (metis extendsD)
qed simp

lemma tree_at_unique: "tree_at m p t \<Longrightarrow> tree_at m p u \<Longrightarrow> t = u"
proof (induction t arbitrary: p u)
  case Null
  then show ?case by (cases u) auto
next
  case (PNode w b l r)
  from PNode.prems obtain i n where n: "p = Some i" "holds m i n" "weight n = w" "byte n = b"
    and lr: "tree_at m (left n) l" "tree_at m (right n) r" by auto
  from PNode.prems(2) n(1) obtain v c l' r' d where u: "u = PNode v c l' r'"
    and d: "holds m i d" "weight d = v" "byte d = c" "tree_at m (left d) l'" "tree_at m (right d) r'"
    by (cases u) auto
  from n(2) d(1) have "d = n" by (rule holds_unique [symmetric])
  with u d n lr show ?case using PNode.IH by simp
qed

text \<open>The chain of queue cells a queue pointer starts: each with its slot and its element.\<close>

primrec queue_at :: "queue_t option list \<Rightarrow> ptr \<Rightarrow> (nat \<times> nat) list \<Rightarrow> bool" where
  "queue_at m p [] \<longleftrightarrow> p = None"
| "queue_at m p (x # xs) \<longleftrightarrow>
     (\<exists>c. p = Some (fst x) \<and> holds m (fst x) c \<and> el c = Some (snd x) \<and> queue_at m (nxt c) xs)"

lemma queue_at_extends: "extends m m' \<Longrightarrow> queue_at m p xs \<Longrightarrow> queue_at m' p xs"
  by (induction xs arbitrary: p) (auto dest: extendsD)

lemma queue_at_unique: "queue_at m p xs \<Longrightarrow> queue_at m p ys \<Longrightarrow> xs = ys"
proof (induction xs arbitrary: p ys)
  case Nil
  then show ?case by (cases ys) auto
next
  case (Cons x xs)
  from Cons.prems(1) obtain c where x: "p = Some (fst x)" "holds m (fst x) c" "el c = Some (snd x)"
    and xs: "queue_at m (nxt c) xs" by auto
  from Cons.prems(2) x(1) obtain y ys' d where ys: "ys = y # ys'"
    and y: "fst y = fst x" "holds m (fst x) d" "el d = Some (snd y)" and ys': "queue_at m (nxt d) ys'"
    by (cases ys) auto
  from x(2) y(2) have "c = d" by (rule holds_unique)
  with x(3) y(1,3) have "x = y" by (simp add: prod_eq_iff)
  moreover from xs ys' \<open>c = d\<close> have "xs = ys'" using Cons.IH by simp
  ultimately show ?case using ys by simp
qed

lemma queue_at_None [simp]: "queue_at m None xs \<longleftrightarrow> xs = []"
  by (cases xs) auto

lemma queue_at_update_other:
  "i \<notin> fst ` set xs \<Longrightarrow> queue_at (m[i := v]) p xs = queue_at m p xs"
  by (induction xs arbitrary: p) auto

lemma queue_at_slots: "queue_at m p xs \<Longrightarrow> x \<in> set xs \<Longrightarrow> \<exists>c. holds m (fst x) c"
  by (induction xs arbitrary: p) auto

lemma queue_at_suffix:
  "queue_at m p (xs @ y # ys) \<Longrightarrow> queue_at m (Some (fst y)) (y # ys)"
  by (induction xs arbitrary: p) auto

text \<open>A chain that reaches NULL visits no slot twice, so it is no longer than the pool.\<close>

lemma queue_at_distinct: "queue_at m p xs \<Longrightarrow> distinct (map fst xs)"
proof (induction xs arbitrary: p)
  case (Cons x xs)
  have "fst x \<notin> fst ` set xs"
  proof
    assume "fst x \<in> fst ` set xs"
    then obtain ys y zs where xs: "xs = ys @ y # zs" and y: "fst y = fst x"
      by (metis imageE split_list)
    from Cons.prems xs have "queue_at m (Some (fst x)) (y # zs)"
      using queue_at_suffix [of m p "x # ys" y zs] y by simp
    moreover from Cons.prems have "queue_at m (Some (fst x)) (x # xs)" by auto
    ultimately have "y # zs = x # xs" by (rule queue_at_unique)
    with xs show False by simp
  qed
  with Cons show ?case by auto
qed simp

lemma queue_at_length:
  assumes "queue_at m p xs"
  shows "length xs \<le> length m"
proof -
  have "set (map fst xs) \<subseteq> {..<length m}"
    using queue_at_slots [OF assms] by (auto dest: holds_length)
  then have "card (set (map fst xs)) \<le> card {..<length m}"
    by (rule card_mono [rotated]) simp
  then show ?thesis
    using distinct_card [OF queue_at_distinct [OF assms]] by simp
qed

end
