(* ===== verification/Huff_Queue.thy ===== *)
theory Huff_Queue
  imports Huff_Pool
begin

text \<open>
  The queue of \<^verbatim>\<open>huffman.c\<close>: a singly linked list of tree nodes, threaded through \<^verbatim>\<open>queue_memory\<close>,
  into which \<^verbatim>\<open>queue_add_element\<close> inserts by weight. The operations are stated on the pools, with
  every pointer access checked; the lemmas relate them to operations on the list of trees the
  queue stands for. A loop over the links has as many rounds as the pool has slots, and one more
  to see NULL: a run that needs more of them has met a cycle and does not end.
\<close>

section \<open>Operations\<close>

definition queue_rounds :: "huffman_t \<Rightarrow> nat" where
  "queue_rounds h = Suc (length (queue_memory h))"

fun queue_add_loop ::
  "nat \<Rightarrow> huffman_t \<Rightarrow> ptr \<Rightarrow> ptr \<Rightarrow> ptr \<Rightarrow> ptr \<Rightarrow> (ptr \<times> huffman_t) result" where
  "queue_add_loop 0 h head cur new e = Fail Diverge"
| "queue_add_loop (Suc n) h head cur new e =
     rbind (get_queue h cur) (\<lambda>c.
     if nxt c \<noteq> None then
       rbind (get_queue h (nxt c)) (\<lambda>d.
       rbind (get_node h (el d)) (\<lambda>x.
       rbind (get_node h e) (\<lambda>y.
       if weight x > weight y then
         rbind (set_next h new (nxt c)) (\<lambda>h1.
         rbind (set_next h1 cur new) (\<lambda>h2.
         Ok (head, h2)))
       else queue_add_loop n h head (nxt c) new e)))
     else
       rbind (set_next h cur new) (\<lambda>h1. Ok (head, h1)))"

definition queue_add_element :: "huffman_t \<Rightarrow> ptr \<Rightarrow> ptr \<Rightarrow> (ptr \<times> huffman_t) result" where
  "queue_add_element h head e =
     rbind (queue_alloc e h) (\<lambda>(q, h).
     let new = Some q in
     if head = None then Ok (new, h)
     else
       rbind (get_queue h head) (\<lambda>c.
       rbind (get_node h (el c)) (\<lambda>x.
       rbind (get_node h e) (\<lambda>y.
       if weight x > weight y then
         rbind (set_next h new head) (\<lambda>h1. Ok (new, h1))
       else queue_add_loop (queue_rounds h) h head head new e))))"

fun queue_remove_loop ::
  "nat \<Rightarrow> huffman_t \<Rightarrow> ptr \<Rightarrow> ptr \<Rightarrow> ptr \<Rightarrow> ptr \<Rightarrow> (ptr \<times> huffman_t) result" where
  "queue_remove_loop 0 h head cur prev e = Fail Diverge"
| "queue_remove_loop (Suc n) h head cur prev e =
     (if cur = None then Ok (head, h)
      else
        rbind (get_queue h cur) (\<lambda>c.
        if e = el c then
          (if prev = None then Ok (cur, h)
           else rbind (set_next h prev (nxt c)) (\<lambda>h1. Ok (head, h1)))
        else
          rbind (get_queue h head) (\<lambda>d.
          queue_remove_loop n h head (nxt d) cur e)))"

definition queue_remove_element ::
  "nat \<Rightarrow> huffman_t \<Rightarrow> ptr \<Rightarrow> ptr \<Rightarrow> (ptr \<times> huffman_t) result" where
  "queue_remove_element rounds h head e = queue_remove_loop rounds h head head None e"

definition queue_pop2 :: "huffman_t \<Rightarrow> ptr \<Rightarrow> (ptr \<times> ptr \<times> ptr) result" where
  "queue_pop2 h head =
     rbind (get_queue h head) (\<lambda>c.
     if nxt c = None then Ok (el c, None, None)
     else rbind (get_queue h (nxt c)) (\<lambda>d. Ok (el c, el d, nxt d)))"

fun queue_size_loop :: "nat \<Rightarrow> huffman_t \<Rightarrow> ptr \<Rightarrow> u16 \<Rightarrow> u16 result" where
  "queue_size_loop 0 h cur sz = Fail Diverge"
| "queue_size_loop (Suc n) h cur sz =
     (if cur = None then Ok sz
      else rbind (get_queue h cur) (\<lambda>c. queue_size_loop n h (nxt c) (sz + 1)))"

definition queue_size :: "huffman_t \<Rightarrow> ptr \<Rightarrow> u16 result" where
  "queue_size h head = queue_size_loop (queue_rounds h) h head 0"

section \<open>Insertion by weight\<close>

text \<open>
  The list operation behind \<^const>\<open>queue_add_element\<close>: the new element goes in front of the first
  one with a strictly greater key, so after its equals.
\<close>

primrec ins_by :: "('a \<Rightarrow> 'k::linorder) \<Rightarrow> 'a \<Rightarrow> 'a list \<Rightarrow> 'a list" where
  "ins_by k x [] = [x]"
| "ins_by k x (y # ys) = (if k x < k y then x # y # ys else y # ins_by k x ys)"

lemma length_ins_by [simp]: "length (ins_by k x ys) = Suc (length ys)"
  by (induction ys) auto

lemma ins_by_not_Nil [simp]: "ins_by k x ys \<noteq> []"
  by (cases ys) auto

lemma set_ins_by [simp]: "set (ins_by k x ys) = insert x (set ys)"
  by (induction ys) auto

lemma mset_ins_by: "mset (ins_by k x ys) = add_mset x (mset ys)"
  by (induction ys) auto

lemma sorted_ins_by: "sorted (map k ys) \<Longrightarrow> sorted (map k (ins_by k x ys))"
  by (induction ys) (auto simp: not_less)

lemma distinct_map_ins_by:
  "distinct (map f (ins_by k x ys)) \<longleftrightarrow> f x \<notin> f ` set ys \<and> distinct (map f ys)"
  by (induction ys) auto

lemma list_all2_ins_by:
  assumes "list_all2 R xs ys" and "R x y" and keys: "\<And>a b. R a b \<Longrightarrow> k a = l b"
  shows "list_all2 R (ins_by k x xs) (ins_by l y ys)"
  using assms(1,2) by (induction rule: list_all2_induct) (auto simp: keys)

definition node_weight :: "node_t option list \<Rightarrow> nat \<times> nat \<Rightarrow> u16" where
  "node_weight m x = weight (the (m ! snd x))"

lemma node_weight_holds: "holds m (snd x) n \<Longrightarrow> node_weight m x = weight n"
  by (simp add: node_weight_def holds_def)

section \<open>Refinement of the queue operations\<close>

lemma queue_size_loop_at:
  "queue_at (queue_memory h) p xs \<Longrightarrow> length xs < n \<Longrightarrow>
   queue_size_loop n h p s = Ok (s + of_nat (length xs))"
proof (induction xs arbitrary: n p s)
  case Nil
  then show ?case by (cases n) simp_all
next
  case (Cons x xs)
  from Cons.prems(2) obtain k where n: "n = Suc k" and k: "length xs < k" by (cases n) auto
  from Cons.prems(1) obtain c where c: "p = Some (fst x)" "holds (queue_memory h) (fst x) c"
    and xs: "queue_at (queue_memory h) (nxt c) xs" by auto
  show ?case
    using Cons.IH [OF xs k, of "s + 1"] c n by (simp add: get_queue_def algebra_simps)
qed

lemma queue_size_at:
  "queue_at (queue_memory h) p xs \<Longrightarrow> queue_size h p = Ok (of_nat (length xs))"
  using queue_at_length [of "queue_memory h" p xs]
    queue_size_loop_at [of h p xs "Suc (length (queue_memory h))" 0]
  by (simp add: queue_size_def queue_rounds_def del: queue_size_loop.simps)

lemma queue_pop2_at:
  "queue_at (queue_memory h) p (x # y # xs) \<Longrightarrow>
   \<exists>p'. queue_pop2 h p = Ok (Some (snd x), Some (snd y), p') \<and> queue_at (queue_memory h) p' xs"
  by (auto simp: queue_pop2_def access_defs)

text \<open>Linking a cell: the chain behind it is the new one.\<close>

lemma set_next_holds:
  "holds (queue_memory h) i c \<Longrightarrow>
   set_next h (Some i) q = Ok (h\<lparr>queue_memory := (queue_memory h)[i := Some (c\<lparr>nxt := q\<rparr>)]\<rparr>)"
  by (simp add: access_defs)

lemma queue_at_link:
  assumes "holds m i c" and "el c = Some e" and "i \<notin> fst ` set ys" and "queue_at m q ys"
  shows "queue_at (m[i := Some (c\<lparr>nxt := q\<rparr>)]) (Some i) ((i, e) # ys)"
  using assms holds_length [OF assms(1)] by (simp add: queue_at_update_other)

lemma queue_add_loop_at:
  assumes "queue_at (queue_memory h) (Some (fst y)) (y # ys)"
    and "holds (queue_memory h) q \<lparr>nxt = None, el = Some e\<rparr>" and "q \<notin> fst ` set (y # ys)"
    and "length ys < n" and "holds (tree_memory h) e ne"
    and "\<And>x. x \<in> set ys \<Longrightarrow> \<exists>n. holds (tree_memory h) (snd x) n"
  shows "\<exists>m. queue_add_loop n h head (Some (fst y)) (Some q) (Some e)
               = Ok (head, h\<lparr>queue_memory := m\<rparr>) \<and>
           queue_at m (Some (fst y)) (y # ins_by (node_weight (tree_memory h)) (q, e) ys) \<and>
           length m = length (queue_memory h) \<and>
           (\<forall>i. i \<notin> insert q (fst ` set (y # ys)) \<longrightarrow> m ! i = queue_memory h ! i)"
  using assms
proof (induction ys arbitrary: y n)
  case Nil
  from Nil.prems(4) obtain k where n: "n = Suc k" by (cases n) auto
  from Nil.prems(1) obtain c where c: "holds (queue_memory h) (fst y) c" "el c = Some (snd y)"
    "nxt c = None" by auto
  let ?m = "(queue_memory h)[fst y := Some (c\<lparr>nxt := Some q\<rparr>)]"
  have "queue_at (queue_memory h) (Some q) [(q, e)]"
    using Nil.prems(2) by auto
  with c Nil.prems(3) have "queue_at ?m (Some (fst y)) [y, (q, e)]"
    using queue_at_link [OF c(1,2), of "[(q, e)]" "Some q"] by auto
  then show ?case
    using n c by (intro exI [of _ ?m]) (simp add: get_queue_def set_next_holds)
next
  case (Cons z zs)
  from Cons.prems(4) obtain k where n: "n = Suc k" and k: "length zs < k" by (cases n) auto
  let ?qm = "queue_memory h" and ?w = "node_weight (tree_memory h)"
  from Cons.prems(1) obtain c where c: "holds ?qm (fst y) c" "el c = Some (snd y)"
    "nxt c = Some (fst z)" and z: "queue_at ?qm (Some (fst z)) (z # zs)" by auto
  from z obtain d where d: "holds ?qm (fst z) d" "el d = Some (snd z)" by auto
  from Cons.prems(6) [of z] obtain nz where nz: "holds (tree_memory h) (snd z) nz" by auto
  have keys: "?w (q, e) = weight ne" "?w z = weight nz"
    using node_weight_holds [of _ "(q, e)" ne] node_weight_holds [OF nz] Cons.prems(5) by simp_all
  have y_notin: "fst y \<notin> fst ` set (z # zs)"
    using queue_at_distinct [OF Cons.prems(1)] by simp
  show ?case
  proof (cases "weight ne < weight nz")
    case True
    let ?m1 = "?qm[q := Some \<lparr>nxt = Some (fst z), el = Some e\<rparr>]"
    let ?m2 = "?m1[fst y := Some (c\<lparr>nxt := Some q\<rparr>)]"
    have "queue_at ?m1 (Some q) ((q, e) # z # zs)"
      using queue_at_link [OF Cons.prems(2) _ _ z] Cons.prems(3) by auto
    moreover have hy: "holds ?m1 (fst y) c" using c(1) Cons.prems(3) by auto
    ultimately have "queue_at ?m2 (Some (fst y)) (y # (q, e) # z # zs)"
      using queue_at_link [OF hy c(2), of "(q, e) # z # zs"] y_notin Cons.prems(3) by auto
    moreover have "set_next h (Some q) (Some (fst z)) = Ok (h\<lparr>queue_memory := ?m1\<rparr>)"
      using set_next_holds [OF Cons.prems(2)] by simp
    moreover have "set_next (h\<lparr>queue_memory := ?m1\<rparr>) (Some (fst y)) (Some q)
        = Ok (h\<lparr>queue_memory := ?m2\<rparr>)"
      using set_next_holds [of "h\<lparr>queue_memory := ?m1\<rparr>" "fst y" c] hy by simp
    ultimately show ?thesis
      using n c(1,3) d nz True keys Cons.prems(5)
      by (intro exI [of _ ?m2]) (simp add: get_queue_def get_node_def)
  next
    case False
    have "q \<notin> fst ` set (z # zs)" using Cons.prems(3) by simp
    moreover have "\<exists>n. holds (tree_memory h) (snd x) n" if "x \<in> set zs" for x
      using Cons.prems(6) [of x] that by simp
    ultimately obtain m where m: "queue_add_loop k h head (Some (fst z)) (Some q) (Some e)
          = Ok (head, h\<lparr>queue_memory := m\<rparr>)"
      "queue_at m (Some (fst z)) (z # ins_by ?w (q, e) zs)" "length m = length ?qm"
      "\<forall>i. i \<notin> insert q (fst ` set (z # zs)) \<longrightarrow> m ! i = ?qm ! i"
      using Cons.IH [OF z Cons.prems(2) _ k Cons.prems(5)] by blast
    have "fst y \<notin> insert q (fst ` set (z # zs))"
      using y_notin Cons.prems(3) by auto
    with m(4) have "m ! fst y = ?qm ! fst y" by blast
    with c(1) m(3) have "holds m (fst y) c"
      by (simp add: holds_def)
    then have "queue_at m (Some (fst y)) (y # z # ins_by ?w (q, e) zs)"
      using c(2,3) m(2) by auto
    then show ?thesis
      using n c(1,3) d nz False keys Cons.prems(5) m
      by (intro exI [of _ m]) (simp add: get_queue_def get_node_def)
  qed
qed

text \<open>The cell an allocation returns, before it is linked.\<close>

lemma queue_alloc_room:
  assumes "queue_ptr h < length (queue_memory h)"
  shows "queue_alloc e h = Ok (queue_ptr h,
    h\<lparr>queue_memory := (queue_memory h)[queue_ptr h := Some \<lparr>nxt = None, el = e\<rparr>],
      queue_ptr := Suc (queue_ptr h), allocated_queue_size := allocated_queue_size h + 1\<rparr>)"
  using assms by (simp add: queue_alloc_def cell_set_def new_queue_def)

definition queue_grown :: "huffman_t \<Rightarrow> queue_t option list \<Rightarrow> huffman_t" where
  "queue_grown h m =
     h\<lparr>queue_memory := m, queue_ptr := Suc (queue_ptr h),
       allocated_queue_size := allocated_queue_size h + 1\<rparr>"

lemma queue_grown_sel [simp]:
  "queue_memory (queue_grown h m) = m" "queue_ptr (queue_grown h m) = Suc (queue_ptr h)"
  "tree_memory (queue_grown h m) = tree_memory h" "tree_ptr (queue_grown h m) = tree_ptr h"
  by (simp_all add: queue_grown_def)

lemma queue_add_element_at:
  assumes q: "queue_at (queue_memory h) p xs" and fresh: "fresh_from (queue_memory h) (queue_ptr h)"
    and room: "queue_ptr h < length (queue_memory h)" and ne: "holds (tree_memory h) e ne"
    and nodes: "\<And>x. x \<in> set xs \<Longrightarrow> \<exists>n. holds (tree_memory h) (snd x) n"
  shows "\<exists>p' m. queue_add_element h p (Some e) = Ok (p', queue_grown h m) \<and>
           queue_at m p' (ins_by (node_weight (tree_memory h)) (queue_ptr h, e) xs) \<and>
           length m = length (queue_memory h) \<and> fresh_from m (Suc (queue_ptr h))"
proof -
  let ?q = "queue_ptr h" and ?w = "node_weight (tree_memory h)"
  define m1 where "m1 = (queue_memory h)[?q := Some \<lparr>nxt = None, el = Some e\<rparr>]"
  define h1 where "h1 = queue_grown h m1"
  have alloc: "queue_alloc (Some e) h = Ok (?q, h1)"
    using queue_alloc_room [OF room, of "Some e"] by (simp add: h1_def m1_def queue_grown_def)
  have ext: "extends (queue_memory h) m1" and fresh1: "fresh_from m1 (Suc ?q)"
    using queue_pool.alloc_extends [OF alloc fresh] queue_pool.alloc_fresh [OF alloc fresh]
    by (simp_all add: h1_def)
  have new: "holds m1 ?q \<lparr>nxt = None, el = Some e\<rparr>"
    using room by (simp add: m1_def)
  have q1: "queue_at m1 p xs" using ext q by (rule queue_at_extends)
  have notin: "?q \<notin> fst ` set xs"
    using queue_at_slots [OF q] holds_below_fresh [OF _ fresh] by fastforce
  have below: "i < Suc ?q" if "i \<in> insert ?q (fst ` set xs)" for i
    using that queue_at_slots [OF q] holds_below_fresh [OF _ fresh] by fastforce
  have len1: "length m1 = length (queue_memory h)" by (simp add: m1_def)
  have fresh_upd: "fresh_from m (Suc ?q)"
    if "length m = length m1" "\<forall>i. i \<notin> insert ?q (fst ` set xs) \<longrightarrow> m ! i = m1 ! i" for m
    by (rule fresh_from_frame [OF fresh1 that(1)]) (metis that(2) below not_less)
  show ?thesis
  proof (cases xs)
    case Nil
    with q have "p = None" by simp
    then have "queue_add_element h p (Some e) = Ok (Some ?q, queue_grown h m1)"
      using alloc by (simp add: queue_add_element_def h1_def)
    then show ?thesis
      using Nil new fresh1 len1 by (intro exI [of _ "Some ?q"] exI [of _ m1]) auto
  next
    case (Cons y ys)
    from q1 Cons obtain c where p: "p = Some (fst y)" and c: "holds m1 (fst y) c"
      "el c = Some (snd y)" by auto
    from nodes [of y] Cons obtain ny where ny: "holds (tree_memory h) (snd y) ny" by auto
    have keys: "?w (?q, e) = weight ne" "?w y = weight ny"
      using node_weight_holds [of _ "(?q, e)" ne] node_weight_holds [OF ny] ne by simp_all
    have prefix: "queue_add_element h p (Some e) =
        (if weight ne < weight ny
         then rbind (set_next h1 (Some ?q) p) (\<lambda>h2. Ok (Some ?q, h2))
         else queue_add_loop (queue_rounds h1) h1 p p (Some ?q) (Some e))"
      using alloc p c ny ne by (simp add: queue_add_element_def get_queue_def get_node_def h1_def Let_def)
    show ?thesis
    proof (cases "weight ne < weight ny")
      case True
      let ?m = "m1[?q := Some \<lparr>nxt = p, el = Some e\<rparr>]"
      have "queue_at ?m (Some ?q) ((?q, e) # xs)"
        using queue_at_link [OF new _ notin q1] by simp
      moreover have "set_next h1 (Some ?q) p = Ok (queue_grown h ?m)"
        using set_next_holds [of h1 ?q "\<lparr>nxt = None, el = Some e\<rparr>" p] new
        by (simp add: h1_def queue_grown_def)
      ultimately show ?thesis
        using prefix True keys Cons len1 fresh_upd [of ?m] by (intro exI [of _ "Some ?q"] exI [of _ ?m]) simp
    next
      case False
      have "length ys < queue_rounds h1"
        using queue_at_length [OF q] Cons by (simp add: queue_rounds_def h1_def len1)
      moreover have "queue_at (queue_memory h1) (Some (fst y)) (y # ys)"
        using q1 Cons p by (simp add: h1_def)
      moreover have "\<exists>n. holds (tree_memory h1) (snd x) n" if "x \<in> set ys" for x
        using nodes [of x] that Cons by (simp add: h1_def)
      ultimately obtain m where m: "queue_add_loop (queue_rounds h1) h1 p p (Some ?q) (Some e)
            = Ok (p, h1\<lparr>queue_memory := m\<rparr>)"
        "queue_at m p (y # ins_by ?w (?q, e) ys)" "length m = length m1"
        "\<forall>i. i \<notin> insert ?q (fst ` set xs) \<longrightarrow> m ! i = m1 ! i"
        using queue_add_loop_at [of h1 y ys ?q e "queue_rounds h1" ne p] new notin ne Cons p
        by (auto simp: h1_def)
      then have "queue_add_element h p (Some e) = Ok (p, queue_grown h m)"
        using prefix False by (simp add: h1_def queue_grown_def)
      then show ?thesis
        using m keys False Cons len1 fresh_upd [of m] by auto
    qed
  qed
qed

lemma queue_add_element_full:
  "length (queue_memory h) \<le> queue_ptr h \<Longrightarrow> queue_add_element h p e = Fail Out_Of_Bounds"
  by (simp add: queue_add_element_def queue_pool.alloc_fault)

end
