(* ===== verification/Huff_Build.thy ===== *)
theory Huff_Build
  imports Huff_Queue
begin

text \<open>
  \<^verbatim>\<open>build_queue\<close> and \<^verbatim>\<open>build_tree\<close> of \<^verbatim>\<open>huffman.c\<close>: one queue entry per distinct byte, holding the
  number of its occurrences, and the repeated merge of the two entries at the head of the queue
  into one. The lemmas give the list of leaves and the tree these build, and the exact amount of
  pool space they use.
\<close>

section \<open>Operations\<close>

fun count_loop :: "nat \<Rightarrow> huffman_t \<Rightarrow> ptr \<Rightarrow> u8 \<Rightarrow> (bool \<times> huffman_t) result" where
  "count_loop 0 h cur b = Fail Diverge"
| "count_loop (Suc n) h cur b =
     (if cur = None then Ok (False, h)
      else
        rbind (get_queue h cur) (\<lambda>c.
        rbind (get_node h (el c)) (\<lambda>x.
        if byte x = b then
          rbind (set_node h (el c) (x\<lparr>weight := weight x + 1\<rparr>)) (\<lambda>h1. Ok (True, h1))
        else count_loop n h (nxt c) b)))"

definition build_queue_step ::
  "u8 list \<Rightarrow> nat \<Rightarrow> ptr \<times> huffman_t \<Rightarrow> (ptr \<times> huffman_t) result" where
  "build_queue_step data i s =
     (case s of (head, h) \<Rightarrow>
        rbind (aget data i) (\<lambda>b.
        rbind (count_loop (queue_rounds h) h head b) (\<lambda>(found, h).
        if found then Ok (head, h)
        else
          rbind (tree_alloc 1 h) (\<lambda>(j, h).
          rbind (get_node h (Some j)) (\<lambda>x.
          rbind (set_node h (Some j) (x\<lparr>byte := b\<rparr>)) (\<lambda>h.
          queue_add_element h head (Some j)))))))"

definition build_queue :: "huffman_t \<Rightarrow> u8 list \<Rightarrow> u16 \<Rightarrow> (ptr \<times> huffman_t) result" where
  "build_queue h data data_size = rfold (build_queue_step data) [0..<unat data_size] (None, h)"

fun build_tree_loop :: "nat \<Rightarrow> huffman_t \<Rightarrow> ptr \<Rightarrow> (ptr \<times> huffman_t) result" where
  "build_tree_loop 0 h head = Fail Diverge"
| "build_tree_loop (Suc n) h head =
     rbind (queue_size h head) (\<lambda>s.
     if s \<ge> 2 then
       rbind (queue_pop2 h head) (\<lambda>(a, b, head).
       rbind (get_node h a) (\<lambda>x.
       rbind (get_node h b) (\<lambda>y.
       rbind (tree_alloc (weight x + weight y) h) (\<lambda>(j, h).
       rbind (get_node h (Some j)) (\<lambda>z.
       rbind (set_node h (Some j) (z\<lparr>left := a, right := b, byte := 0\<rparr>)) (\<lambda>h.
       rbind (queue_add_element h head (Some j)) (\<lambda>(head, h).
       build_tree_loop n h head)))))))
     else Ok (head, h))"

definition build_tree :: "huffman_t \<Rightarrow> ptr \<Rightarrow> (ptr \<times> huffman_t) result" where
  "build_tree h head =
     rbind (build_tree_loop (Suc (length (tree_memory h))) h head) (\<lambda>(head, h).
     if head = None then Fail Assert_Failed
     else rbind (get_queue h head) (\<lambda>c. Ok (el c, h)))"

section \<open>Counting on lists of trees\<close>

primrec root_weight :: "ptree \<Rightarrow> u16" where
  "root_weight Null = 0"
| "root_weight (PNode w b l r) = w"

primrec root_sym :: "ptree \<Rightarrow> u8" where
  "root_sym Null = 0"
| "root_sym (PNode w b l r) = b"

abbreviation leaf :: "u16 \<Rightarrow> u8 \<Rightarrow> ptree" where
  "leaf w b \<equiv> PNode w b Null Null"

definition is_leaf :: "ptree \<Rightarrow> bool" where
  "is_leaf t \<longleftrightarrow> t = leaf (root_weight t) (root_sym t)"

lemma is_leaf_leaf [simp]: "is_leaf (leaf w b)"
  by (simp add: is_leaf_def)

primrec bump_sym :: "u8 \<Rightarrow> ptree list \<Rightarrow> ptree list" where
  "bump_sym b [] = []"
| "bump_sym b (t # ts) =
     (if root_sym t = b then leaf (root_weight t + 1) b # ts else t # bump_sym b ts)"

definition count_sym :: "u8 \<Rightarrow> ptree list \<Rightarrow> ptree list" where
  "count_sym b ts =
     (if b \<in> root_sym ` set ts then bump_sym b ts else ins_by root_weight (leaf 1 b) ts)"

primrec forest_of :: "u8 list \<Rightarrow> ptree list \<Rightarrow> ptree list" where
  "forest_of [] ts = ts"
| "forest_of (b # bs) ts = forest_of bs (count_sym b ts)"

lemma forest_of_snoc: "forest_of (bs @ [b]) ts = count_sym b (forest_of bs ts)"
  by (induction bs arbitrary: ts) auto

lemma syms_bump [simp]: "map root_sym (bump_sym b ts) = map root_sym ts"
  by (induction ts) auto

lemma length_bump [simp]: "length (bump_sym b ts) = length ts"
  by (induction ts) auto

lemma leaves_bump: "Ball (set ts) is_leaf \<Longrightarrow> Ball (set (bump_sym b ts)) is_leaf"
  by (induction ts) auto

text \<open>What the queue counts: a leaf for every distinct byte, weighted with its occurrences.\<close>

definition counts :: "u8 list \<Rightarrow> ptree list \<Rightarrow> bool" where
  "counts data ts \<longleftrightarrow>
     distinct (map root_sym ts) \<and> root_sym ` set ts = set data \<and>
     (\<forall>t \<in> set ts. is_leaf t \<and> root_weight t = of_nat (count_list data (root_sym t)))"

lemma count_list_snoc: "count_list (xs @ [x]) y = count_list xs y + (if x = y then 1 else 0)"
  by simp

lemma set_bump:
  "distinct (map root_sym ts) \<Longrightarrow> b \<in> root_sym ` set ts \<Longrightarrow>
   set (bump_sym b ts) =
     {t \<in> set ts. root_sym t \<noteq> b} \<union> {leaf (root_weight t + 1) b | t. t \<in> set ts \<and> root_sym t = b}"
  by (induction ts) (auto simp: image_iff)

lemma counts_count_sym:
  assumes "counts data ts"
  shows "counts (data @ [b]) (count_sym b ts)"
proof (cases "b \<in> root_sym ` set ts")
  case True
  have syms: "map root_sym (bump_sym b ts) = map root_sym ts" by simp
  then have sset: "root_sym ` set (bump_sym b ts) = root_sym ` set ts"
    by (metis set_map)
  have "is_leaf t \<and> root_weight t = of_nat (count_list (data @ [b]) (root_sym t))"
    if "t \<in> set (bump_sym b ts)" for t
    using that assms True
    by (auto simp: counts_def set_bump count_list_snoc)
  then show ?thesis
    using assms True syms sset by (auto simp: counts_def count_sym_def)
next
  case False
  then have "b \<notin> set data" using assms by (simp add: counts_def)
  then have "count_list data b = 0" by (simp add: count_list_0_iff)
  then show ?thesis
    using assms False
    by (auto simp: counts_def count_sym_def distinct_map_ins_by count_list_snoc)
qed

lemma counts_forest_of: "counts data (forest_of data [])"
proof (induction data rule: rev_induct)
  case Nil
  then show ?case by (simp add: counts_def)
next
  case (snoc b data)
  then show ?case by (simp add: forest_of_snoc counts_count_sym)
qed

lemma counts_length: "counts data ts \<Longrightarrow> length ts = card (set data)"
  unfolding counts_def by (metis distinct_card length_map list.set_map)


section \<open>Refinement of the counting loop\<close>

definition tree_rel :: "node_t option list \<Rightarrow> nat \<times> nat \<Rightarrow> ptree \<Rightarrow> bool" where
  "tree_rel m x t \<longleftrightarrow> tree_at m (Some (snd x)) t"

lemma tree_rel_weight: "tree_rel m x t \<Longrightarrow> node_weight m x = root_weight t"
  by (cases t) (auto simp: tree_rel_def node_weight_holds)

lemma tree_rel_holds:
  "tree_rel m x t \<Longrightarrow> \<exists>n. holds m (snd x) n \<and> byte n = root_sym t \<and> weight n = root_weight t"
  by (cases t) (auto simp: tree_rel_def)

lemma tree_rel_leaf:
  "is_leaf t \<Longrightarrow> tree_rel m x t \<longleftrightarrow>
     holds m (snd x) \<lparr>left = None, right = None, weight = root_weight t, byte = root_sym t\<rparr>"
proof -
  assume "is_leaf t"
  then obtain w b where t: "t = leaf w b" by (auto simp: is_leaf_def)
  have "(\<exists>n. holds m i n \<and> weight n = w \<and> byte n = b \<and> left n = None \<and> right n = None)
      \<longleftrightarrow> holds m i \<lparr>left = None, right = None, weight = w, byte = b\<rparr>" for i
    by (metis (full_types) node_t.select_convs node_t.surjective old.unit.exhaust)
  then show ?thesis using t by (simp add: tree_rel_def)
qed

lemma tree_rel_extends: "extends m m' \<Longrightarrow> tree_rel m x t \<Longrightarrow> tree_rel m' x t"
  by (simp add: tree_rel_def tree_at_extends)

lemma tree_rels_extends:
  "extends m m' \<Longrightarrow> list_all2 (tree_rel m) xs ts \<Longrightarrow> list_all2 (tree_rel m') xs ts"
  by (erule list_all2_mono) (rule tree_rel_extends)

lemma leaf_rels_update:
  assumes "list_all2 (tree_rel m) xs ts" and "Ball (set ts) is_leaf" and "i \<notin> snd ` set xs"
  shows "list_all2 (tree_rel (m[i := v])) xs ts"
  using assms by (induction rule: list_all2_induct) (auto simp: tree_rel_leaf)

lemma count_loop_at:
  assumes "list_all2 (tree_rel (tree_memory h)) xs ts" and "queue_at (queue_memory h) p xs"
    and "Ball (set ts) is_leaf" and "distinct (map snd xs)" and "length xs < n"
  shows "\<exists>m. count_loop n h p b = Ok (b \<in> root_sym ` set ts, h\<lparr>tree_memory := m\<rparr>) \<and>
           list_all2 (tree_rel m) xs (bump_sym b ts) \<and> length m = length (tree_memory h) \<and>
           (\<forall>i. i \<notin> snd ` set xs \<longrightarrow> m ! i = tree_memory h ! i)"
  using assms
proof (induction arbitrary: p n rule: list_all2_induct)
  case Nil
  then show ?case by (cases n) (auto intro: exI [of _ "tree_memory h"])
next
  case (Cons x xs t ts)
  let ?tm = "tree_memory h"
  from Cons.prems(4) obtain k where n: "n = Suc k" and k: "length xs < k" by (cases n) auto
  from Cons.prems(1) obtain c where c: "p = Some (fst x)" "holds (queue_memory h) (fst x) c"
    "el c = Some (snd x)" and xs: "queue_at (queue_memory h) (nxt c) xs" by auto
  define nx where "nx = \<lparr>left = None, right = None, weight = root_weight t, byte = root_sym t\<rparr>"
  have t: "is_leaf t" using Cons.prems(2) by simp
  then have nx: "holds ?tm (snd x) nx"
    using Cons.hyps(1) by (simp add: tree_rel_leaf nx_def)
  have x_notin: "snd x \<notin> snd ` set xs" using Cons.prems(3) by simp
  show ?case
  proof (cases "root_sym t = b")
    case True
    let ?m = "?tm[snd x := Some (nx\<lparr>weight := root_weight t + 1\<rparr>)]"
    have "tree_rel ?m x (leaf (root_weight t + 1) b)"
      using holds_length [OF nx] True by (simp add: tree_rel_leaf nx_def)
    moreover have "list_all2 (tree_rel ?m) xs ts"
      using leaf_rels_update [OF Cons.hyps(2) _ x_notin] Cons.prems(2) by simp
    ultimately show ?thesis
      using True n c nx by (intro exI [of _ ?m]) (simp add: access_defs nx_def)
  next
    case False
    from Cons.IH [OF xs _ _ k] Cons.prems(2,3) obtain m where m:
      "count_loop k h (nxt c) b = Ok (b \<in> root_sym ` set ts, h\<lparr>tree_memory := m\<rparr>)"
      "list_all2 (tree_rel m) xs (bump_sym b ts)" "length m = length ?tm"
      "\<forall>i. i \<notin> snd ` set xs \<longrightarrow> m ! i = ?tm ! i" by auto
    have "holds m (snd x) nx"
      using nx m(3,4) x_notin by (auto simp: holds_def)
    then have "tree_rel m x t" using t by (simp add: tree_rel_leaf nx_def)
    then show ?thesis
      using False n c nx m by (intro exI [of _ m]) (auto simp: access_defs nx_def)
  qed
qed

section \<open>Refinement of build\_queue\<close>

definition tree_grown :: "huffman_t \<Rightarrow> node_t \<Rightarrow> huffman_t" where
  "tree_grown h n =
     h\<lparr>tree_memory := (tree_memory h)[tree_ptr h := Some n], tree_ptr := Suc (tree_ptr h),
       allocated_tree_size := allocated_tree_size h + 1\<rparr>"

lemma tree_grown_sel [simp]:
  "tree_memory (tree_grown h n) = (tree_memory h)[tree_ptr h := Some n]"
  "tree_ptr (tree_grown h n) = Suc (tree_ptr h)"
  "queue_memory (tree_grown h n) = queue_memory h" "queue_ptr (tree_grown h n) = queue_ptr h"
  by (simp_all add: tree_grown_def)

text \<open>Allocating a node and then setting its fields.\<close>

lemma alloc_then_set:
  assumes "tree_ptr h < length (tree_memory h)"
  shows "rbind (tree_alloc w h) (\<lambda>(j, h). rbind (get_node h (Some j)) (\<lambda>x.
           rbind (set_node h (Some j) (f x)) (k j))) = k (tree_ptr h) (tree_grown h (f (new_node w)))"
  using assms
  by (cases h) (simp add: tree_alloc_def cell_set_def cell_get_def access_defs tree_grown_def)

definition forest_at :: "huffman_t \<Rightarrow> ptr \<Rightarrow> ptree list \<Rightarrow> bool" where
  "forest_at h p ts \<longleftrightarrow>
     fresh_from (tree_memory h) (tree_ptr h) \<and> fresh_from (queue_memory h) (queue_ptr h) \<and>
     (\<exists>xs. queue_at (queue_memory h) p xs \<and> list_all2 (tree_rel (tree_memory h)) xs ts)"

text \<open>A forest of leaves that no two queue cells share.\<close>

definition leaves_at :: "huffman_t \<Rightarrow> ptr \<Rightarrow> ptree list \<Rightarrow> bool" where
  "leaves_at h p ts \<longleftrightarrow>
     fresh_from (tree_memory h) (tree_ptr h) \<and> fresh_from (queue_memory h) (queue_ptr h) \<and>
     Ball (set ts) is_leaf \<and>
     (\<exists>xs. queue_at (queue_memory h) p xs \<and> list_all2 (tree_rel (tree_memory h)) xs ts \<and>
        distinct (map snd xs))"

definition same_caps :: "huffman_t \<Rightarrow> huffman_t \<Rightarrow> bool" where
  "same_caps h h' \<longleftrightarrow> length (tree_memory h') = length (tree_memory h) \<and>
     length (queue_memory h') = length (queue_memory h)"

lemma leaves_forest: "leaves_at h p ts \<Longrightarrow> forest_at h p ts"
  by (auto simp: leaves_at_def forest_at_def)

lemma tree_rels_nodes:
  "list_all2 (tree_rel m) xs ts \<Longrightarrow> x \<in> set xs \<Longrightarrow> \<exists>n. holds m (snd x) n"
  by (metis tree_rel_holds list_all2_conv_all_nth in_set_conv_nth)

text \<open>Queueing a node that has just been allocated.\<close>

lemma queue_new_node:
  assumes fresh: "fresh_from (tree_memory h) (tree_ptr h)" "fresh_from (queue_memory h) (queue_ptr h)"
    and q: "queue_at (queue_memory h) p xs" and ts: "list_all2 (tree_rel (tree_memory h)) xs ts"
    and room: "tree_ptr h < length (tree_memory h)" "queue_ptr h < length (queue_memory h)"
    and t: "tree_rel (tree_memory (tree_grown h n)) (queue_ptr h, tree_ptr h) t"
  shows "\<exists>p' h'. queue_add_element (tree_grown h n) p (Some (tree_ptr h)) = Ok (p', h') \<and>
           tree_memory h' = tree_memory (tree_grown h n) \<and> tree_ptr h' = Suc (tree_ptr h) \<and>
           queue_ptr h' = Suc (queue_ptr h) \<and> same_caps h h' \<and>
           fresh_from (tree_memory h') (tree_ptr h') \<and> fresh_from (queue_memory h') (queue_ptr h') \<and>
           (\<exists>ys. queue_at (queue_memory h') p' ys \<and>
              list_all2 (tree_rel (tree_memory h')) ys (ins_by root_weight t ts) \<and>
              (distinct (map snd xs) \<longrightarrow> distinct (map snd ys)))"
proof -
  let ?h = "tree_grown h n" and ?x = "(queue_ptr h, tree_ptr h)"
  have ts': "list_all2 (tree_rel (tree_memory ?h)) xs ts"
    using tree_rels_extends [OF extends_fill [OF fresh(1)] ts] by simp
  have "holds (tree_memory ?h) (tree_ptr h) n" using room by simp
  then obtain p' m where add: "queue_add_element ?h p (Some (tree_ptr h)) = Ok (p', queue_grown ?h m)"
    and m: "queue_at m p' (ins_by (node_weight (tree_memory ?h)) ?x xs)"
      "length m = length (queue_memory h)" "fresh_from m (Suc (queue_ptr h))"
    using queue_add_element_at [of ?h p xs "tree_ptr h" n] q fresh room tree_rels_nodes [OF ts'] by auto
  have "list_all2 (tree_rel (tree_memory ?h)) (ins_by (node_weight (tree_memory ?h)) ?x xs)
      (ins_by root_weight t ts)"
    using ts' t by (rule list_all2_ins_by) (rule tree_rel_weight)
  moreover have "tree_ptr h \<notin> snd ` set xs"
    using tree_rels_nodes [OF ts] holds_below_fresh [OF _ fresh(1)] by fastforce
  then have "distinct (map snd xs) \<longrightarrow> distinct (map snd (ins_by (node_weight (tree_memory ?h)) ?x xs))"
    by (simp add: distinct_map_ins_by)
  ultimately have "\<exists>ys. queue_at m p' ys \<and> list_all2 (tree_rel (tree_memory ?h)) ys (ins_by root_weight t ts) \<and>
      (distinct (map snd xs) \<longrightarrow> distinct (map snd ys))"
    using m(1) by blast
  then show ?thesis
    using add m(2,3) fresh_fill [OF fresh(1) room(1)]
    by (intro exI [of _ p'] exI [of _ "queue_grown ?h m"]) (simp add: same_caps_def)
qed

lemma bump_sym_absent: "b \<notin> root_sym ` set ts \<Longrightarrow> bump_sym b ts = ts"
  by (induction ts) auto

text \<open>Looking a byte up among the counted leaves, and counting it when it is there.\<close>

lemma count_leaves_at:
  assumes L: "leaves_at h p ts"
  obtains m where "count_loop (queue_rounds h) h p b = Ok (b \<in> root_sym ` set ts, h\<lparr>tree_memory := m\<rparr>)"
    and "length m = length (tree_memory h)" and "leaves_at (h\<lparr>tree_memory := m\<rparr>) p (bump_sym b ts)"
proof -
  from L obtain xs where q: "queue_at (queue_memory h) p xs" "distinct (map snd xs)"
      "list_all2 (tree_rel (tree_memory h)) xs ts"
    and fresh: "fresh_from (tree_memory h) (tree_ptr h)" "fresh_from (queue_memory h) (queue_ptr h)"
    and leaves: "Ball (set ts) is_leaf" by (auto simp: leaves_at_def)
  have "length xs < queue_rounds h"
    using queue_at_length [OF q(1)] by (simp add: queue_rounds_def)
  from count_loop_at [OF q(3,1) leaves q(2) this, of b] obtain m where m:
    "count_loop (queue_rounds h) h p b = Ok (b \<in> root_sym ` set ts, h\<lparr>tree_memory := m\<rparr>)"
    "list_all2 (tree_rel m) xs (bump_sym b ts)" "length m = length (tree_memory h)"
    "\<forall>i. i \<notin> snd ` set xs \<longrightarrow> m ! i = tree_memory h ! i" by auto
  have below: "snd x < tree_ptr h" if "x \<in> set xs" for x
    using tree_rels_nodes [OF q(3) that] holds_below_fresh [OF _ fresh(1)] by auto
  then have "j \<notin> snd ` set xs" if "tree_ptr h \<le> j" for j
    using that by fastforce
  then have "fresh_from m (tree_ptr h)"
    using fresh_from_frame [OF fresh(1) m(3)] m(4) by auto
  then have "leaves_at (h\<lparr>tree_memory := m\<rparr>) p (bump_sym b ts)"
    using m q fresh leaves by (auto simp: leaves_at_def intro: leaves_bump [THEN bspec])
  with m(1,3) show thesis by (rule that)
qed

text \<open>A byte that is not yet in the queue gets a node and a queue cell of its own.\<close>

lemma build_queue_step_new:
  assumes m: "count_loop (queue_rounds h) h p b = Ok (False, g)" and i: "i < length data" "data ! i = b"
    and room: "tree_ptr g < length (tree_memory g)"
  shows "build_queue_step data i (p, h)
         = queue_add_element (tree_grown g ((new_node 1)\<lparr>byte := b\<rparr>)) p (Some (tree_ptr g))"
  using m i alloc_then_set [OF room, of 1 "\<lambda>x. x\<lparr>byte := b\<rparr>" "\<lambda>j h. queue_add_element h p (Some j)"]
  by (simp add: build_queue_step_def)

lemma build_queue_step_at:
  assumes L: "leaves_at h p ts" and i: "i < length data" "data ! i = b"
    and room: "b \<notin> root_sym ` set ts \<Longrightarrow>
      tree_ptr h < length (tree_memory h) \<and> queue_ptr h < length (queue_memory h)"
  shows "\<exists>p' h'. build_queue_step data i (p, h) = Ok (p', h') \<and> leaves_at h' p' (count_sym b ts) \<and>
           same_caps h h' \<and>
           tree_ptr h' = tree_ptr h + (if b \<in> root_sym ` set ts then 0 else 1) \<and>
           queue_ptr h' = queue_ptr h + (if b \<in> root_sym ` set ts then 0 else 1)"
proof -
  from L obtain m where m: "count_loop (queue_rounds h) h p b = Ok (b \<in> root_sym ` set ts, h\<lparr>tree_memory := m\<rparr>)"
    "length m = length (tree_memory h)" and L': "leaves_at (h\<lparr>tree_memory := m\<rparr>) p (bump_sym b ts)"
    by (rule count_leaves_at)
  show ?thesis
  proof (cases "b \<in> root_sym ` set ts")
    case True
    then show ?thesis
      using m i L' by (auto simp: build_queue_step_def count_sym_def same_caps_def)
  next
    case False
    let ?h = "h\<lparr>tree_memory := m\<rparr>" and ?n = "(new_node 1)\<lparr>byte := b\<rparr>"
    from L' bump_sym_absent [OF False] obtain xs where q: "queue_at (queue_memory ?h) p xs" "distinct (map snd xs)"
        "list_all2 (tree_rel (tree_memory ?h)) xs ts"
      and fresh: "fresh_from (tree_memory ?h) (tree_ptr ?h)" "fresh_from (queue_memory ?h) (queue_ptr ?h)"
      and leaves: "Ball (set ts) is_leaf" by (auto simp: leaves_at_def)
    have r: "tree_ptr ?h < length (tree_memory ?h)" "queue_ptr ?h < length (queue_memory ?h)"
      using room [OF False] m(2) by simp_all
    have t: "tree_rel (tree_memory (tree_grown ?h ?n)) (queue_ptr ?h, tree_ptr ?h) (leaf 1 b)"
      using r by (simp add: tree_rel_leaf new_node_def)
    from queue_new_node [OF fresh q(1,3) r t] q(2) obtain p' h' ys where
      add: "queue_add_element (tree_grown ?h ?n) p (Some (tree_ptr ?h)) = Ok (p', h')"
      and h': "tree_ptr h' = Suc (tree_ptr h)" "queue_ptr h' = Suc (queue_ptr h)" "same_caps ?h h'"
        "fresh_from (tree_memory h') (tree_ptr h')" "fresh_from (queue_memory h') (queue_ptr h')"
      and ys: "queue_at (queue_memory h') p' ys" "distinct (map snd ys)"
        "list_all2 (tree_rel (tree_memory h')) ys (ins_by root_weight (leaf 1 b) ts)" by auto
    have "build_queue_step data i (p, h) = Ok (p', h')"
      using build_queue_step_new [OF _ i r(1), of h p] m(1) False add by simp
    then show ?thesis
      using False h' ys leaves m(2) by (auto simp: leaves_at_def count_sym_def same_caps_def)
  qed
qed

lemma build_queue_step_full:
  assumes L: "leaves_at h p ts" and i: "i < length data" "data ! i \<notin> root_sym ` set ts"
    and room: "tree_ptr h < length (tree_memory h)" and full: "length (queue_memory h) \<le> queue_ptr h"
  shows "build_queue_step data i (p, h) = Fail Out_Of_Bounds"
proof -
  from L obtain m where m: "count_loop (queue_rounds h) h p (data ! i) =
      Ok (data ! i \<in> root_sym ` set ts, h\<lparr>tree_memory := m\<rparr>)" "length m = length (tree_memory h)"
    by (rule count_leaves_at)
  have "tree_ptr (h\<lparr>tree_memory := m\<rparr>) < length (tree_memory (h\<lparr>tree_memory := m\<rparr>))" using room m(2) by simp
  from build_queue_step_new [OF _ i(1) refl this, of h p] m(1) i(2) show ?thesis
    using full by (simp add: queue_add_element_full tree_grown_def)
qed

lemma length_forest_of: "length (forest_of data []) = card (set data)"
  using counts_length [OF counts_forest_of] .

lemma syms_forest_of: "root_sym ` set (forest_of data []) = set data"
  using counts_forest_of [of data] by (simp add: counts_def)

lemma length_count_sym:
  "length (count_sym b ts) = length ts + (if b \<in> root_sym ` set ts then 0 else 1)"
  by (simp add: count_sym_def)

lemma take_Suc_snoc: "i < length xs \<Longrightarrow> take (Suc i) xs = take i xs @ [xs ! i]"
  by (rule take_Suc_conv_app_nth)

text \<open>
  \<^const>\<open>build_queue\<close> succeeds whenever both pools have a slot for every distinct byte, and then
  the queue holds the counted leaves and exactly that many slots are used up.
\<close>

lemma build_queue_prefix:
  assumes fresh: "fresh_from (tree_memory h) (tree_ptr h)" "fresh_from (queue_memory h) (queue_ptr h)"
    and k: "k \<le> length data"
    and room: "tree_ptr h + card (set (take k data)) \<le> length (tree_memory h)"
      "queue_ptr h + card (set (take k data)) \<le> length (queue_memory h)"
  shows "\<exists>p h'. rfold (build_queue_step data) [0..<k] (None, h) = Ok (p, h') \<and>
           leaves_at h' p (forest_of (take k data) []) \<and>
           same_caps h h' \<and> tree_ptr h' = tree_ptr h + card (set (take k data)) \<and>
           queue_ptr h' = queue_ptr h + card (set (take k data))"
proof -
  define I where "I = (\<lambda>i (p, h'). leaves_at h' p (forest_of (take i data) []) \<and> same_caps h h' \<and>
      tree_ptr h' = tree_ptr h + card (set (take i data)) \<and>
      queue_ptr h' = queue_ptr h + card (set (take i data)))"
  have "I 0 (None, h)"
    using fresh by (simp add: I_def leaves_at_def same_caps_def)
  moreover have "\<exists>s'. build_queue_step data i s = Ok s' \<and> I (Suc i) s'"
    if ik: "i < k" and I: "I i s" for i s
  proof -
    have i: "i < length data" using ik k by simp
    obtain p h1 where s: "s = (p, h1)" by (cases s)
    let ?ts = "forest_of (take i data) []" and ?b = "data ! i"
    from I s have L: "leaves_at h1 p ?ts" and caps: "same_caps h h1"
      and ptrs: "tree_ptr h1 = tree_ptr h + card (set (take i data))"
        "queue_ptr h1 = queue_ptr h + card (set (take i data))" by (simp_all add: I_def)
    have take: "set (take (Suc i) data) = insert ?b (set (take i data))"
      using i by (simp add: take_Suc_snoc)
    have "card (set (take (Suc i) data)) \<le> card (set (take k data))"
      using ik by (intro card_mono) (simp_all add: set_take_subset_set_take)
    with take room caps ptrs have r: "?b \<notin> root_sym ` set ?ts \<Longrightarrow>
        tree_ptr h1 < length (tree_memory h1) \<and> queue_ptr h1 < length (queue_memory h1)"
      by (simp add: syms_forest_of same_caps_def)
    from build_queue_step_at [OF L i refl r] obtain p' h' where
      "build_queue_step data i (p, h1) = Ok (p', h')" "leaves_at h' p' (count_sym ?b ?ts)"
      "same_caps h1 h'"
      "tree_ptr h' = tree_ptr h1 + (if ?b \<in> root_sym ` set ?ts then 0 else 1)"
      "queue_ptr h' = queue_ptr h1 + (if ?b \<in> root_sym ` set ?ts then 0 else 1)" by auto
    then show ?thesis
      using i s caps ptrs take
      by (auto simp: I_def take_Suc_snoc forest_of_snoc same_caps_def syms_forest_of insert_absorb)
  qed
  ultimately obtain s where "rfold (build_queue_step data) [0..<k] (None, h) = Ok s"
    and "I k s" using rfold_upt_invariant [of I] by blast
  then show ?thesis by (cases s) (auto simp: I_def)
qed

lemma build_queue_at:
  assumes fresh: "fresh_from (tree_memory h) (tree_ptr h)" "fresh_from (queue_memory h) (queue_ptr h)"
    and n: "unat data_size = length data"
    and room: "tree_ptr h + card (set data) \<le> length (tree_memory h)"
      "queue_ptr h + card (set data) \<le> length (queue_memory h)"
  shows "\<exists>p h'. build_queue h data data_size = Ok (p, h') \<and> leaves_at h' p (forest_of data []) \<and>
           same_caps h h' \<and> tree_ptr h' = tree_ptr h + card (set data) \<and>
           queue_ptr h' = queue_ptr h + card (set data)"
  using build_queue_prefix [OF fresh, of "length data" data] room n by (simp add: build_queue_def)

text \<open>
  It runs out of queue cells at the first byte for which the pool has none left.
\<close>

lemma card_take_reaches:
  assumes "k < card (set xs)"
  obtains i where "i < length xs" and "card (set (take i xs)) = k" and "xs ! i \<notin> set (take i xs)"
proof -
  define i where "i = (LEAST i. k < card (set (take (Suc i) xs)))"
  have ex: "k < card (set (take (Suc (length xs)) xs))" using assms by simp
  then have i: "k < card (set (take (Suc i) xs))" unfolding i_def by (rule LeastI)
  have le: "card (set (take i xs)) \<le> k"
  proof (cases i)
    case (Suc j)
    then have "\<not> k < card (set (take (Suc j) xs))" using not_less_Least [of j "\<lambda>i. k < card (set (take (Suc i) xs))"] unfolding i_def by simp
    with Suc show ?thesis by simp
  qed simp
  with i have lt: "i < length xs" by (cases "i < length xs") auto
  then have "set (take (Suc i) xs) = insert (xs ! i) (set (take i xs))" by (simp add: take_Suc_snoc)
  with i le have "xs ! i \<notin> set (take i xs)" "card (set (take i xs)) = k"
    by (cases "xs ! i \<in> set (take i xs)"; simp add: insert_absorb)+
  with lt show thesis using that by blast
qed

lemma build_queue_full:
  assumes fresh: "fresh_from (tree_memory h) (tree_ptr h)" "fresh_from (queue_memory h) (queue_ptr h)"
    and n: "unat data_size = length data"
    and ptr: "queue_ptr h \<le> length (queue_memory h)"
    and room: "tree_ptr h + (length (queue_memory h) - queue_ptr h) < length (tree_memory h)"
    and over: "length (queue_memory h) < queue_ptr h + card (set data)"
  shows "build_queue h data data_size = Fail Out_Of_Bounds"
proof -
  let ?k = "length (queue_memory h) - queue_ptr h"
  have "?k < card (set data)" using ptr over by simp
  then obtain i where i: "i < length data" "card (set (take i data)) = ?k" "data ! i \<notin> set (take i data)"
    by (rule card_take_reaches)
  then obtain p h' where pre: "rfold (build_queue_step data) [0..<i] (None, h) = Ok (p, h')"
    and h': "leaves_at h' p (forest_of (take i data) [])" "same_caps h h'" "tree_ptr h' = tree_ptr h + ?k"
      "queue_ptr h' = queue_ptr h + ?k"
    using build_queue_prefix [OF fresh, of i data] room ptr by auto
  have "build_queue_step data i (p, h') = Fail Out_Of_Bounds"
    using build_queue_step_full [OF h'(1) i(1)] i(3) h' room ptr by (simp add: syms_forest_of same_caps_def)
  moreover have "[0..<length data] = [0..<i] @ i # [Suc i..<length data]"
    using i(1) upt_add_eq_append [of 0 i "length data - i"] upt_conv_Cons [of i] by simp
  ultimately show ?thesis
    using n pre by (simp add: build_queue_def rfold_append)
qed

section \<open>Refinement of build\_tree\<close>

text \<open>The two trees at the head are merged until one is left.\<close>

definition merge_node :: "ptree \<Rightarrow> ptree \<Rightarrow> ptree" where
  "merge_node a b = PNode (root_weight a + root_weight b) 0 a b"

function huff_merge :: "ptree list \<Rightarrow> ptree" where
  "huff_merge [] = Null"
| "huff_merge [t] = t"
| "huff_merge (a # b # ts) = huff_merge (ins_by root_weight (merge_node a b) ts)"
  by pat_completeness auto
termination
  by (relation "measure length") auto

lemma build_tree_step:
  assumes F: "forest_at h p (a # b # ts)" and len: "length ts < 2 ^ 16 - 2"
    and room: "tree_ptr h < length (tree_memory h)"
  shows "queue_ptr h < length (queue_memory h) \<Longrightarrow>
           \<exists>p' h'. build_tree_loop (Suc n) h p = build_tree_loop n h' p' \<and>
             forest_at h' p' (ins_by root_weight (merge_node a b) ts) \<and> same_caps h h' \<and>
             tree_ptr h' = Suc (tree_ptr h) \<and> queue_ptr h' = Suc (queue_ptr h)"
    and "length (queue_memory h) \<le> queue_ptr h \<Longrightarrow> build_tree_loop (Suc n) h p = Fail Out_Of_Bounds"
proof -
  from F obtain zs where zs: "queue_at (queue_memory h) p zs"
      "list_all2 (tree_rel (tree_memory h)) zs (a # b # ts)"
    and fresh: "fresh_from (tree_memory h) (tree_ptr h)" "fresh_from (queue_memory h) (queue_ptr h)"
    by (auto simp: forest_at_def)
  from zs(2) obtain x y xs where "zs = x # y # xs"
    and rel: "tree_rel (tree_memory h) x a" "tree_rel (tree_memory h) y b"
      "list_all2 (tree_rel (tree_memory h)) xs ts"
    by (auto simp: list_all2_Cons2)
  with zs(1) have q: "queue_at (queue_memory h) p (x # y # xs)" by simp
  from queue_pop2_at [OF q] obtain r where pop: "queue_pop2 h p = Ok (Some (snd x), Some (snd y), r)"
    and r: "queue_at (queue_memory h) r xs" by auto
  from tree_rel_holds [OF rel(1)] tree_rel_holds [OF rel(2)] obtain u v where
    u: "holds (tree_memory h) (snd x) u" "weight u = root_weight a"
    and v: "holds (tree_memory h) (snd y) v" "weight v = root_weight b" by auto
  define z where "z = (new_node (weight u + weight v))
    \<lparr>left := Some (snd x), right := Some (snd y), byte := 0\<rparr>"
  have "length (x # y # xs) = length ts + 2"
    using rel(3) by (simp add: list_all2_lengthD)
  then have "queue_size h p = Ok (of_nat (length ts + 2))"
    using queue_size_at [OF q] by simp
  moreover have "(2::u16) \<le> of_nat (length ts + 2)"
    by (subst word_le_nat_alt, subst unat_of_nat_u16) (use len in simp_all)
  ultimately have loop: "build_tree_loop (Suc n) h p =
      rbind (queue_add_element (tree_grown h z) r (Some (tree_ptr h))) (\<lambda>(p', h'). build_tree_loop n h' p')"
    using pop u v alloc_then_set [OF room, of "weight u + weight v"
        "\<lambda>z. z\<lparr>left := Some (snd x), right := Some (snd y), byte := 0\<rparr>"
        "\<lambda>j h. rbind (queue_add_element h r (Some j)) (\<lambda>(p', h'). build_tree_loop n h' p')"]
    by (simp add: get_node_def z_def)
  show "build_tree_loop (Suc n) h p = Fail Out_Of_Bounds"
    if "length (queue_memory h) \<le> queue_ptr h"
    using loop queue_add_element_full [of "tree_grown h z"] that by simp
  assume qroom: "queue_ptr h < length (queue_memory h)"
  have ext: "extends (tree_memory h) (tree_memory (tree_grown h z))"
    using extends_fill [OF fresh(1)] by simp
  have "tree_rel (tree_memory (tree_grown h z)) (queue_ptr h, tree_ptr h) (merge_node a b)"
    using tree_rel_extends [OF ext rel(1)] tree_rel_extends [OF ext rel(2)] room u(2) v(2)
    by (simp add: tree_rel_def merge_node_def z_def new_node_def)
  from queue_new_node [OF fresh r rel(3) room qroom this] obtain p' h' where
    "queue_add_element (tree_grown h z) r (Some (tree_ptr h)) = Ok (p', h')"
    "forest_at h' p' (ins_by root_weight (merge_node a b) ts)" "same_caps h h'"
    "tree_ptr h' = Suc (tree_ptr h)" "queue_ptr h' = Suc (queue_ptr h)"
    unfolding forest_at_def by blast
  then show "\<exists>p' h'. build_tree_loop (Suc n) h p = build_tree_loop n h' p' \<and>
      forest_at h' p' (ins_by root_weight (merge_node a b) ts) \<and> same_caps h h' \<and>
      tree_ptr h' = Suc (tree_ptr h) \<and> queue_ptr h' = Suc (queue_ptr h)"
    using loop by (intro exI [of _ p'] exI [of _ h']) simp
qed

lemma forest_at_single:
  assumes "forest_at h p [t]"
  shows "\<exists>x. queue_at (queue_memory h) p [x] \<and> tree_rel (tree_memory h) x t"
proof -
  from assms obtain xs where xs: "queue_at (queue_memory h) p xs"
    "list_all2 (tree_rel (tree_memory h)) xs [t]" by (auto simp: forest_at_def)
  from xs(2) obtain x where "xs = [x]" "tree_rel (tree_memory h) x t"
    by (auto simp: list_all2_Cons2)
  with xs(1) show ?thesis by blast
qed

lemma build_tree_loop_at:
  assumes "forest_at h p ts" and "ts \<noteq> []" and "length ts < 2 ^ 16" and "length ts \<le> n"
    and "tree_ptr h + length ts \<le> Suc (length (tree_memory h))"
    and "queue_ptr h + length ts \<le> Suc (length (queue_memory h))"
  shows "\<exists>p' h'. build_tree_loop n h p = Ok (p', h') \<and> forest_at h' p' [huff_merge ts] \<and>
           same_caps h h' \<and> tree_ptr h' + 1 = tree_ptr h + length ts"
  using assms
proof (induction ts arbitrary: h p n rule: huff_merge.induct)
  case (2 t)
  from 2(4) obtain k where n: "n = Suc k" by (cases n) auto
  from forest_at_single [OF 2(1)] obtain x where "queue_at (queue_memory h) p [x]" by blast
  then have "queue_size h p = Ok 1" using queue_size_at by fastforce
  then show ?case using n 2(1) by (auto simp: same_caps_def word_le_nat_alt)
next
  case (3 a b ts)
  from 3(5) obtain k where n: "n = Suc k" by (cases n) auto
  have "length ts < 2 ^ 16 - 2" and "tree_ptr h < length (tree_memory h)"
    and "queue_ptr h < length (queue_memory h)" using 3(4,6,7) by simp_all
  from build_tree_step(1) [OF 3(2) this, of k] obtain p' h' where
    step: "build_tree_loop n h p = build_tree_loop k h' p'"
    and h': "forest_at h' p' (ins_by root_weight (merge_node a b) ts)" "same_caps h h'"
      "tree_ptr h' = Suc (tree_ptr h)" "queue_ptr h' = Suc (queue_ptr h)" using n by auto
  obtain q g where "build_tree_loop k h' p' = Ok (q, g)" "same_caps h' g"
    "forest_at g q [huff_merge (ins_by root_weight (merge_node a b) ts)]"
    "tree_ptr g + 1 = tree_ptr h' + length (ins_by root_weight (merge_node a b) ts)"
    using 3(1) [OF h'(1), of k] 3(4-7) n h' by (auto simp: same_caps_def)
  then show ?case using step h' by (auto simp: same_caps_def)
qed simp

lemma build_tree_loop_full:
  assumes "forest_at h p ts" and "length ts < 2 ^ 16" and "length ts \<le> n"
    and "tree_ptr h + length ts \<le> Suc (length (tree_memory h))"
    and "queue_ptr h \<le> length (queue_memory h)"
    and "Suc (length (queue_memory h)) < queue_ptr h + length ts"
  shows "build_tree_loop n h p = Fail Out_Of_Bounds"
  using assms
proof (induction ts arbitrary: h p n rule: huff_merge.induct)
  case (3 a b ts)
  from 3(4) obtain k where n: "n = Suc k" by (cases n) auto
  have step: "length ts < 2 ^ 16 - 2" "tree_ptr h < length (tree_memory h)"
    using 3(3,5) by simp_all
  show ?case
  proof (cases "queue_ptr h < length (queue_memory h)")
    case True
    from build_tree_step(1) [OF 3(2) step True, of k] obtain p' h' where
      "build_tree_loop n h p = build_tree_loop k h' p'"
      "forest_at h' p' (ins_by root_weight (merge_node a b) ts)" "same_caps h h'"
      "tree_ptr h' = Suc (tree_ptr h)" "queue_ptr h' = Suc (queue_ptr h)" using n by auto
    then show ?thesis using 3(1) [of h' p' k] 3(3-7) n True by (auto simp: same_caps_def)
  next
    case False
    then show ?thesis using build_tree_step(2) [OF 3(2) step, of k] n by simp
  qed
qed simp_all

text \<open>
  \<^const>\<open>build_tree\<close> on a queue of \<open>n\<close> trees needs \<open>n - 1\<close> further slots in each pool. With
  that room it returns the merged tree; with too few queue slots it writes past \<^verbatim>\<open>queue_memory\<close>.
\<close>

lemma build_tree_at:
  assumes F: "forest_at h p ts" and ne: "ts \<noteq> []" and len: "length ts < 2 ^ 16"
    and room: "tree_ptr h + length ts \<le> Suc (length (tree_memory h))"
      "queue_ptr h + length ts \<le> Suc (length (queue_memory h))"
  shows "\<exists>i h'. build_tree h p = Ok (Some i, h') \<and> tree_at (tree_memory h') (Some i) (huff_merge ts) \<and>
           same_caps h h' \<and> tree_ptr h' + 1 = tree_ptr h + length ts"
proof -
  from room(1) have "length ts \<le> Suc (length (tree_memory h))" by simp
  from build_tree_loop_at [OF F ne len this room] obtain p' h' where
    loop: "build_tree_loop (Suc (length (tree_memory h))) h p = Ok (p', h')"
    and h': "forest_at h' p' [huff_merge ts]" "same_caps h h'" "tree_ptr h' + 1 = tree_ptr h + length ts"
    by auto
  from forest_at_single [OF h'(1)] obtain x where "queue_at (queue_memory h') p' [x]"
    and x: "tree_rel (tree_memory h') x (huff_merge ts)" by blast
  then obtain c where "p' = Some (fst x)" "holds (queue_memory h') (fst x) c" "el c = Some (snd x)"
    by auto
  then show ?thesis
    using loop h'(2,3) x by (auto simp: build_tree_def get_queue_def tree_rel_def)
qed

lemma build_tree_full:
  assumes "forest_at h p ts" and "length ts < 2 ^ 16"
    and "tree_ptr h + length ts \<le> Suc (length (tree_memory h))"
    and "queue_ptr h \<le> length (queue_memory h)"
    and "Suc (length (queue_memory h)) < queue_ptr h + length ts"
  shows "build_tree h p = Fail Out_Of_Bounds"
  using build_tree_loop_full [OF assms(1,2) _ assms(3-5), of "Suc (length (tree_memory h))"] assms(3)
  by (simp add: build_tree_def)

lemma build_tree_empty: "build_tree h None = Fail Assert_Failed"
  by (simp add: build_tree_def queue_size_def queue_rounds_def)

end
