(* ===== verification/Huff_Tree.thy ===== *)
theory Huff_Tree
  imports Huff_Build
begin

text \<open>
  The recursive walks over a Huffman tree in \<^verbatim>\<open>huffman.c\<close>: its size, its number of leaves, its
  serialised form and the parser that rebuilds it. They follow pointers through \<^verbatim>\<open>tree_memory\<close>;
  the first argument bounds the depth of the recursion. On a pool of \<open>n\<close> slots a finite tree is
  at most \<open>n\<close> deep, so \<open>n + 1\<close> levels are enough (\<open>tree_at_height\<close>). Lemmas: each walk computes
  the corresponding function of the tree, and parsing a serialised tree rebuilds it.
\<close>

section \<open>Operations\<close>

definition tree_rounds :: "node_t option list \<Rightarrow> nat" where
  "tree_rounds m = Suc (length m)"

fun tree_get_size :: "nat \<Rightarrow> node_t option list \<Rightarrow> ptr \<Rightarrow> nat result" where
  "tree_get_size 0 m p = Fail Diverge"
| "tree_get_size (Suc n) m p =
     rbind (cell_get m p) (\<lambda>x.
     rbind (if left x \<noteq> None then tree_get_size n m (left x) else Ok 0) (\<lambda>l.
     rbind (if right x \<noteq> None then tree_get_size n m (right x) else Ok 0) (\<lambda>r.
     Ok (l + r + 1))))"

fun tree_count_leaves :: "nat \<Rightarrow> node_t option list \<Rightarrow> ptr \<Rightarrow> u16 result" where
  "tree_count_leaves 0 m p = Fail Diverge"
| "tree_count_leaves (Suc n) m p =
     rbind (cell_get m p) (\<lambda>x.
     if byte x \<noteq> 0 then Ok 1
     else
       rbind (if left x \<noteq> None then tree_count_leaves n m (left x) else Ok 0) (\<lambda>l.
       rbind (if right x \<noteq> None then tree_count_leaves n m (right x) else Ok 0) (\<lambda>r.
       Ok (l + r))))"

definition chr_null :: u8 where
  "chr_null = 45" \<comment> \<open>the character \<open>-\<close>\<close>

definition chr_node :: u8 where
  "chr_node = 42" \<comment> \<open>the character \<open>*\<close>\<close>

fun serialize_tree_node ::
  "nat \<Rightarrow> node_t option list \<Rightarrow> ptr \<Rightarrow> u8 list \<Rightarrow> nat \<Rightarrow> (u8 list \<times> nat) result" where
  "serialize_tree_node 0 m p out pos = Fail Diverge"
| "serialize_tree_node (Suc n) m p out pos =
     (if p = None then
        rbind (aset out pos chr_null) (\<lambda>out. Ok (out, Suc pos))
      else
        rbind (cell_get m p) (\<lambda>x.
        if byte x \<noteq> 0 then
          rbind (aset out pos (byte x)) (\<lambda>out. Ok (out, Suc pos))
        else
          rbind (aset out pos chr_node) (\<lambda>out.
          rbind (serialize_tree_node n m (left x) out (Suc pos)) (\<lambda>(out, pos).
          serialize_tree_node n m (right x) out pos))))"

definition serialize_tree :: "node_t option list \<Rightarrow> ptr \<Rightarrow> u8 list \<Rightarrow> nat \<Rightarrow> u8 list result" where
  "serialize_tree m p out pos =
     rbind (serialize_tree_node (tree_rounds m) m p out pos) (\<lambda>(out, pos'). Ok out)"

fun deserialize_tree_node ::
  "nat \<Rightarrow> huffman_t \<Rightarrow> u8 list \<Rightarrow> nat \<Rightarrow> (ptr \<times> nat \<times> huffman_t) result" where
  "deserialize_tree_node 0 h data pos = Fail Diverge"
| "deserialize_tree_node (Suc n) h data pos =
     rbind (aget data pos) (\<lambda>b.
     if b = chr_null then Ok (None, Suc pos, h)
     else if b \<noteq> chr_node then
       rbind (tree_alloc 0 h) (\<lambda>(i, h).
       rbind (get_node h (Some i)) (\<lambda>x.
       rbind (set_node h (Some i) (x\<lparr>byte := b\<rparr>)) (\<lambda>h.
       Ok (Some i, Suc pos, h))))
     else
       rbind (tree_alloc 0 h) (\<lambda>(i, h).
       rbind (get_node h (Some i)) (\<lambda>x.
       rbind (set_node h (Some i) (x\<lparr>byte := 0\<rparr>)) (\<lambda>h.
       rbind (deserialize_tree_node n h data (Suc pos)) (\<lambda>(l, pos, h).
       rbind (get_node h (Some i)) (\<lambda>x.
       rbind (set_node h (Some i) (x\<lparr>left := l\<rparr>)) (\<lambda>h.
       rbind (deserialize_tree_node n h data pos) (\<lambda>(r, pos, h).
       rbind (get_node h (Some i)) (\<lambda>x.
       rbind (set_node h (Some i) (x\<lparr>right := r\<rparr>)) (\<lambda>h.
       Ok (Some i, pos, h)))))))))))"

definition deserialize_tree :: "huffman_t \<Rightarrow> u8 list \<Rightarrow> (ptr \<times> u16 \<times> huffman_t) result" where
  "deserialize_tree h data =
     rbind (deserialize_tree_node (Suc (length data)) h data 0) (\<lambda>(p, pos, h).
     Ok (p, of_nat pos, h))"

section \<open>The same on trees\<close>

primrec nodes :: "ptree \<Rightarrow> nat" where
  "nodes Null = 0"
| "nodes (PNode w b l r) = nodes l + nodes r + 1"

primrec height :: "ptree \<Rightarrow> nat" where
  "height Null = 0"
| "height (PNode w b l r) = Suc (max (height l) (height r))"

primrec leaves :: "ptree \<Rightarrow> u8 list" where
  "leaves Null = []"
| "leaves (PNode w b l r) = (if b \<noteq> 0 then [b] else leaves l @ leaves r)"

primrec serialize :: "ptree \<Rightarrow> u8 list" where
  "serialize Null = [chr_null]"
| "serialize (PNode w b l r) = (if b \<noteq> 0 then [b] else chr_node # serialize l @ serialize r)"

lemma height_le_nodes: "height t \<le> nodes t"
  by (induction t) auto

lemma length_serialize_pos: "0 < length (serialize t)"
  by (cases t) auto

text \<open>
  Following left and right pointers from the root of a finite tree never meets the same slot
  twice: the subtree there would be its own proper subtree.
\<close>

lemma tree_at_path:
  "tree_at m p t \<Longrightarrow>
   \<exists>cs. distinct cs \<and> length cs = height t \<and>
     (\<forall>i \<in> set cs. i < length m \<and> (\<exists>u. tree_at m (Some i) u \<and> nodes u \<le> nodes t))"
proof (induction t arbitrary: p)
  case Null
  then show ?case by simp
next
  case (PNode w b l r)
  from PNode.prems obtain i n where p: "p = Some i" and n: "holds m i n"
    and lr: "tree_at m (left n) l" "tree_at m (right n) r" by auto
  let ?P = "\<lambda>cs u. distinct cs \<and> length cs = height u \<and>
    (\<forall>i \<in> set cs. i < length m \<and> (\<exists>v. tree_at m (Some i) v \<and> nodes v \<le> nodes u))"
  from PNode.IH lr obtain cs js where P: "?P cs l" "?P js r" by blast
  define ks where "ks = (if height l \<le> height r then js else cs)"
  have ks: "distinct ks" "length ks = max (height l) (height r)"
    using P by (simp_all add: ks_def max_def)
  have sub: "j < length m \<and> (\<exists>v. tree_at m (Some j) v \<and> nodes v \<le> nodes l + nodes r)"
    if "j \<in> set ks" for j
  proof -
    from that P obtain v where "j < length m" "tree_at m (Some j) v"
      "nodes v \<le> nodes l \<or> nodes v \<le> nodes r" by (auto simp: ks_def split: if_splits)
    then show ?thesis by (intro conjI exI [of _ v]) auto
  qed
  from PNode.prems p have root: "tree_at m (Some i) (PNode w b l r)" by simp
  have "i \<notin> set ks"
  proof
    assume "i \<in> set ks"
    then obtain v where v: "tree_at m (Some i) v" "nodes v \<le> nodes l + nodes r" using sub by blast
    from tree_at_unique [OF v(1) root] v(2) show False by simp
  qed
  moreover have "j < length m \<and> (\<exists>v. tree_at m (Some j) v \<and> nodes v \<le> nodes (PNode w b l r))"
    if "j \<in> set (i # ks)" for j
  proof (cases "j = i")
    case True
    then show ?thesis using root holds_length [OF n] by blast
  next
    case False
    then show ?thesis using sub [of j] that by (metis le_SucI nodes.simps(2) Suc_eq_plus1 set_ConsD)
  qed
  ultimately show ?case using ks by (intro exI [of _ "i # ks"]) simp
qed

lemma tree_at_height:
  assumes "tree_at m p t"
  shows "height t \<le> length m"
proof -
  from tree_at_path [OF assms] obtain cs where cs: "distinct cs" "length cs = height t"
    "set cs \<subseteq> {..<length m}" by blast
  then have "card (set cs) \<le> card {..<length m}" by (intro card_mono) simp_all
  with cs show ?thesis by (simp add: distinct_card)
qed

section \<open>Refinement of the walks\<close>

lemma tree_at_Null_iff: "tree_at m p t \<Longrightarrow> (p = None) = (t = Null)"
  by (cases t) auto

lemma tree_get_size_at:
  "tree_at m p t \<Longrightarrow> t \<noteq> Null \<Longrightarrow> height t \<le> n \<Longrightarrow> tree_get_size n m p = Ok (nodes t)"
proof (induction t arbitrary: p n)
  case (PNode w b l r)
  from PNode.prems(3) obtain k where n: "n = Suc k" and k: "height l \<le> k" "height r \<le> k"
    by (cases n) auto
  from PNode.prems(1) obtain i x where x: "p = Some i" "holds m i x"
    and lr: "tree_at m (left x) l" "tree_at m (right x) r" by auto
  have "(if left x \<noteq> None then tree_get_size k m (left x) else Ok 0) = Ok (nodes l)"
    "(if right x \<noteq> None then tree_get_size k m (right x) else Ok 0) = Ok (nodes r)"
    using PNode.IH(1) [OF lr(1) _ k(1)] PNode.IH(2) [OF lr(2) _ k(2)]
      tree_at_Null_iff [OF lr(1)] tree_at_Null_iff [OF lr(2)] by auto
  then show ?case using n x by simp
qed simp

lemma tree_count_leaves_at:
  "tree_at m p t \<Longrightarrow> t \<noteq> Null \<Longrightarrow> height t \<le> n \<Longrightarrow>
   tree_count_leaves n m p = Ok (of_nat (length (leaves t)))"
proof (induction t arbitrary: p n)
  case (PNode w b l r)
  from PNode.prems(3) obtain k where n: "n = Suc k" and k: "height l \<le> k" "height r \<le> k"
    by (cases n) auto
  from PNode.prems(1) obtain i x where x: "p = Some i" "holds m i x" "byte x = b"
    and lr: "tree_at m (left x) l" "tree_at m (right x) r" by auto
  have "(if left x \<noteq> None then tree_count_leaves k m (left x) else Ok 0) = Ok (of_nat (length (leaves l)))"
    "(if right x \<noteq> None then tree_count_leaves k m (right x) else Ok 0) = Ok (of_nat (length (leaves r)))"
    using PNode.IH(1) [OF lr(1) _ k(1)] PNode.IH(2) [OF lr(2) _ k(2)]
      tree_at_Null_iff [OF lr(1)] tree_at_Null_iff [OF lr(2)] by auto
  then show ?case using n x by simp
qed simp

lemma serialize_tree_node_at:
  "tree_at m p t \<Longrightarrow> height t < n \<Longrightarrow> pos + length (serialize t) \<le> length out \<Longrightarrow>
   serialize_tree_node n m p out pos = Ok (overlay out pos (serialize t), pos + length (serialize t))"
proof (induction t arbitrary: p n out pos)
  case Null
  then show ?case by (cases n) (simp_all add: overlay_one)
next
  case (PNode w b l r)
  from PNode.prems(2) obtain k where n: "n = Suc k" and k: "height l < k" "height r < k"
    by (cases n) auto
  from PNode.prems(1) obtain i x where x: "p = Some i" "holds m i x" "byte x = b"
    and lr: "tree_at m (left x) l" "tree_at m (right x) r" by auto
  show ?case
  proof (cases "b = 0")
    case True
    let ?out1 = "overlay out pos [chr_node]"
    let ?out2 = "overlay out pos (chr_node # serialize l)"
    have room: "pos + length (chr_node # serialize l @ serialize r) \<le> length out"
      using PNode.prems(3) True by simp
    have "serialize_tree_node k m (left x) ?out1 (Suc pos) = Ok (?out2, Suc pos + length (serialize l))"
      using PNode.IH(1) [OF lr(1) k(1), of "Suc pos" ?out1] room
        overlay_overlay [of pos "[chr_node]" out "serialize l"] by simp
    moreover have "serialize_tree_node k m (right x) ?out2 (Suc pos + length (serialize l))
        = Ok (overlay out pos (chr_node # serialize l @ serialize r),
              Suc pos + length (serialize l) + length (serialize r))"
      using PNode.IH(2) [OF lr(2) k(2), of "Suc pos + length (serialize l)" ?out2] room
        overlay_overlay [of pos "chr_node # serialize l" out "serialize r"] by simp
    ultimately show ?thesis
      using n x True room by (simp add: overlay_one)
  next
    case False
    then show ?thesis using n x PNode.prems(3) by (simp add: overlay_one)
  qed
qed

lemma serialize_tree_at:
  "tree_at m p t \<Longrightarrow> pos + length (serialize t) \<le> length out \<Longrightarrow>
   serialize_tree m p out pos = Ok (overlay out pos (serialize t))"
  using serialize_tree_node_at [of m p t "tree_rounds m" pos out] tree_at_height [of m p t]
  by (simp add: serialize_tree_def tree_rounds_def)

section \<open>Parsing a serialised tree\<close>

text \<open>
  A tree survives serialisation when every symbol sits in a node without children and is neither
  of the two marker characters. The weights are not written out: the parser gives every node
  weight 0.
\<close>

primrec ser_ok :: "ptree \<Rightarrow> bool" where
  "ser_ok Null = True"
| "ser_ok (PNode w b l r) =
     (if b = 0 then ser_ok l \<and> ser_ok r
      else b \<noteq> chr_null \<and> b \<noteq> chr_node \<and> l = Null \<and> r = Null)"

primrec unweigh :: "ptree \<Rightarrow> ptree" where
  "unweigh Null = Null"
| "unweigh (PNode w b l r) = PNode 0 b (unweigh l) (unweigh r)"

lemma unweigh_same [simp]:
  "nodes (unweigh t) = nodes t" "height (unweigh t) = height t" "leaves (unweigh t) = leaves t"
  "serialize (unweigh t) = serialize t" "unweigh t = Null \<longleftrightarrow> t = Null"
  by (induction t) auto

text \<open>
  \<open>built h h' p t\<close>: from \<open>h\<close> to \<open>h'\<close> the tree \<open>t\<close> was built at \<open>p\<close> in the slots handed out in
  between, and in no others.
\<close>

definition built :: "huffman_t \<Rightarrow> huffman_t \<Rightarrow> ptr \<Rightarrow> ptree \<Rightarrow> bool" where
  "built h h' p t \<longleftrightarrow>
     tree_ptr h' = tree_ptr h + nodes t \<and> length (tree_memory h') = length (tree_memory h) \<and>
     (\<forall>j < tree_ptr h. tree_memory h' ! j = tree_memory h ! j) \<and>
     fresh_from (tree_memory h') (tree_ptr h') \<and>
     (\<forall>m. length m = length (tree_memory h') \<longrightarrow>
        (\<forall>j. tree_ptr h \<le> j \<longrightarrow> j < tree_ptr h' \<longrightarrow> m ! j = tree_memory h' ! j) \<longrightarrow> tree_at m p t)"

lemma built_tree_at: "built h h' p t \<Longrightarrow> tree_at (tree_memory h') p t"
  by (simp add: built_def)

lemma built_Null: "fresh_from (tree_memory h) (tree_ptr h) \<Longrightarrow> built h h None Null"
  by (simp add: built_def)

lemma built_leaf:
  assumes "fresh_from (tree_memory h) (tree_ptr h)" and "tree_ptr h < length (tree_memory h)"
  shows "built h (tree_grown h ((new_node 0)\<lparr>byte := b\<rparr>)) (Some (tree_ptr h)) (leaf 0 b)"
  using assms fresh_fill [OF assms] by (auto simp: built_def new_node_def holds_def)

definition set_slot :: "nat \<Rightarrow> node_t \<Rightarrow> huffman_t \<Rightarrow> huffman_t" where
  "set_slot i x h = h\<lparr>tree_memory := (tree_memory h)[i := Some x]\<rparr>"

lemma set_slot_sel [simp]:
  "tree_memory (set_slot i x h) = (tree_memory h)[i := Some x]"
  "tree_ptr (set_slot i x h) = tree_ptr h"
  by (simp_all add: set_slot_def)

lemma set_slot_step:
  assumes "holds (tree_memory h) i x"
  shows "rbind (get_node h (Some i)) (\<lambda>x. rbind (set_node h (Some i) (f x)) k) = k (set_slot i (f x) h)"
  using assms by (simp add: access_defs set_slot_def)

text \<open>An inner node: allocated first, its children built behind it, then linked.\<close>

lemma built_node:
  assumes fresh: "fresh_from (tree_memory h) (tree_ptr h)" "tree_ptr h < length (tree_memory h)"
    and g: "g = tree_grown h \<lparr>left = None, right = None, weight = 0, byte = 0\<rparr>"
    and l: "built g h1 pl l"
    and g1: "g1 = set_slot (tree_ptr h) \<lparr>left = pl, right = None, weight = 0, byte = 0\<rparr> h1"
    and r: "built g1 h2 pr r"
    and g2: "g2 = set_slot (tree_ptr h) \<lparr>left = pl, right = pr, weight = 0, byte = 0\<rparr> h2"
  shows "built h g2 (Some (tree_ptr h)) (PNode 0 0 l r)"
proof -
  let ?i = "tree_ptr h"
  have ptrs: "tree_ptr h1 = Suc (?i + nodes l)" "tree_ptr h2 = Suc (?i + nodes l + nodes r)"
    using l r by (simp_all add: built_def g g1)
  have lens: "length (tree_memory h1) = length (tree_memory h)" "length (tree_memory h2) = length (tree_memory h)"
    using l r by (simp_all add: built_def g g1)
  have below: "tree_memory g2 ! j = tree_memory h ! j" if "j < ?i" for j
    using l r that ptrs by (simp add: built_def g g1 g2)
  have "fresh_from (tree_memory g2) (tree_ptr g2)"
    using r ptrs by (simp add: built_def g1 g2 fresh_from_def nth_list_update)
  moreover have "tree_at m (Some ?i) (PNode 0 0 l r)"
    if m: "length m = length (tree_memory h)"
      "\<And>j. ?i \<le> j \<Longrightarrow> j < tree_ptr h2 \<Longrightarrow> m ! j = tree_memory g2 ! j" for m
  proof -
    have "holds m ?i \<lparr>left = pl, right = pr, weight = 0, byte = 0\<rparr>"
      using m fresh lens ptrs by (simp add: holds_def g2)
    moreover have "tree_at m pl l"
      using l r m lens ptrs by (simp add: built_def g g1 g2)
    moreover have "tree_at m pr r"
      using r m lens ptrs by (simp add: built_def g1 g2)
    ultimately show ?thesis by auto
  qed
  ultimately show ?thesis
    using below lens ptrs by (simp add: built_def g2)
qed

lemma deserialize_tree_node_at:
  assumes "ser_ok t" and "data = pre @ serialize t @ post" and "height t < n"
    and "fresh_from (tree_memory h) (tree_ptr h)"
    and "tree_ptr h + nodes t \<le> length (tree_memory h)"
  shows "\<exists>p h'. deserialize_tree_node n h data (length pre) = Ok (p, length pre + length (serialize t), h') \<and>
           built h h' p (unweigh t)"
  using assms
proof (induction t arbitrary: n h pre post)
  case Null
  then obtain k where "n = Suc k" by (cases n) auto
  with Null show ?case by (auto simp: built_Null)
next
  case (PNode w b l r)
  from PNode.prems(3) obtain k where n: "n = Suc k" and k: "height l < k" "height r < k"
    by (cases n) auto
  have room: "tree_ptr h < length (tree_memory h)" using PNode.prems(5) by simp
  show ?case
  proof (cases "b = 0")
    case False
    then show ?thesis
      using n PNode.prems built_leaf [OF PNode.prems(4) room]
        alloc_then_set [OF room, of 0 "\<lambda>x. x\<lparr>byte := b\<rparr>" "\<lambda>i h. Ok (Some i, Suc (length pre), h)"]
      by (auto simp: nth_append)
  next
    case True
    let ?i = "tree_ptr h" and ?N = "\<lambda>pl pr. \<lparr>left = pl, right = pr, weight = 0, byte = 0\<rparr> :: node_t"
    define g where "g = tree_grown h (?N None None)"
    have g: "fresh_from (tree_memory g) (tree_ptr g)"
      using fresh_fill [OF PNode.prems(4) room] by (simp add: g_def)
    have "\<exists>p h'. deserialize_tree_node k g data (length (pre @ [chr_node]))
        = Ok (p, length (pre @ [chr_node]) + length (serialize l), h') \<and> built g h' p (unweigh l)"
      by (rule PNode.IH(1)) (use PNode.prems True k g in \<open>simp_all add: g_def\<close>)
    then obtain pl h1 where L: "deserialize_tree_node k g data (Suc (length pre))
        = Ok (pl, Suc (length pre) + length (serialize l), h1)" and bl: "built g h1 pl (unweigh l)"
      by auto
    have h1: "holds (tree_memory h1) ?i (?N None None)"
      using bl room by (simp add: built_def g_def holds_def)
    define g1 where "g1 = set_slot ?i (?N pl None) h1"
    have g1: "fresh_from (tree_memory g1) (tree_ptr g1)"
      using bl by (simp add: built_def g1_def g_def fresh_from_def nth_list_update)
    have "\<exists>p h'. deserialize_tree_node k g1 data (length (pre @ chr_node # serialize l))
        = Ok (p, length (pre @ chr_node # serialize l) + length (serialize r), h') \<and>
          built g1 h' p (unweigh r)"
      by (rule PNode.IH(2))
        (use PNode.prems True k g1 bl in \<open>simp_all add: g_def g1_def built_def\<close>)
    then obtain pr h2 where R: "deserialize_tree_node k g1 data (Suc (length pre) + length (serialize l))
        = Ok (pr, length pre + length (serialize (PNode w b l r)), h2)"
      and br: "built g1 h2 pr (unweigh r)" using True by auto
    have h2: "holds (tree_memory h2) ?i (?N pl None)"
      using br bl room by (simp add: built_def g_def g1_def holds_def)
    have "built h (set_slot ?i (?N pl pr) h2) (Some ?i) (PNode 0 0 (unweigh l) (unweigh r))"
      by (rule built_node [OF PNode.prems(4) room g_def bl g1_def br refl])
    moreover have "deserialize_tree_node n h data (length pre)
        = Ok (Some ?i, length pre + length (serialize (PNode w b l r)), set_slot ?i (?N pl pr) h2)"
    proof -
      have "length pre < length data" "data ! length pre = chr_node"
        using PNode.prems(2) True by (simp_all add: nth_append)
      moreover have "tree_grown h ((new_node 0)\<lparr>byte := 0\<rparr>) = g"
        by (simp add: g_def new_node_def)
      ultimately show ?thesis
        using n True L R
        by (simp add: chr_null_def chr_node_def)
          (subst alloc_then_set [OF room], simp add: set_slot_step [OF h1] set_slot_step [OF h2] g1_def)
    qed
    ultimately show ?thesis using True by auto
  qed
qed

section \<open>Parsing any input ends\<close>

text \<open>
  Whatever bytes it is given, the parser stops within the length of its input, by building a tree
  or by running out of input or of slots.
\<close>

lemma set_slot_ends:
  "ends (k (set_slot i (f x) h)) Q \<Longrightarrow> holds (tree_memory h) i x \<Longrightarrow>
   ends (rbind (get_node h (Some i)) (\<lambda>x. rbind (set_node h (Some i) (f x)) k)) Q"
  by (simp only: set_slot_step)

lemma deserialize_tree_node_ends:
  assumes "length data < n + pos" and "fresh_from (tree_memory h) (tree_ptr h)" and "0 < n"
  shows "ends (deserialize_tree_node n h data pos) (\<lambda>(p, pos', h'). pos < pos' \<and> (\<exists>t. built h h' p t))"
  using assms
proof (induction n arbitrary: h pos)
  case (Suc n)
  note fresh = Suc.prems(2)
  consider (eof) "length data \<le> pos"
    | (null) "pos < length data" "data ! pos = chr_null"
    | (full) "pos < length data" "data ! pos \<noteq> chr_null" "length (tree_memory h) \<le> tree_ptr h"
    | (leaf) "pos < length data" "data ! pos \<noteq> chr_null" "data ! pos \<noteq> chr_node" "tree_ptr h < length (tree_memory h)"
    | (node) "pos < length data" "data ! pos = chr_node" "tree_ptr h < length (tree_memory h)"
    by (metis linorder_not_le)
  then show ?case
  proof cases
    case eof
    then show ?thesis by (simp add: aget_def)
  next
    case null
    then show ?thesis using built_Null [OF fresh] by auto
  next
    case full
    then show ?thesis by (simp add: tree_pool.alloc_fault)
  next
    case leaf
    then show ?thesis
      using built_leaf [OF fresh leaf(4)]
        alloc_then_set [OF leaf(4), of 0 "\<lambda>x. x\<lparr>byte := data ! pos\<rparr>" "\<lambda>i h. Ok (Some i, Suc pos, h)"]
      by (auto simp del: ends_rbind)
  next
    case node
    let ?i = "tree_ptr h" and ?N = "\<lambda>pl pr. \<lparr>left = pl, right = pr, weight = 0, byte = 0\<rparr> :: node_t"
    define g where "g = tree_grown h (?N None None)"
    have g: "fresh_from (tree_memory g) (tree_ptr g)" "tree_grown h ((new_node 0)\<lparr>byte := 0\<rparr>) = g"
      using fresh_fill [OF fresh node(3)] by (simp_all add: g_def new_node_def)
    have n: "0 < n" "length data < n + Suc pos" using Suc.prems(1) node(1) by simp_all
    have left: "holds (tree_memory h1) ?i (?N None None) \<and>
        ends (deserialize_tree_node n (set_slot ?i (?N pl None) h1) data pos1)
          (\<lambda>(r, pos2, h2). pos < pos2 \<and> holds (tree_memory h2) ?i (?N pl None) \<and>
             (\<exists>t. built h (set_slot ?i (?N pl r) h2) (Some ?i) t))"
      if l: "built g h1 pl l" and pos1: "Suc pos < pos1" for pl pos1 h1 l
    proof -
      define g1 where "g1 = set_slot ?i (?N pl None) h1"
      have h1: "holds (tree_memory h1) ?i (?N None None)"
        using l node(3) by (simp add: built_def g_def holds_def)
      have g1: "fresh_from (tree_memory g1) (tree_ptr g1)"
        using l by (simp add: built_def g1_def g_def fresh_from_def nth_list_update)
      have "ends (deserialize_tree_node n g1 data pos1) (\<lambda>(p, pos', h'). pos1 < pos' \<and> (\<exists>t. built g1 h' p t))"
        by (rule Suc.IH [OF _ g1 n(1)]) (use n pos1 in simp)
      then have "ends (deserialize_tree_node n g1 data pos1)
          (\<lambda>(r, pos2, h2). pos < pos2 \<and> holds (tree_memory h2) ?i (?N pl None) \<and>
             (\<exists>t. built h (set_slot ?i (?N pl r) h2) (Some ?i) t))"
      proof (rule ends_mono, clarify)
        fix r pos2 h2 t
        assume r: "built g1 h2 r t" and pos2: "pos1 < pos2"
        have "holds (tree_memory h2) ?i (?N pl None)"
          using r l node(3) by (simp add: built_def g_def g1_def holds_def)
        then show "pos < pos2 \<and> holds (tree_memory h2) ?i (?N pl None) \<and>
            (\<exists>t. built h (set_slot ?i (?N pl r) h2) (Some ?i) t)"
          using built_node [OF fresh node(3) g_def l g1_def r refl] pos1 pos2 by auto
      qed
      with h1 show ?thesis by (simp add: g1_def)
    qed
    let ?Q = "\<lambda>(p, pos', h'). pos < pos' \<and> (\<exists>t. built h h' p t)"
    have rest: "ends (rbind (get_node h1 (Some ?i)) (\<lambda>x.
          rbind (set_node h1 (Some ?i) (x\<lparr>left := pl\<rparr>)) (\<lambda>h'.
          rbind (deserialize_tree_node n h' data pos1) (\<lambda>(r, pos2, h').
          rbind (get_node h' (Some ?i)) (\<lambda>x.
          rbind (set_node h' (Some ?i) (x\<lparr>right := r\<rparr>)) (\<lambda>h'. Ok (Some ?i, pos2, h'))))))) ?Q"
      if "built g h1 pl l" "Suc pos < pos1" for pl pos1 h1 l
      using left [OF that]
      by (intro set_slot_ends [where x = "?N None None"])
        (auto elim!: ends_mono simp: set_slot_step simp del: ends_rbind simp add: ends_rbind [of "deserialize_tree_node _ _ _ _"])
    have "ends (deserialize_tree_node n g data (Suc pos))
        (\<lambda>(p, pos', h'). Suc pos < pos' \<and> (\<exists>t. built g h' p t))"
      by (rule Suc.IH [OF n(2) g(1) n(1)])
    then have "ends (rbind (deserialize_tree_node n g data (Suc pos)) (\<lambda>(l, pos1, h1).
        rbind (get_node h1 (Some ?i)) (\<lambda>x.
          rbind (set_node h1 (Some ?i) (x\<lparr>left := l\<rparr>)) (\<lambda>h'.
          rbind (deserialize_tree_node n h' data pos1) (\<lambda>(r, pos2, h').
          rbind (get_node h' (Some ?i)) (\<lambda>x.
          rbind (set_node h' (Some ?i) (x\<lparr>right := r\<rparr>)) (\<lambda>h'. Ok (Some ?i, pos2, h')))))))) ?Q"
      unfolding ends_rbind [of "deserialize_tree_node n g data (Suc pos)"]
      by (rule ends_mono) (auto intro: rest simp del: ends_rbind)
    then show ?thesis
      unfolding deserialize_tree_node.simps
      using node(1,2) by (simp add: chr_null_def chr_node_def del: ends_rbind)
        (subst alloc_then_set [OF node(3)], simp add: g(2) del: ends_rbind)
  qed
qed simp

end
