(* ===== verification/Huff_Bits.thy ===== *)
theory Huff_Bits
  imports C_Prelude
begin

text \<open>
  The bit stream of \<^verbatim>\<open>huffman.c\<close> and the bit reversal of a code word. Bits fill a byte from its
  least significant end; \<^verbatim>\<open>bitstream_put_bit\<close> ORs into the buffer, so what it writes is what is
  read back only where the buffer held zeros. The locale \<open>bit_stream\<close> is the contract the coder
  relies on: one position that moves up by one with every bit put or read.
\<close>

section \<open>Operations\<close>

record bitstream_t =
  buff :: "u8 list"
  buff_index :: u16
  bitnum :: u16

definition bs_advance :: "bitstream_t \<Rightarrow> bitstream_t" where
  "bs_advance s =
     (let n = bitnum s + 1 in
      if n = 8 then s\<lparr>bitnum := 0, buff_index := buff_index s + 1\<rparr> else s\<lparr>bitnum := n\<rparr>)"

definition bitstream_put_bit :: "bitstream_t \<Rightarrow> u8 \<Rightarrow> bitstream_t result" where
  "bitstream_put_bit s v =
     rbind (aget (buff s) (unat (buff_index s))) (\<lambda>current_byte.
     rbind (aset (buff s) (unat (buff_index s))
              (push_bit (unat (bitnum s)) (v AND 1) OR current_byte)) (\<lambda>b.
     Ok (bs_advance (s\<lparr>buff := b\<rparr>))))"

definition bitstream_put_bits :: "bitstream_t \<Rightarrow> u8 \<Rightarrow> u8 \<Rightarrow> bitstream_t result" where
  "bitstream_put_bits s b num_bits =
     rbind (rfold (\<lambda>i (s, b). rbind (bitstream_put_bit s (b AND 1)) (\<lambda>s. Ok (s, drop_bit 1 b)))
              [0..<unat num_bits] (s, b)) (\<lambda>(s, b). Ok s)"

definition reverse_bits :: "u8 \<Rightarrow> u8 \<Rightarrow> u8 result" where
  "reverse_bits b num_bits =
     (let b = drop_bit 4 (b AND 0xF0) OR push_bit 4 (b AND 0x0F);
          b = drop_bit 2 (b AND 0xCC) OR push_bit 2 (b AND 0x33);
          b = drop_bit 1 (b AND 0xAA) OR push_bit 1 (b AND 0x55)
      in if unat num_bits \<le> 8 then Ok (drop_bit (8 - unat num_bits) b) else Fail Bad_Shift)"

definition bitstream_read_bit :: "bitstream_t \<Rightarrow> (u8 \<times> bitstream_t) result" where
  "bitstream_read_bit s =
     rbind (aget (buff s) (unat (buff_index s))) (\<lambda>c.
     Ok (drop_bit (unat (bitnum s)) c AND 1, bs_advance s))"

section \<open>The contract of a bit stream\<close>

locale bit_stream =
  fixes bits :: "'s \<Rightarrow> bool list"
    and pos :: "'s \<Rightarrow> nat"
    and ok :: "'s \<Rightarrow> bool"
    and put :: "'s \<Rightarrow> bool \<Rightarrow> 's result"
    and get :: "'s \<Rightarrow> (bool \<times> 's) result"
  assumes put_room: "ok s \<Longrightarrow> pos s < length (bits s) \<Longrightarrow>
      \<exists>s'. put s b = Ok s' \<and> ok s' \<and> pos s' = Suc (pos s) \<and>
        bits s' = (bits s)[pos s := bits s ! pos s \<or> b]"
    and put_full: "ok s \<Longrightarrow> length (bits s) \<le> pos s \<Longrightarrow> put s b = Fail Out_Of_Bounds"
    and get_room: "ok s \<Longrightarrow> pos s < length (bits s) \<Longrightarrow>
      \<exists>s'. get s = Ok (bits s ! pos s, s') \<and> ok s' \<and> pos s' = Suc (pos s) \<and> bits s' = bits s"
    and get_end: "ok s \<Longrightarrow> length (bits s) \<le> pos s \<Longrightarrow> get s = Fail Out_Of_Bounds"
begin

text \<open>The part of the stream from the position on is still all zero.\<close>

definition clear :: "'s \<Rightarrow> bool" where
  "clear s \<longleftrightarrow> ok s \<and> pos s \<le> length (bits s) \<and> (\<forall>i. pos s \<le> i \<longrightarrow> i < length (bits s) \<longrightarrow> \<not> bits s ! i)"

text \<open>Reading a run of bits.\<close>

lemma get_run:
  assumes "ok s" and "pos s + k \<le> length (bits s)"
  shows "\<exists>s'. rfold (\<lambda>i (acc, s). rbind (get s) (\<lambda>(v, s). Ok (acc @ [v], s))) [0..<k] (acc, s)
           = Ok (acc @ take k (drop (pos s) (bits s)), s') \<and>
           ok s' \<and> pos s' = pos s + k \<and> bits s' = bits s"
  using assms(2)
proof (induction k)
  case (Suc k)
  then obtain s1 where s1: "rfold (\<lambda>i (acc, s). rbind (get s) (\<lambda>(v, s). Ok (acc @ [v], s))) [0..<k] (acc, s)
      = Ok (acc @ take k (drop (pos s) (bits s)), s1)" "ok s1" "pos s1 = pos s + k" "bits s1 = bits s" by auto
  moreover from get_room [OF s1(2)] Suc.prems s1 obtain s2 where
    "get s1 = Ok (bits s ! (pos s + k), s2)" "ok s2" "pos s2 = Suc (pos s + k)" "bits s2 = bits s" by auto
  moreover have "take (Suc k) (drop (pos s) (bits s)) = take k (drop (pos s) (bits s)) @ [bits s ! (pos s + k)]"
    using Suc.prems by (simp add: take_Suc_conv_app_nth)
  ultimately show ?case by (simp add: rfold_append)
qed (use assms(1) in simp)

text \<open>Putting a run of bits into a clear stream appends them to what was written before.\<close>

lemma put_run:
  assumes "clear s" and "pos s + length bs \<le> length (bits s)"
  shows "\<exists>s'. rfold (\<lambda>b s. put s b) bs s = Ok s' \<and> clear s' \<and> pos s' = pos s + length bs \<and>
           length (bits s') = length (bits s) \<and> take (pos s') (bits s') = take (pos s) (bits s) @ bs"
  using assms
proof (induction bs arbitrary: s)
  case (Cons b bs)
  from Cons.prems have lt: "pos s < length (bits s)" and "ok s" and "\<not> bits s ! pos s"
    by (simp_all add: clear_def)
  with put_room [of s b] obtain s1 where s1: "put s b = Ok s1" "ok s1" "pos s1 = Suc (pos s)"
    "bits s1 = (bits s)[pos s := b]" by auto
  have "clear s1"
    using Cons.prems s1 lt by (simp add: clear_def)
  with Cons.IH [of s1] Cons.prems s1 lt obtain s' where "rfold (\<lambda>b s. put s b) bs s1 = Ok s'" "clear s'"
    "pos s' = pos s1 + length bs" "length (bits s') = length (bits s1)"
    "take (pos s') (bits s') = take (pos s1) (bits s1) @ bs" by auto
  moreover have "take (pos s1) (bits s1) = take (pos s) (bits s) @ [b]"
    using s1 lt by (simp add: take_Suc_conv_app_nth)
  ultimately show ?case using s1 by simp
qed simp

lemma put_run_full:
  assumes "ok s" and "pos s \<le> length (bits s)" and "length (bits s) < pos s + length bs"
  shows "rfold (\<lambda>b s. put s b) bs s = Fail Out_Of_Bounds"
  using assms
proof (induction bs arbitrary: s)
  case (Cons b bs)
  show ?case
  proof (cases "pos s < length (bits s)")
    case True
    with put_room [of s b] Cons.prems obtain s1 where "put s b = Ok s1" "ok s1"
      "pos s1 = Suc (pos s)" "length (bits s1) = length (bits s)" by auto
    with Cons True show ?thesis by simp
  next
    case False
    with Cons.prems show ?thesis by (simp add: put_full)
  qed
qed simp

end

section \<open>Interpretation on the stream of huffman.c\<close>

definition bs_pos :: "bitstream_t \<Rightarrow> nat" where
  "bs_pos s = 8 * unat (buff_index s) + unat (bitnum s)"

definition bs_wf :: "bitstream_t \<Rightarrow> bool" where
  "bs_wf s \<longleftrightarrow> unat (bitnum s) < 8 \<and> length (buff s) < 65536"

abbreviation bs_bits :: "bitstream_t \<Rightarrow> bool list" where
  "bs_bits s \<equiv> buf_bits (buff s)"

definition put_bool :: "bitstream_t \<Rightarrow> bool \<Rightarrow> bitstream_t result" where
  "put_bool s b = bitstream_put_bit s (of_bool b)"

definition get_bool :: "bitstream_t \<Rightarrow> (bool \<times> bitstream_t) result" where
  "get_bool s = rbind (bitstream_read_bit s) (\<lambda>(v, s). Ok (v \<noteq> 0, s))"

lemma buf_bits_update:
  assumes "i < length bs" and "k < 8" and "\<And>j. j < 8 \<Longrightarrow> bit y j = (if j = k then v else bit (bs ! i) j)"
  shows "buf_bits (bs[i := y]) = (buf_bits bs)[8 * i + k := v]"
proof (rule nth_equalityI)
  fix n assume "n < length (buf_bits (bs[i := y]))"
  then have n: "n < 8 * length bs" by simp
  have eq: "8 * i + k = n \<longleftrightarrow> i = n div 8 \<and> k = n mod 8"
    using assms(2) by auto
  have "n div 8 < length bs" using n by (simp add: less_mult_imp_div_less mult.commute)
  then have "buf_bits (bs[i := y]) ! n = (if 8 * i + k = n then v else bit (bs ! (n div 8)) (n mod 8))"
    using n assms eq by (auto simp: nth_buf_bits_div nth_list_update)
  then show "buf_bits (bs[i := y]) ! n = (buf_bits bs)[8 * i + k := v] ! n"
    using n by (simp add: nth_list_update nth_buf_bits_div)
qed simp

lemma bs_advance_spec:
  assumes "bs_wf s" and "bs_pos s < 8 * length (buff s)"
  shows "bs_wf (bs_advance s)" and "bs_pos (bs_advance s) = Suc (bs_pos s)"
    and "buff (bs_advance s) = buff s"
proof -
  have lt: "unat (bitnum s) < 8" and idx: "unat (buff_index s) < length (buff s)"
    and len: "length (buff s) < 65536"
    using assms by (auto simp: bs_wf_def bs_pos_def)
  have "unat (bitnum s + 1) = unat (bitnum s) + 1"
    using lt by (simp add: unat_word_ariths)
  moreover have "unat (buff_index s + 1) = unat (buff_index s) + 1"
    using idx len by (simp add: unat_word_ariths)
  moreover have "bitnum s + 1 = 8 \<longleftrightarrow> unat (bitnum s) = 7"
    using calculation(1) by (simp add: word_unat_eq_iff)
  ultimately show "bs_wf (bs_advance s)" "bs_pos (bs_advance s) = Suc (bs_pos s)"
    "buff (bs_advance s) = buff s"
    using lt len by (auto simp: bs_advance_def Let_def bs_wf_def bs_pos_def)
qed

lemma put_bit_byte:
  fixes c :: u8
  assumes "k < 8" and "j < 8"
  shows "bit (push_bit k (of_bool b AND 1) OR c) j = (if j = k then bit c k \<or> b else bit c j)"
  using assms by (auto simp: bit_simps)

interpretation bs: bit_stream bs_bits bs_pos bs_wf put_bool get_bool
proof
  fix s b
  assume wf: "bs_wf s" and lt: "bs_pos s < length (bs_bits s)"
  let ?i = "unat (buff_index s)" and ?k = "unat (bitnum s)"
  have i: "?i < length (buff s)" and k: "?k < 8"
    using wf lt by (auto simp: bs_wf_def bs_pos_def)
  let ?y = "push_bit ?k (of_bool b AND 1) OR (buff s ! ?i)"
  let ?s = "s\<lparr>buff := (buff s)[?i := ?y]\<rparr>"
  have pos: "bs_wf ?s" "bs_pos ?s = bs_pos s"
    using wf by (simp_all add: bs_wf_def bs_pos_def)
  have put: "put_bool s b = Ok (bs_advance ?s)"
    using i by (simp add: put_bool_def bitstream_put_bit_def)
  have "buf_bits ((buff s)[?i := ?y]) = (bs_bits s)[bs_pos s := bit (buff s ! ?i) ?k \<or> b]"
    unfolding bs_pos_def by (rule buf_bits_update [OF i k]) (rule put_bit_byte [OF k])
  moreover have "bs_bits s ! bs_pos s = bit (buff s ! ?i) ?k"
    using i k by (simp add: bs_pos_def nth_buf_bits)
  ultimately show "\<exists>s'. put_bool s b = Ok s' \<and> bs_wf s' \<and> bs_pos s' = Suc (bs_pos s) \<and>
      bs_bits s' = (bs_bits s)[bs_pos s := bs_bits s ! bs_pos s \<or> b]"
    using put bs_advance_spec [OF pos(1)] pos(2) lt by simp
  have "drop_bit ?k (buff s ! ?i) AND 1 \<noteq> 0 \<longleftrightarrow> bit (buff s ! ?i) ?k"
    by (simp add: and_one_eq mod_2_eq_odd bit_iff_odd_drop_bit)
  then show "\<exists>s'. get_bool s = Ok (bs_bits s ! bs_pos s, s') \<and> bs_wf s' \<and>
      bs_pos s' = Suc (bs_pos s) \<and> bs_bits s' = bs_bits s"
    using i bs_advance_spec [OF wf] lt \<open>bs_bits s ! bs_pos s = bit (buff s ! ?i) ?k\<close>
    by (simp add: get_bool_def bitstream_read_bit_def)
next
  fix s b
  assume "bs_wf s" and "length (bs_bits s) \<le> bs_pos s"
  then have "length (buff s) \<le> unat (buff_index s)"
    by (auto simp: bs_wf_def bs_pos_def)
  then show "put_bool s b = Fail Out_Of_Bounds" and "get_bool s = Fail Out_Of_Bounds"
    by (simp_all add: put_bool_def get_bool_def bitstream_put_bit_def bitstream_read_bit_def aget_def)
qed

text \<open>\<^const>\<open>bitstream_put_bits\<close> puts the lowest bits of the byte, lowest first.\<close>

lemma put_bit_mask: "bitstream_put_bit s (b AND 1) = put_bool s (odd b)"
  by (simp add: put_bool_def and_one_eq mod_2_eq_odd)

lemma put_bits_run:
  "rfold (\<lambda>i (s, b). rbind (bitstream_put_bit s (b AND 1)) (\<lambda>s. Ok (s, drop_bit 1 b))) is (s, b)
   = rbind (rfold (\<lambda>v s. put_bool s v) (map (bit b) [0..<length is]) s) (\<lambda>s. Ok (s, drop_bit (length is) b))"
proof (induction "is" arbitrary: s b)
  case (Cons i "is")
  have "map (bit b) [0..<Suc n] = odd b # map (bit (drop_bit 1 b)) [0..<n]" for n
    by (simp add: upt_conv_Cons bit_drop_bit_eq bit_0 comp_def flip: map_Suc_upt del: upt_Suc)
  then show ?case
    using Cons by (cases "put_bool s (odd b)") (simp_all add: put_bit_mask rbind_assoc del: upt_Suc)
qed simp

lemma bitstream_put_bits_eq:
  "bitstream_put_bits s b n = rfold (\<lambda>v s. put_bool s v) (map (bit b) [0..<unat n]) s"
  unfolding bitstream_put_bits_def put_bits_run by (simp add: rbind_assoc)

section \<open>Reversal of a code word\<close>

lemma reverse_bits_ok: "unat n \<le> 8 \<Longrightarrow> \<exists>r. reverse_bits b n = Ok r"
  by (simp add: reverse_bits_def Let_def)

lemma reverse_bits_bad: "8 < unat n \<Longrightarrow> reverse_bits b n = Fail Bad_Shift"
  by (simp add: reverse_bits_def Let_def)

lemma nat_less_8: "j < (8::nat) \<longleftrightarrow> j = 0 \<or> j = 1 \<or> j = 2 \<or> j = 3 \<or> j = 4 \<or> j = 5 \<or> j = 6 \<or> j = 7"
  by auto

lemmas bit_expand = bit_or_iff bit_and_iff bit_drop_bit_eq bit_push_bit_iff comp_def

text \<open>The three swaps of nibbles, pairs and neighbours reverse a byte.\<close>

lemma swaps_reverse:
  fixes b :: u8
  assumes "j < 8"
  shows "bit (let b = drop_bit 4 (b AND 0xF0) OR push_bit 4 (b AND 0x0F);
                  b = drop_bit 2 (b AND 0xCC) OR push_bit 2 (b AND 0x33)
              in drop_bit 1 (b AND 0xAA) OR push_bit 1 (b AND 0x55)) j = bit b (7 - j)"
  using assms unfolding Let_def bit_expand nat_less_8
  by (elim disjE) (simp_all (no_asm_simp) add: numeral_2_eq_2)

lemma reverse_bits_spec:
  assumes "unat n \<le> 8"
  obtains r where "reverse_bits b n = Ok r" and "\<And>i. bit r i \<longleftrightarrow> i < unat n \<and> bit b (unat n - 1 - i)"
proof -
  define R :: u8 where "R = (let b = drop_bit 4 (b AND 0xF0) OR push_bit 4 (b AND 0x0F);
                  b = drop_bit 2 (b AND 0xCC) OR push_bit 2 (b AND 0x33)
              in drop_bit 1 (b AND 0xAA) OR push_bit 1 (b AND 0x55))"
  have R: "bit R j \<longleftrightarrow> j < 8 \<and> bit b (7 - j)" for j
  proof (cases "j < 8")
    case True
    then show ?thesis unfolding R_def by (simp only: swaps_reverse simp_thms)
  next
    case False
    then show ?thesis using bit_imp_le_length [of R j] by auto
  qed
  have "reverse_bits b n = Ok (drop_bit (8 - unat n) R)"
    unfolding reverse_bits_def R_def Let_def by (simp only: assms if_True)
  moreover have "bit (drop_bit (8 - unat n) R) i \<longleftrightarrow> i < unat n \<and> bit b (unat n - 1 - i)" for i
  proof -
    have "8 - unat n + i < 8 \<longleftrightarrow> i < unat n" "7 - (8 - unat n + i) = unat n - 1 - i"
      using assms by auto
    then show ?thesis by (simp add: bit_drop_bit_eq R)
  qed
  ultimately show thesis by (rule that)
qed

text \<open>
  The code word that \<^verbatim>\<open>build_encoding_table\<close> shifts together along a path from the root, one bit
  per edge, and how its reversal is put: the bits come out in the order of the path.
\<close>

definition code_word :: "bool list \<Rightarrow> u8" where
  "code_word p = foldl (\<lambda>w b. push_bit 1 w OR of_bool b) 0 p"

lemma code_word_Nil [simp]: "code_word [] = 0"
  by (simp add: code_word_def)

lemma code_word_snoc: "code_word (p @ [b]) = push_bit 1 (code_word p) OR of_bool b"
  by (simp add: code_word_def)

lemma bit_code_word: "i < length p \<Longrightarrow> i < 8 \<Longrightarrow> bit (code_word p) i = p ! (length p - 1 - i)"
proof (induction p arbitrary: i rule: rev_induct)
  case (snoc b p)
  show ?case
  proof (cases i)
    case 0
    have "bit (push_bit 1 (code_word p) OR of_bool b) 0 = b"
      unfolding bit_or_iff bit_push_bit_iff by (simp add: bit_0)
    with 0 show ?thesis by (simp add: code_word_snoc)
  next
    case (Suc j)
    then have "bit (code_word (p @ [b])) i = bit (code_word p) j"
      unfolding code_word_snoc bit_or_iff bit_push_bit_iff
      using snoc.prems by (simp add: bit_of_bool_iff)
    moreover have "length p - Suc j < length p" using Suc snoc.prems by simp
    ultimately show ?thesis using Suc snoc by (simp add: nth_append)
  qed
qed simp

lemma reverse_code_word:
  assumes "length p \<le> 8"
  obtains r where "reverse_bits (code_word p) (of_nat (length p)) = Ok r"
    and "map (bit r) [0..<length p] = p"
proof -
  have n: "unat (of_nat (length p) :: u8) = length p"
    using assms by (simp add: unat_of_nat_u8)
  obtain r where r: "reverse_bits (code_word p) (of_nat (length p)) = Ok r"
    and bits: "\<And>i. bit r i \<longleftrightarrow> i < length p \<and> bit (code_word p) (length p - 1 - i)"
    using reverse_bits_spec [of "of_nat (length p)" "code_word p"] n assms by auto
  have "map (bit r) [0..<length p] = p"
    by (rule nth_equalityI) (use assms in \<open>auto simp: bits bit_code_word\<close>)
  with r show thesis by (rule that)
qed

end
