(* ===== verification/Huff_Codec.thy ===== *)
theory Huff_Codec
  imports Huff_Tree Huff_Bits
begin

text \<open>
  The code table and the two coding loops of \<^verbatim>\<open>huffman.c\<close>. \<^verbatim>\<open>build_encoding_table\<close> writes one entry
  per leaf: the symbol, the bits of its path from the root packed into a byte, and their number.
  \<^verbatim>\<open>compress_data\<close> puts the code of every input byte into a bit stream; \<^verbatim>\<open>inflate_data\<close> walks the
  tree along the bits. The locale \<open>prefix_code\<close> is what the decoder needs of a code.
\<close>

section \<open>Operations\<close>

record encoding_info_t =
  info_byte :: u8
  encoded_byte :: u8
  num_bits :: u8

fun build_encoding_table ::
  "nat \<Rightarrow> node_t option list \<Rightarrow> ptr \<Rightarrow> u8 \<Rightarrow> u8 \<Rightarrow> encoding_info_t option list \<Rightarrow> nat \<Rightarrow>
   (encoding_info_t option list \<times> nat) result" where
  "build_encoding_table 0 m p enc nb table pos = Fail Diverge"
| "build_encoding_table (Suc n) m p enc nb table pos =
     rbind (cell_get m p) (\<lambda>x.
     if byte x \<noteq> 0 then
       rbind (aset table pos (Some \<lparr>info_byte = byte x, encoded_byte = enc, num_bits = nb\<rparr>)) (\<lambda>table.
       Ok (table, Suc pos))
     else
       rbind (if left x \<noteq> None
              then build_encoding_table n m (left x) (push_bit 1 enc OR 0) (nb + 1) table pos
              else Ok (table, pos)) (\<lambda>(table, pos).
       if right x \<noteq> None
       then build_encoding_table n m (right x) (push_bit 1 enc OR 1) (nb + 1) table pos
       else Ok (table, pos)))"

fun find_loop :: "encoding_info_t option list \<Rightarrow> u8 \<Rightarrow> nat list \<Rightarrow> (u8 \<times> u8) result" where
  "find_loop table b [] = Ok (0, 0)"
| "find_loop table b (i # is) =
     rbind (cell_get table (Some i)) (\<lambda>x.
     if info_byte x = b then Ok (encoded_byte x, num_bits x) else find_loop table b is)"

definition find_encoded_byte :: "encoding_info_t option list \<Rightarrow> u16 \<Rightarrow> u8 \<Rightarrow> (u8 \<times> u8) result" where
  "find_encoded_byte table info_arr_size b = find_loop table b [0..<unat info_arr_size]"

definition compress_step ::
  "encoding_info_t option list \<Rightarrow> u16 \<Rightarrow> u8 list \<Rightarrow> nat \<Rightarrow> bitstream_t \<times> u16 \<Rightarrow> (bitstream_t \<times> u16) result"
where
  "compress_step table info_arr_size data i st =
     (case st of (s, total_bits) \<Rightarrow>
        rbind (aget data i) (\<lambda>b.
        rbind (find_encoded_byte table info_arr_size b) (\<lambda>(enc, nb).
        rbind (reverse_bits enc nb) (\<lambda>enc.
        rbind (bitstream_put_bits s enc nb) (\<lambda>s.
        Ok (s, total_bits + ucast nb))))))"

definition compress_data ::
  "encoding_info_t option list \<Rightarrow> u16 \<Rightarrow> u8 list \<Rightarrow> u16 \<Rightarrow> u8 list \<Rightarrow> (u8 list \<times> u16) result" where
  "compress_data table info_arr_size data data_size out_data =
     rbind (rfold (compress_step table info_arr_size data) [0..<unat data_size]
              (\<lparr>buff = out_data, buff_index = 0, bitnum = 0\<rparr>, 0)) (\<lambda>(s, total_bits).
     Ok (buff s, total_bits))"

definition chr_question :: u8 where
  "chr_question = 63" \<comment> \<open>the character \<open>?\<close>\<close>

fun next_char_loop ::
  "nat \<Rightarrow> node_t option list \<Rightarrow> ptr \<Rightarrow> bitstream_t \<Rightarrow> u8 \<Rightarrow> (u8 \<times> bitstream_t \<times> u8) result" where
  "next_char_loop 0 m cur s nb = Fail Diverge"
| "next_char_loop (Suc n) m cur s nb =
     rbind (bitstream_read_bit s) (\<lambda>(next_bit, s).
     rbind (cell_get m cur) (\<lambda>x.
     let cur = (if next_bit = 0 then left x else right x) in
     if cur = None then Ok (chr_question, s, nb + 1)
     else
       rbind (cell_get m cur) (\<lambda>y.
       if byte y \<noteq> 0 then Ok (byte y, s, nb + 1)
       else next_char_loop n m cur s (nb + 1))))"

definition deserialize_next_char ::
  "node_t option list \<Rightarrow> ptr \<Rightarrow> bitstream_t \<Rightarrow> u8 \<Rightarrow> (u8 \<times> bitstream_t \<times> u8) result" where
  "deserialize_next_char m tree s nb = next_char_loop (tree_rounds m) m tree s nb"

fun inflate_loop ::
  "nat \<Rightarrow> node_t option list \<Rightarrow> ptr \<Rightarrow> u16 \<Rightarrow> u16 \<Rightarrow> bitstream_t \<Rightarrow> u16 \<Rightarrow> u8 list \<Rightarrow> nat \<Rightarrow>
   (u8 list \<times> nat) result" where
  "inflate_loop 0 m tree data_size total_bits s bits_read out pos = Fail Diverge"
| "inflate_loop (Suc n) m tree data_size total_bits s bits_read out pos =
     (if bits_read < total_bits \<and> buff_index s < data_size then
        rbind (deserialize_next_char m tree s 0) (\<lambda>(next_char, s, nb).
        rbind (aset out pos next_char) (\<lambda>out.
        inflate_loop n m tree data_size total_bits s (bits_read + ucast nb) out (Suc pos)))
      else Ok (out, pos))"

definition inflate_data ::
  "node_t option list \<Rightarrow> ptr \<Rightarrow> u8 list \<Rightarrow> u16 \<Rightarrow> u16 \<Rightarrow> u8 list \<Rightarrow> u8 list result" where
  "inflate_data m tree data data_size total_bits out_data =
     rbind (inflate_loop (Suc (8 * length data)) m tree data_size total_bits
              \<lparr>buff = data, buff_index = 0, bitnum = 0\<rparr> 0 out_data 0) (\<lambda>(out, n). Ok out)"

section \<open>Code words on trees\<close>

primrec codes :: "ptree \<Rightarrow> bool list \<Rightarrow> (u8 \<times> bool list) list" where
  "codes Null p = []"
| "codes (PNode w b l r) p = (if b \<noteq> 0 then [(b, p)] else codes l (p @ [False]) @ codes r (p @ [True]))"

lemma codes_syms: "map fst (codes t p) = leaves t"
  by (induction t arbitrary: p) auto

lemma codes_shift: "codes t (p @ q) = map (map_prod id ((@) p)) (codes t q)"
  by (induction t arbitrary: q) auto

lemma codes_prefix: "codes t p = map (map_prod id ((@) p)) (codes t [])"
  using codes_shift [of t p "[]"] by simp

lemma codes_length: "(b, q) \<in> set (codes t p) \<Longrightarrow> length q < length p + height t"
  by (induction t arbitrary: p) (fastforce split: if_splits)+

lemma codes_unweigh [simp]: "codes (unweigh t) p = codes t p"
  by (induction t arbitrary: p) auto

definition code :: "ptree \<Rightarrow> u8 \<Rightarrow> bool list" where
  "code t b = the (map_of (codes t []) b)"

text \<open>One symbol decoded from the head of a bit list, as \<^const>\<open>next_char_loop\<close> does it.\<close>

fun walk :: "ptree \<Rightarrow> bool list \<Rightarrow> (u8 \<times> bool list) option" where
  "walk Null bits = None"
| "walk (PNode w b l r) [] = None"
| "walk (PNode w b l r) (x # bits) =
     (case (if x then r else l) of
        Null \<Rightarrow> Some (chr_question, bits)
      | PNode w' b' l' r' \<Rightarrow>
          if b' \<noteq> 0 then Some (b', bits) else if x then walk r bits else walk l bits)"

lemma walk_code:
  "root_sym t = 0 \<Longrightarrow> (b, q) \<in> set (codes t []) \<Longrightarrow> walk t (q @ bits) = Some (b, bits)"
proof (induction t arbitrary: q)
  case (PNode w s l r)
  from PNode.prems consider
      (L) q' where "q = False # q'" "(b, q') \<in> set (codes l [])"
    | (R) q' where "q = True # q'" "(b, q') \<in> set (codes r [])"
    using codes_prefix [of l "[False]"] codes_prefix [of r "[True]"] by auto
  then show ?case
  proof cases
    case L
    then show ?thesis using PNode.IH(1) [of q'] by (cases l) (auto split: if_splits)
  next
    case R
    then show ?thesis using PNode.IH(2) [of q'] by (cases r) (auto split: if_splits)
  qed
qed simp

section \<open>The contract of a prefix code\<close>

locale prefix_code =
  fixes good :: "'c \<Rightarrow> bool"
    and syms :: "'c \<Rightarrow> 'a set"
    and enc :: "'c \<Rightarrow> 'a \<Rightarrow> bool list"
    and dec :: "'c \<Rightarrow> bool list \<Rightarrow> ('a \<times> bool list) option"
  assumes dec_enc: "good c \<Longrightarrow> a \<in> syms c \<Longrightarrow> dec c (enc c a @ bits) = Some (a, bits)"
    and dec_nil: "dec c [] = None"
begin

lemma enc_nonempty: "good c \<Longrightarrow> a \<in> syms c \<Longrightarrow> enc c a \<noteq> []"
  using dec_enc [of c a "[]"] dec_nil by force

lemma enc_prefix_free:
  assumes "good c" and "a \<in> syms c" and "b \<in> syms c" and "enc c b = enc c a @ rest"
  shows "a = b \<and> rest = []"
  using dec_enc [OF assms(1,2), of "rest"] dec_enc [OF assms(1,3), of "[]"] assms(4) by simp

text \<open>A concatenation of code words has one reading.\<close>

lemma unique_decoding:
  assumes "good c" and "set xs \<subseteq> syms c" and "set ys \<subseteq> syms c"
    and "concat (map (enc c) xs) = concat (map (enc c) ys)"
  shows "xs = ys"
  using assms(2-4)
proof (induction xs arbitrary: ys)
  case Nil
  then show ?case using enc_nonempty [OF assms(1)] by (cases ys) auto
next
  case (Cons a xs)
  show ?case
  proof (cases ys)
    case Nil
    then show ?thesis using Cons.prems enc_nonempty [OF assms(1), of a] by simp
  next
    case (Cons b ys')
    note ys = Cons
    have "dec c (enc c a @ concat (map (enc c) xs)) = dec c (enc c b @ concat (map (enc c) ys'))"
      using Cons.prems(3) ys by simp
    then have "a = b" and "concat (map (enc c) xs) = concat (map (enc c) ys')"
      using dec_enc [OF assms(1)] Cons.prems(1,2) ys by simp_all
    then show ?thesis using Cons.IH [of ys'] Cons.prems(1,2) ys by simp
  qed
qed

end

definition code_tree :: "ptree \<Rightarrow> bool" where
  "code_tree t \<longleftrightarrow> t \<noteq> Null \<and> root_sym t = 0"

lemma code_in_codes: "b \<in> set (leaves t) \<Longrightarrow> (b, code t b) \<in> set (codes t [])"
  unfolding code_def codes_syms [of t "[]", symmetric]
  by (auto simp: weak_map_of_SomeI map_of_SomeD dest!: weak_map_of_SomeI)

interpretation tree_code: prefix_code code_tree "\<lambda>t. set (leaves t)" code walk
proof
  show "walk t (code t b @ bits) = Some (b, bits)" if "code_tree t" "b \<in> set (leaves t)" for t b bits
    using that walk_code code_in_codes by (simp add: code_tree_def)
  show "walk t [] = None" for t
    by (cases t) auto
qed

section \<open>Refinement of the table\<close>

definition entry :: "u8 \<times> bool list \<Rightarrow> encoding_info_t option" where
  "entry e =
     Some \<lparr>info_byte = fst e, encoded_byte = code_word (snd e), num_bits = of_nat (length (snd e))\<rparr>"

lemma build_encoding_table_at:
  "tree_at m p t \<Longrightarrow> t \<noteq> Null \<Longrightarrow> height t \<le> n \<Longrightarrow> pos + length (codes t q) \<le> length table \<Longrightarrow>
   build_encoding_table n m p (code_word q) (of_nat (length q)) table pos
   = Ok (overlay table pos (map entry (codes t q)), pos + length (codes t q))"
proof (induction t arbitrary: p n q table pos)
  case (PNode w b l r)
  from PNode.prems(3) obtain k where n: "n = Suc k" and k: "height l \<le> k" "height r \<le> k"
    by (cases n) auto
  from PNode.prems(1) obtain i x where x: "p = Some i" "holds m i x" "byte x = b"
    and lr: "tree_at m (left x) l" "tree_at m (right x) r" by auto
  show ?case
  proof (cases "b = 0")
    case False
    then show ?thesis using n x PNode.prems(4) by (simp add: overlay_one entry_def)
  next
    case True
    let ?L = "codes l (q @ [False])" and ?R = "codes r (q @ [True])"
    let ?T = "overlay table pos (map entry ?L)"
    have room: "pos + length ?L + length ?R \<le> length table"
      using PNode.prems(4) True by simp
    have words: "push_bit 1 (code_word q) OR 0 = code_word (q @ [False])"
      "push_bit 1 (code_word q) OR 1 = code_word (q @ [True])"
      "of_nat (length q) + 1 = (of_nat (length (q @ [v])) :: u8)" for v
      by (simp_all add: code_word_snoc)
    have left: "(if left x \<noteq> None
        then build_encoding_table k m (left x) (push_bit 1 (code_word q) OR 0) (of_nat (length q) + 1) table pos
        else Ok (table, pos)) = Ok (?T, pos + length ?L)"
      using PNode.IH(1) [OF lr(1) _ k(1), of pos "q @ [False]" table] room
        tree_at_Null_iff [OF lr(1)] unfolding words(1) words(3) [of False]
      by (auto simp: overlay_def)
    have right: "(if right x \<noteq> None
        then build_encoding_table k m (right x) (push_bit 1 (code_word q) OR 1) (of_nat (length q) + 1)
          ?T (pos + length ?L)
        else Ok (?T, pos + length ?L))
        = Ok (overlay table pos (map entry (?L @ ?R)), pos + length ?L + length ?R)"
      using PNode.IH(2) [OF lr(2) _ k(2), of "pos + length ?L" "q @ [True]" ?T] room
        tree_at_Null_iff [OF lr(2)] overlay_overlay [of pos "map entry ?L" table "map entry ?R"]
      unfolding words(2) words(3) [of True] by auto
    show ?thesis
      unfolding n build_encoding_table.simps
      using x True left right by simp
  qed
qed simp

lemma find_loop_at:
  "(\<And>i. i \<in> set is \<Longrightarrow> i < length es \<and> table ! i = entry (es ! i) \<and> i < length table) \<Longrightarrow>
   find_loop table b is =
     Ok (case map_of (map ((!) es) is) b of None \<Rightarrow> (0, 0) | Some q \<Rightarrow> (code_word q, of_nat (length q)))"
proof (induction "is")
  case (Cons i "is")
  then show ?case by (cases "es ! i") (simp add: entry_def cell_get_def)
qed simp

lemma find_encoded_byte_at:
  assumes "table = map entry es" and "unat n = length es" and "map_of es b = Some q"
  shows "find_encoded_byte table n b = Ok (code_word q, of_nat (length q))"
  using find_loop_at [of "[0..<length es]" es table b] assms by (simp add: find_encoded_byte_def map_nth)

section \<open>Refinement of the compression loop\<close>

definition encode :: "(u8 \<times> bool list) list \<Rightarrow> u8 list \<Rightarrow> bool list" where
  "encode es data = concat (map (\<lambda>b. the (map_of es b)) data)"

lemma encode_Nil [simp]: "encode es [] = []"
  by (simp add: encode_def)

lemma encode_Cons [simp]: "encode es (b # data) = the (map_of es b) @ encode es data"
  by (simp add: encode_def)

lemma encode_append: "encode es (xs @ ys) = encode es xs @ encode es ys"
  by (simp add: encode_def)

lemma ucast_of_nat_u8: "n < 256 \<Longrightarrow> (ucast (of_nat n :: u8) :: u16) = of_nat n"
  by (metis of_nat_unat unat_of_nat_u8)

lemma compress_step_at:
  assumes s: "bs.clear s" and i: "i < length data" and q: "map_of es (data ! i) = Some q" "length q \<le> 8"
    and es: "unat n = length es" and room: "bs_pos s + length q \<le> length (bs_bits s)"
  shows "\<exists>s'. compress_step (map entry es) n data i (s, of_nat k) = Ok (s', of_nat (k + length q)) \<and>
           bs.clear s' \<and> bs_pos s' = bs_pos s + length q \<and> length (buff s') = length (buff s) \<and>
           take (bs_pos s') (bs_bits s') = take (bs_pos s) (bs_bits s) @ q"
proof -
  obtain r where r: "reverse_bits (code_word q) (of_nat (length q)) = Ok r"
    and bits: "map (bit r) [0..<length q] = q" using reverse_code_word [OF q(2)] by blast
  have nq: "unat (of_nat (length q) :: u8) = length q" "(ucast (of_nat (length q) :: u8) :: u16) = of_nat (length q)"
    using q(2) by (simp_all add: unat_of_nat_u8 ucast_of_nat_u8)
  from bs.put_run [OF s room] obtain s' where s': "rfold (\<lambda>v s. put_bool s v) q s = Ok s'" "bs.clear s'"
    "bs_pos s' = bs_pos s + length q" "length (bs_bits s') = length (bs_bits s)"
    "take (bs_pos s') (bs_bits s') = take (bs_pos s) (bs_bits s) @ q" by blast
  have "bitstream_put_bits s r (of_nat (length q)) = Ok s'"
    using s'(1) bits by (simp add: bitstream_put_bits_eq nq)
  then show ?thesis
    using s' i r nq find_encoded_byte_at [OF refl es q(1)] by (simp add: compress_step_def)
qed

lemma compress_data_prefix:
  assumes k: "k \<le> length data" and es: "unat n = length es"
    and codes: "\<And>b. b \<in> set (take k data) \<Longrightarrow> \<exists>q. map_of es b = Some q \<and> length q \<le> 8"
    and out: "length out < 65536" "\<And>i. i < 8 * length out \<Longrightarrow> \<not> buf_bits out ! i"
    and room: "length (encode es (take k data)) \<le> 8 * length out"
  shows "\<exists>s. rfold (compress_step (map entry es) n data) [0..<k] (\<lparr>buff = out, buff_index = 0, bitnum = 0\<rparr>, 0)
           = Ok (s, of_nat (length (encode es (take k data)))) \<and> length (buff s) = length out \<and>
           take (length (encode es (take k data))) (bs_bits s) = encode es (take k data)"
proof -
  let ?E = "\<lambda>i. encode es (take i data)"
  define I where "I = (\<lambda>i (s, t :: u16). bs.clear s \<and> bs_pos s = length (?E i) \<and> length (buff s) = length out \<and>
      take (bs_pos s) (bs_bits s) = ?E i \<and> t = of_nat (length (?E i)))"
  let ?s0 = "\<lparr>buff = out, buff_index = 0, bitnum = 0\<rparr>"
  have "I 0 (?s0, 0)"
    using out by (simp add: I_def bs.clear_def bs_wf_def bs_pos_def)
  moreover have "\<exists>st'. compress_step (map entry es) n data i st = Ok st' \<and> I (Suc i) st'"
    if ik: "i < k" and I: "I i st" for i st
  proof -
    have i: "i < length data" using ik k by simp
    obtain s t where st: "st = (s, t)" by (cases st)
    have "data ! i \<in> set (take k data)" using ik i by (auto simp: in_set_conv_nth)
    from codes [OF this] obtain q where q: "map_of es (data ! i) = Some q" "length q \<le> 8"
      by blast
    have E: "?E (Suc i) = ?E i @ q" using i q by (simp add: take_Suc_conv_app_nth encode_append)
    have "take k data = take (Suc i) data @ drop (Suc i) (take k data)"
      using ik append_take_drop_id [of "Suc i" "take k data"] by (simp add: min_def)
    then have "?E k = ?E (Suc i) @ encode es (drop (Suc i) (take k data))"
      by (metis encode_append)
    then have "length (?E i) + length q \<le> 8 * length out" using room E by simp
    then have "bs_pos s + length q \<le> length (bs_bits s)" using I st by (simp add: I_def)
    from compress_step_at [OF _ i q es this, of "length (?E i)"] show ?thesis
      using I st E by (auto simp: I_def)
  qed
  ultimately obtain st where st: "rfold (compress_step (map entry es) n data) [0..<k] (?s0, 0) = Ok st"
    and I: "I k st" using rfold_upt_invariant [of I] by blast
  then show ?thesis by (cases st) (auto simp: I_def)
qed

lemma compress_data_at:
  assumes len: "unat data_size = length data" and es: "unat n = length es"
    and codes: "\<And>b. b \<in> set data \<Longrightarrow> \<exists>q. map_of es b = Some q \<and> length q \<le> 8"
    and out: "length out < 65536" "\<And>i. i < 8 * length out \<Longrightarrow> \<not> buf_bits out ! i"
    and room: "length (encode es data) \<le> 8 * length out"
  shows "\<exists>buf. compress_data (map entry es) n data data_size out = Ok (buf, of_nat (length (encode es data))) \<and>
           length buf = length out \<and> take (length (encode es data)) (buf_bits buf) = encode es data"
  using compress_data_prefix [OF order.refl es, of data out] codes out room len
  by (auto simp: compress_data_def)

text \<open>A code of more than eight bits makes \<^verbatim>\<open>reverse_bits\<close> shift by a negative amount.\<close>

lemma compress_data_bad:
  assumes len: "unat data_size = length data" and es: "unat n = length es"
    and codes: "\<And>b. b \<in> set data \<Longrightarrow> \<exists>q. map_of es b = Some q \<and> length q < 256"
    and long: "b \<in> set data" "map_of es b = Some q" "8 < length q"
    and out: "length out < 65536" "\<And>i. i < 8 * length out \<Longrightarrow> \<not> buf_bits out ! i"
    and room: "length (encode es data) \<le> 8 * length out"
  shows "compress_data (map entry es) n data data_size out = Fail Bad_Shift"
proof -
  let ?L = "\<lambda>b. 8 < length (the (map_of es b))"
  from long have "\<exists>b \<in> set data. ?L b" by force
  from split_list_first_prop [OF this]
  obtain ys x zs where split: "data = ys @ x # zs" "?L x" "\<forall>y \<in> set ys. \<not> ?L y" by auto
  let ?i = "length ys"
  have pre: "take ?i data = ys" "data ! ?i = x" "?i < length data" using split by simp_all
  have "\<exists>q. map_of es b = Some q \<and> length q \<le> 8" if "b \<in> set (take ?i data)" for b
    using codes [of b] that split by fastforce
  moreover have "length (encode es (take ?i data)) \<le> 8 * length out"
    using room split by (simp add: encode_append)
  ultimately obtain st where st: "rfold (compress_step (map entry es) n data) [0..<?i]
      (\<lparr>buff = out, buff_index = 0, bitnum = 0\<rparr>, 0) = Ok st"
    using compress_data_prefix [of ?i data, OF _ es _ out] pre(3) by (metis less_imp_le)
  obtain r where r: "map_of es x = Some r" "8 < length r" "length r < 256"
    using codes [of x] split by force
  have "compress_step (map entry es) n data ?i st = Fail Bad_Shift"
    using find_encoded_byte_at [OF refl es r(1)] r pre
    by (cases st) (simp add: compress_step_def reverse_bits_bad unat_of_nat_u8)
  moreover have "[0..<length data] = [0..<?i] @ ?i # [Suc ?i..<length data]"
    using pre(3) upt_add_eq_append [of 0 ?i "length data - ?i"] upt_conv_Cons [of ?i] by simp
  ultimately show ?thesis
    using st len by (simp add: compress_data_def rfold_append)
qed

section \<open>Refinement of the decoding loop\<close>

lemma read_bit_room:
  assumes "bs_wf s" and "bs_pos s < length (bs_bits s)"
  obtains v s' where "bitstream_read_bit s = Ok (v, s')" and "v = 0 \<longleftrightarrow> \<not> bs_bits s ! bs_pos s"
    and "bs_wf s'" and "bs_pos s' = Suc (bs_pos s)" and "buff s' = buff s"
proof -
  from bs.get_room [OF assms] obtain s' where "get_bool s = Ok (bs_bits s ! bs_pos s, s')" "bs_wf s'"
    "bs_pos s' = Suc (bs_pos s)" by blast
  moreover from this(1) obtain v where "bitstream_read_bit s = Ok (v, s')" "v = 0 \<longleftrightarrow> \<not> bs_bits s ! bs_pos s"
    by (auto simp: get_bool_def res_simps)
  moreover from this(1) have "buff s' = buff s"
    by (auto simp: bitstream_read_bit_def res_simps bs_advance_def Let_def)
  ultimately show thesis using that by blast
qed

text \<open>
  \<^const>\<open>next_char_loop\<close> decodes what \<^const>\<open>walk\<close> decodes from the unread bits, and counts the bits
  it took.
\<close>

lemma next_char_loop_at:
  assumes "tree_at m p t" and "height t \<le> n" and "bs_wf s"
    and "walk t (drop (bs_pos s) (bs_bits s)) = Some (b, rest)"
  shows "\<exists>s' k. next_char_loop n m p s nb = Ok (b, s', nb + of_nat k) \<and> bs_wf s' \<and> buff s' = buff s \<and>
           bs_pos s' = bs_pos s + k \<and> drop (bs_pos s') (bs_bits s') = rest \<and>
           bs_pos s' \<le> length (bs_bits s') \<and> k \<le> height t"
  using assms
proof (induction t arbitrary: p n s nb)
  case (PNode w c l r)
  from PNode.prems(2) obtain k where n: "n = Suc k" and k: "height l \<le> k" "height r \<le> k" by (cases n) auto
  from PNode.prems(1) obtain i x where x: "p = Some i" "holds m i x"
    and lr: "tree_at m (left x) l" "tree_at m (right x) r" by auto
  from PNode.prems(4) have "bs_pos s < length (bs_bits s)"
    by (cases "bs_pos s < length (bs_bits s)") auto
  from read_bit_room [OF PNode.prems(3) this] obtain v s1 where read: "bitstream_read_bit s = Ok (v, s1)"
    "v = 0 \<longleftrightarrow> \<not> bs_bits s ! bs_pos s" and s1: "bs_wf s1" "bs_pos s1 = Suc (bs_pos s)" "buff s1 = buff s"
    by blast
  have le: "bs_pos s1 \<le> length (bs_bits s1)"
    using \<open>bs_pos s < length (bs_bits s)\<close> s1 by simp
  let ?v = "bs_bits s ! bs_pos s" and ?bits = "drop (bs_pos s1) (bs_bits s1)"
  define u where "u = (if ?v then r else l)"
  define pu where "pu = (if ?v then right x else left x)"
  have pu: "tree_at m pu u" "height u \<le> k" "height u < height (PNode w c l r)"
    using lr k by (auto simp: u_def pu_def)
  have drop: "drop (bs_pos s) (bs_bits s) = ?v # ?bits"
    using \<open>bs_pos s < length (bs_bits s)\<close> s1 by (metis Cons_nth_drop_Suc)
  have IH: "walk u (drop (bs_pos s1) (bs_bits s1)) = Some (b, rest) \<Longrightarrow>
      \<exists>s' j. next_char_loop k m pu s1 (nb + 1) = Ok (b, s', nb + 1 + of_nat j) \<and> bs_wf s' \<and>
        buff s' = buff s1 \<and> bs_pos s' = bs_pos s1 + j \<and> drop (bs_pos s') (bs_bits s') = rest \<and>
        bs_pos s' \<le> length (bs_bits s') \<and> j \<le> height u"
    using PNode.IH pu(1,2) s1(1) by (cases ?v) (auto simp: u_def)
  have loop: "next_char_loop n m p s nb =
      (if pu = None then Ok (chr_question, s1, nb + 1)
       else rbind (cell_get m pu) (\<lambda>y. if byte y \<noteq> 0 then Ok (byte y, s1, nb + 1)
            else next_char_loop k m pu s1 (nb + 1)))"
  proof -
    have pick: "(if v = 0 then left x else right x) = pu" using read(2) by (simp add: pu_def)
    show ?thesis
      unfolding n x(1) next_char_loop.simps read(1) rbind.simps prod.case cell_get_holds [OF x(2)] Let_def pick
      by (rule refl)
  qed
  show ?case
  proof (cases u)
    case Null
    then have "pu = None" "b = chr_question" "rest = ?bits"
      using pu(1) PNode.prems(4) drop by (auto simp: u_def split: if_splits)
    then show ?thesis using loop s1 le by (intro exI [of _ s1] exI [of _ 1]) simp
  next
    case (PNode w' c' l' r')
    from pu(1) PNode obtain j y where y: "pu = Some j" "holds m j y" "byte y = c'" by auto
    show ?thesis
    proof (cases "c' = 0")
      case False
      then have "b = c'" "rest = ?bits"
        using PNode.prems(4) drop PNode by (auto simp: u_def split: if_splits)
      then show ?thesis using loop s1 y False le by (intro exI [of _ s1] exI [of _ 1]) simp
    next
      case True
      then have "walk u ?bits = Some (b, rest)"
        using PNode.prems(4) drop PNode by (auto simp: u_def split: if_splits)
      with IH obtain s' j where "next_char_loop k m pu s1 (nb + 1) = Ok (b, s', nb + 1 + of_nat j)" "bs_wf s'"
        "buff s' = buff s1" "bs_pos s' = bs_pos s1 + j" "drop (bs_pos s') (bs_bits s') = rest" "j \<le> height u"
        "bs_pos s' \<le> length (bs_bits s')"
        by blast
      then show ?thesis
        using loop s1 y True pu(3) by (intro exI [of _ s'] exI [of _ "Suc j"]) (simp add: algebra_simps)
    qed
  qed
qed simp

lemma encode_code: "encode (codes t []) ds = concat (map (code t) ds)"
  by (simp add: encode_def code_def [abs_def])

lemma bs_index_bound: "bs_pos s < 8 * unat n \<Longrightarrow> buff_index s < n"
  by (simp add: bs_pos_def word_less_nat_alt)

lemma inflate_loop_at:
  assumes t: "tree_at m p t" "code_tree t" "height t < 256" and tot: "T < 65536" "T \<le> 8 * unat data_size"
    and "bs_wf s" and "drop (bs_pos s) (bs_bits s) = concat (map (code t) ds) @ pad"
    and "bs_pos s \<le> length (bs_bits s)"
    and "set ds \<subseteq> set (leaves t)" and "T = bs_pos s + length (concat (map (code t) ds))"
    and "pos + length ds \<le> length out" and "length ds < n"
  shows "inflate_loop n m p data_size (of_nat T) s (of_nat (bs_pos s)) out pos
         = Ok (overlay out pos ds, pos + length ds)"
  using assms(6-)
proof (induction ds arbitrary: n s out pos)
  case Nil
  from Nil.prems(7) obtain k where "n = Suc k" by (cases n) auto
  then show ?case using Nil.prems(5) by simp
next
  case (Cons b ds)
  from Cons.prems(7) obtain k where n: "n = Suc k" and k: "length ds < k" by (cases n) auto
  have b: "b \<in> set (leaves t)" using Cons.prems(4) by simp
  have "walk t (drop (bs_pos s) (bs_bits s)) = Some (b, concat (map (code t) ds) @ pad)"
    unfolding Cons.prems(2) using tree_code.dec_enc [OF t(2) b] by simp
  from next_char_loop_at [OF t(1) _ Cons.prems(1) this, of "tree_rounds m" 0] tree_at_height [OF t(1)]
  obtain s' j where step: "deserialize_next_char m p s 0 = Ok (b, s', of_nat j)"
    and s': "bs_wf s'" "buff s' = buff s" "bs_pos s' = bs_pos s + j" "bs_pos s' \<le> length (bs_bits s')"
      "drop (bs_pos s') (bs_bits s') = concat (map (code t) ds) @ pad" and j: "j \<le> height t"
    by (auto simp: tree_rounds_def deserialize_next_char_def)
  have "length (drop (bs_pos s) (bs_bits s)) = j + length (drop (bs_pos s') (bs_bits s'))"
    using s'(2-4) by simp
  then have T: "T = bs_pos s' + length (concat (map (code t) ds))"
    unfolding Cons.prems(2) s'(5) using Cons.prems(5) s'(3) by simp
  have "code t b \<noteq> []" by (rule tree_code.enc_nonempty [OF t(2) b])
  then have lt: "bs_pos s < T" using Cons.prems(5) by (cases "code t b") auto
  then have guard: "of_nat (bs_pos s) < (of_nat T :: u16)" "buff_index s < data_size"
    using tot bs_index_bound [of s data_size] by (simp_all add: word_less_nat_alt unat_of_nat_u16)
  have "of_nat (bs_pos s) + ucast (of_nat j :: u8) = (of_nat (bs_pos s') :: u16)"
    using s'(3) j t(3) by (simp add: ucast_of_nat_u8)
  then show ?case
    using n guard step Cons.prems(6) Cons.IH [OF s'(1) s'(5) s'(4) _ T _ k, of "Suc pos" "out[pos := b]"]
      Cons.prems(4) overlay_Cons [of pos out b ds] by simp
qed

lemma codes_nonempty_length:
  assumes "code_tree t" and "set ds \<subseteq> set (leaves t)"
  shows "length ds \<le> length (concat (map (code t) ds))"
  using assms(2)
proof (induction ds)
  case (Cons b ds)
  then have "code t b \<noteq> []" using tree_code.enc_nonempty [OF assms(1)] by simp
  with Cons show ?case by (cases "code t b") auto
qed simp

lemma inflate_data_at:
  assumes t: "tree_at m p t" "code_tree t" "height t < 256"
    and data: "length data < 65536" "take T (buf_bits data) = concat (map (code t) ds)" "T \<le> 8 * length data"
    and T: "T < 65536" "T \<le> 8 * unat data_size" and ds: "set ds \<subseteq> set (leaves t)" "length ds \<le> length out"
  shows "inflate_data m p data data_size (of_nat T) out = Ok (overlay out 0 ds)"
proof -
  let ?s = "\<lparr>buff = data, buff_index = 0, bitnum = 0\<rparr>"
  have T': "T = length (concat (map (code t) ds))"
    using data(2,3) by (metis length_buf_bits length_take min.absorb2)
  have "buf_bits data = concat (map (code t) ds) @ drop T (buf_bits data)"
    using data(2) by (metis append_take_drop_id)
  moreover have "length ds < Suc (8 * length data)"
    using codes_nonempty_length [OF t(2) ds(1)] T' data(3) by simp
  ultimately show ?thesis
    using inflate_loop_at [OF t T, of ?s ds "drop T (buf_bits data)" 0 out "Suc (8 * length data)"] ds T' data(1)
    by (simp add: inflate_data_def bs_pos_def bs_wf_def del: inflate_loop.simps)
qed

end
