(* ===== verification/Huffman.thy ===== *)
theory Huffman
  imports Huff_Codec
begin

text \<open>
  The two entry points of \<^verbatim>\<open>huffman.c\<close>, \<^verbatim>\<open>huffman_compress\<close> and \<^verbatim>\<open>huffman_inflate\<close>, and what they do
  for each other. A compressed block is the number of tree nodes (one byte), the number of code
  bits (two bytes, high byte first), the serialised tree, and the code bits. \<open>huff_tree\<close> is the
  tree the library builds for an input.
\<close>

section \<open>Operations\<close>

definition huffman_memory :: "nat \<Rightarrow> nat \<Rightarrow> huffman_t" where
  "huffman_memory tree_slots queue_slots =
     \<lparr>tree_memory = replicate tree_slots None, tree_ptr = 0, allocated_tree_size = 0,
      queue_memory = replicate queue_slots None, queue_ptr = 0, allocated_queue_size = 0\<rparr>"

definition huffman_compress :: "u8 list \<Rightarrow> u16 \<Rightarrow> u8 list \<Rightarrow> u8 list result" where
  "huffman_compress data data_size out_data =
     rbind (build_queue (huffman_memory TREE_MAX_SIZE QUEUE_MAX_SIZE) data data_size) (\<lambda>(queue_head, h).
     rbind (build_tree h queue_head) (\<lambda>(tree, h).
     let m = tree_memory h in
     rbind (tree_get_size (tree_rounds m) m tree) (\<lambda>tree_sz.
     rbind (aset out_data 0 (of_nat tree_sz)) (\<lambda>out.
     rbind (serialize_tree m tree out 3) (\<lambda>out.
     rbind (tree_count_leaves (tree_rounds m) m tree) (\<lambda>encoding_table_size.
     rbind (build_encoding_table (tree_rounds m) m tree 0 0
              (replicate (unat encoding_table_size) None) 0) (\<lambda>(encoding_table, table_ptr).
     rbind (compress_data encoding_table encoding_table_size data data_size (drop (3 + tree_sz) out))
       (\<lambda>(bits, num_bits).
     rbind (aset (take (3 + tree_sz) out @ bits) 1 (ucast (drop_bit 8 num_bits AND 0xFF))) (\<lambda>out.
     aset out 2 (ucast (num_bits AND 0xFF)))))))))))"

definition huffman_inflate :: "u8 list \<Rightarrow> u16 \<Rightarrow> u8 list \<Rightarrow> u8 list result" where
  "huffman_inflate data data_size out_data =
     rbind (aget data 0) (\<lambda>tree_size.
     rbind (aget data 1) (\<lambda>hi.
     rbind (aget data 2) (\<lambda>lo.
     let num_bits = push_bit 8 (ucast hi) OR ucast lo :: u16 in
     rbind (deserialize_tree (huffman_memory (unat tree_size) 0) (drop 3 data)) (\<lambda>(tree, bytes_read, h).
     let m = tree_memory h in
     rbind (tree_count_leaves (tree_rounds m) m tree) (\<lambda>encoding_table_size.
     rbind (build_encoding_table (tree_rounds m) m tree 0 0
              (replicate (unat encoding_table_size) None) 0) (\<lambda>(encoding_table, table_ptr).
     inflate_data m tree (drop (3 + unat bytes_read) data) data_size num_bits out_data))))))"

section \<open>The tree of an input\<close>

definition huff_tree :: "u8 list \<Rightarrow> ptree" where
  "huff_tree data = huff_merge (forest_of data [])"

text \<open>Every node is a symbol without children or an inner node with two.\<close>

primrec full :: "ptree \<Rightarrow> bool" where
  "full Null = False"
| "full (PNode w b l r) = (if b \<noteq> 0 then l = Null \<and> r = Null else full l \<and> full r)"

lemma full_not_Null: "full t \<Longrightarrow> t \<noteq> Null"
  by auto

lemma full_nodes: "full t \<Longrightarrow> Suc (nodes t) = 2 * length (leaves t)"
  by (induction t) (auto split: if_splits)

lemma full_leaves_pos: "full t \<Longrightarrow> 0 < length (leaves t)"
  by (induction t) (auto split: if_splits)

lemma full_height: "full t \<Longrightarrow> height t \<le> length (leaves t)"
proof (induction t)
  case (PNode w b l r)
  show ?case
  proof (cases "b = 0")
    case True
    with PNode have "height l \<le> length (leaves l)" "height r \<le> length (leaves r)"
      "0 < length (leaves l)" "0 < length (leaves r)" using full_leaves_pos by simp_all
    then have "Suc (max (height l) (height r)) \<le> length (leaves l) + length (leaves r)" by linarith
    with True show ?thesis by simp
  next
    case False
    with PNode.prems show ?thesis by simp
  qed
qed simp

lemma full_serialize: "full t \<Longrightarrow> length (serialize t) = nodes t"
  by (induction t) (auto split: if_splits)

lemma full_ser_ok: "full t \<Longrightarrow> chr_null \<notin> set (leaves t) \<Longrightarrow> chr_node \<notin> set (leaves t) \<Longrightarrow> ser_ok t"
  by (induction t) (auto split: if_splits)

lemma full_merge_node: "full a \<Longrightarrow> full b \<Longrightarrow> full (merge_node a b)"
  by (simp add: merge_node_def)

lemma mset_leaves_ins_by:
  "mset (concat (map leaves (ins_by k x ts))) = mset (leaves x) + mset (concat (map leaves ts))"
  by (induction ts) auto

lemma huff_merge_full:
  "ts \<noteq> [] \<Longrightarrow> \<forall>t \<in> set ts. full t \<Longrightarrow> full (huff_merge ts)"
proof (induction ts rule: huff_merge.induct)
  case (3 a b ts)
  then show ?case by (auto simp: full_merge_node)
qed auto

lemma huff_merge_leaves: "mset (leaves (huff_merge ts)) = mset (concat (map leaves ts))"
  by (induction ts rule: huff_merge.induct) (simp_all add: mset_leaves_ins_by merge_node_def)

lemma huff_merge_root:
  "\<forall>t \<in> set ts. t \<noteq> Null \<Longrightarrow> 2 \<le> length ts \<Longrightarrow> root_sym (huff_merge ts) = 0 \<and> huff_merge ts \<noteq> Null"
proof (induction ts rule: huff_merge.induct)
  case (3 a b ts)
  show ?case
  proof (cases ts)
    case Nil
    then show ?thesis by (simp add: merge_node_def)
  next
    case (Cons c cs)
    have "merge_node a b \<noteq> Null" by (simp add: merge_node_def)
    with 3 Cons show ?thesis by (simp del: ins_by.simps)
  qed
qed simp_all

lemma forest_full:
  assumes "0 \<notin> set data"
  shows "\<forall>t \<in> set (forest_of data []). full t \<and> t = leaf (root_weight t) (root_sym t)"
proof
  fix t assume t: "t \<in> set (forest_of data [])"
  then have leaf: "t = leaf (root_weight t) (root_sym t)"
    using counts_forest_of [of data] by (auto simp: counts_def is_leaf_def)
  have "root_sym t \<in> set data" using t syms_forest_of [of data] by blast
  with assms have "root_sym t \<noteq> 0" by auto
  then show "full t \<and> t = leaf (root_weight t) (root_sym t)"
    using leaf by (metis full.simps(2))
qed

lemma huff_tree_full:
  assumes "data \<noteq> []" and "0 \<notin> set data"
  shows "full (huff_tree data)"
proof -
  have "forest_of data [] \<noteq> []"
    using assms(1) length_forest_of [of data] by auto
  then show ?thesis
    unfolding huff_tree_def using forest_full [OF assms(2)] by (intro huff_merge_full) auto
qed

lemma huff_tree_leaves:
  assumes "0 \<notin> set data"
  shows "set (leaves (huff_tree data)) = set data" and "distinct (leaves (huff_tree data))"
    and "length (leaves (huff_tree data)) = card (set data)"
proof -
  let ?ts = "forest_of data []"
  have "leaves t = [root_sym t]" if "t \<in> set ?ts" for t
    using forest_full [OF assms] that by (metis (no_types) full.simps(1) leaves.simps(2) root_sym.simps(2)
        assms image_eqI syms_forest_of)
  then have syms: "map leaves ?ts = map (\<lambda>t. [root_sym t]) ?ts" by simp
  have m: "mset (leaves (huff_tree data)) = mset (map root_sym ?ts)"
    unfolding huff_tree_def huff_merge_leaves syms by (simp only: concat_map_singleton)
  then have "set (leaves (huff_tree data)) = root_sym ` set ?ts" by (metis mset_eq_setD set_map)
  then show s: "set (leaves (huff_tree data)) = set data" by (simp add: syms_forest_of)
  show d: "distinct (leaves (huff_tree data))"
    using m counts_forest_of [of data] by (metis counts_def mset_eq_imp_distinct_iff)
  show "length (leaves (huff_tree data)) = card (set data)" using s d distinct_card by force
qed

lemma huff_tree_code_tree:
  assumes "0 \<notin> set data" and "2 \<le> card (set data)"
  shows "code_tree (huff_tree data)"
  unfolding code_tree_def huff_tree_def
  using huff_merge_root [of "forest_of data []"] forest_full [OF assms(1)] length_forest_of [of data] assms(2)
  by auto

section \<open>What huffman\_compress produces\<close>

lemma huffman_memory_sel [simp]:
  "tree_memory (huffman_memory a b) = replicate a None" "tree_ptr (huffman_memory a b) = 0"
  "queue_memory (huffman_memory a b) = replicate b None" "queue_ptr (huffman_memory a b) = 0"
  by (simp_all add: huffman_memory_def)

lemmas pool_sizes = TREE_MAX_SIZE_def QUEUE_MAX_SIZE_def ALPHABET_SIZE_def

text \<open>The tree is built for every input of at most 30 distinct bytes.\<close>

lemma compress_tree:
  assumes n: "unat data_size = length data" and ne: "data \<noteq> []" and syms: "card (set data) \<le> 30"
  obtains q h1 i h where "build_queue (huffman_memory TREE_MAX_SIZE QUEUE_MAX_SIZE) data data_size = Ok (q, h1)"
    and "build_tree h1 q = Ok (Some i, h)" and "tree_at (tree_memory h) (Some i) (huff_tree data)"
proof -
  let ?h0 = "huffman_memory TREE_MAX_SIZE QUEUE_MAX_SIZE"
  have "tree_ptr ?h0 + card (set data) \<le> length (tree_memory ?h0)"
    "queue_ptr ?h0 + card (set data) \<le> length (queue_memory ?h0)"
    using syms by (simp_all add: pool_sizes)
  from build_queue_at [OF _ _ n this] obtain q h1 where
    q: "build_queue ?h0 data data_size = Ok (q, h1)" and L: "leaves_at h1 q (forest_of data [])"
    and h1: "same_caps ?h0 h1" "tree_ptr h1 = card (set data)" "queue_ptr h1 = card (set data)" by auto
  have "forest_of data [] \<noteq> []" using ne length_forest_of [of data] by auto
  moreover have "length (forest_of data []) < 2 ^ 16"
    "tree_ptr h1 + length (forest_of data []) \<le> Suc (length (tree_memory h1))"
    "queue_ptr h1 + length (forest_of data []) \<le> Suc (length (queue_memory h1))"
    using syms h1 by (simp_all add: length_forest_of same_caps_def pool_sizes)
  ultimately obtain i h where "build_tree h1 q = Ok (Some i, h)"
    "tree_at (tree_memory h) (Some i) (huff_tree data)"
    using build_tree_at [OF leaves_forest [OF L]] by (auto simp: huff_tree_def)
  with q show thesis by (rule that)
qed

lemma codes_map_of:
  assumes "b \<in> set (leaves t)"
  shows "map_of (codes t []) b = Some (code t b)" and "length (code t b) < height t"
proof -
  have "b \<in> fst ` set (codes t [])"
    using assms by (metis codes_syms set_map)
  then obtain q where q: "map_of (codes t []) b = Some q"
    by (metis map_of_eq_None_iff not_Some_eq)
  then show "map_of (codes t []) b = Some (code t b)" by (simp add: code_def)
  show "length (code t b) < height t"
    using codes_length [OF code_in_codes [OF assms]] by simp
qed

lemma length_concat_codes:
  assumes "set ds \<subseteq> set (leaves t)" and "height t \<le> 9"
  shows "length (concat (map (code t) ds)) \<le> 8 * length ds"
  using assms(1)
proof (induction ds)
  case (Cons b ds)
  then have "length (code t b) < height t" using codes_map_of by simp
  with Cons assms(2) show ?case by simp
qed simp

definition block_ok :: "u8 list \<Rightarrow> ptree \<Rightarrow> u8 list \<Rightarrow> bool" where
  "block_ok data t z \<longleftrightarrow>
     (let bits = concat (map (code t) data); nb = of_nat (length bits) :: u16 in
      3 + nodes t \<le> length z \<and> z ! 0 = of_nat (nodes t) \<and>
      z ! 1 = ucast (drop_bit 8 nb AND 0xFF) \<and> z ! 2 = ucast (nb AND 0xFF) \<and>
      take (nodes t) (drop 3 z) = serialize t \<and>
      take (length bits) (buf_bits (drop (3 + nodes t) z)) = bits)"

lemma buf_bits_zero: "i < 8 * k \<Longrightarrow> \<not> buf_bits (replicate k 0) ! i"
  by (simp add: nth_buf_bits_div less_mult_imp_div_less mult.commute)

lemma overlay_parts:
  assumes "pos + length xs \<le> length out"
  shows "take pos (overlay out pos xs) = take pos out"
    and "drop (pos + length xs) (overlay out pos xs) = drop (pos + length xs) out"
    and "take (length xs) (drop pos (overlay out pos xs)) = xs"
  using assms by (simp_all add: overlay_def)

lemma overlay_all: "length xs = n \<Longrightarrow> overlay (replicate n x) 0 xs = xs"
  by (simp add: overlay_def)

text \<open>The walks over the finished tree: size, serialised form, leaf count and table.\<close>

lemma finished_tree_walks:
  assumes t: "tree_at m p t" "full t" and small: "length (leaves t) < 65536"
    and room: "pos + nodes t \<le> length out"
  shows "tree_get_size (tree_rounds m) m p = Ok (nodes t)"
    and "serialize_tree m p out pos = Ok (overlay out pos (serialize t))"
    and "tree_count_leaves (tree_rounds m) m p = Ok (of_nat (length (leaves t)))"
    and "build_encoding_table (tree_rounds m) m p 0 0
           (replicate (unat (of_nat (length (leaves t)) :: u16)) None) 0
         = Ok (map entry (codes t []), length (leaves t))"
proof -
  have h: "height t \<le> tree_rounds m" and ne: "t \<noteq> Null"
    using tree_at_height [OF t(1)] t(2) by (auto simp: tree_rounds_def)
  show "tree_get_size (tree_rounds m) m p = Ok (nodes t)" by (rule tree_get_size_at [OF t(1) ne h])
  show "serialize_tree m p out pos = Ok (overlay out pos (serialize t))"
    using serialize_tree_at [OF t(1)] room full_serialize [OF t(2)] by simp
  show "tree_count_leaves (tree_rounds m) m p = Ok (of_nat (length (leaves t)))"
    by (rule tree_count_leaves_at [OF t(1) ne h])
  have len: "length (codes t []) = length (leaves t)" by (metis codes_syms length_map)
  show "build_encoding_table (tree_rounds m) m p 0 0
      (replicate (unat (of_nat (length (leaves t)) :: u16)) None) 0 = Ok (map entry (codes t []), length (leaves t))"
    using build_encoding_table_at [OF t(1) ne h, of 0 "[]" "replicate (length (leaves t)) None"]
    by (simp add: len overlay_all unat_of_nat_u16 [OF small])
qed

text \<open>
  Up to the coding loop: the size byte, two bytes left for the bit count, the serialised tree, and
  the loop running on the rest of the buffer.
\<close>

lemma compress_front:
  assumes n: "unat data_size = length data" and ne: "data \<noteq> []" and zero: "0 \<notin> set data"
    and syms: "card (set data) \<le> 30" and room: "3 + nodes (huff_tree data) \<le> cap"
  defines "N \<equiv> 3 + nodes (huff_tree data)"
  obtains out where "length out = cap" and "out ! 0 = of_nat (nodes (huff_tree data))"
    and "take (nodes (huff_tree data)) (drop 3 out) = serialize (huff_tree data)"
    and "drop N out = replicate (cap - N) 0"
    and "huffman_compress data data_size (replicate cap 0) =
      rbind (compress_data (map entry (codes (huff_tree data) [])) (of_nat (card (set data))) data data_size
        (replicate (cap - N) 0)) (\<lambda>(bits, num_bits).
      rbind (aset (take N out @ bits) 1 (ucast (drop_bit 8 num_bits AND 0xFF))) (\<lambda>out.
      aset out 2 (ucast (num_bits AND 0xFF))))"
proof -
  define t where "t = huff_tree data"
  from compress_tree [OF n ne syms] obtain q h1 i h where
    build: "build_queue (huffman_memory TREE_MAX_SIZE QUEUE_MAX_SIZE) data data_size = Ok (q, h1)"
      "build_tree h1 q = Ok (Some i, h)" and at: "tree_at (tree_memory h) (Some i) t" unfolding t_def by blast
  have full: "full t" unfolding t_def by (rule huff_tree_full [OF ne zero])
  have leaves: "length (leaves t) = card (set data)"
    unfolding t_def using huff_tree_leaves [OF zero] by simp
  have N: "3 + nodes t \<le> cap" using room by (simp add: t_def)
  define out1 where "out1 = (replicate cap (0::u8))[0 := of_nat (nodes t)]"
  define out where "out = overlay out1 3 (serialize t)"
  have len: "length (serialize t) = nodes t" "length out1 = cap" "length out = cap"
    using full_serialize [OF full] N by (simp_all add: out1_def out_def)
  have parts: "take 3 out = take 3 out1" "drop (3 + nodes t) out = replicate (cap - (3 + nodes t)) 0"
    "take (nodes t) (drop 3 out) = serialize t"
    using overlay_parts [of 3 "serialize t" out1] len N by (simp_all add: out_def) (simp add: out1_def)
  have "out ! 0 = out1 ! 0" using parts(1) by (metis nth_take zero_less_numeral)
  then have first: "out ! 0 = of_nat (nodes t)" using N by (simp add: out1_def)
  note walks = finished_tree_walks [OF at full, of 3 out1, folded out_def]
  have "huffman_compress data data_size (replicate cap 0) =
      rbind (compress_data (map entry (codes t [])) (of_nat (card (set data))) data data_size
        (replicate (cap - (3 + nodes t)) 0)) (\<lambda>(bits, num_bits).
      rbind (aset (take (3 + nodes t) out @ bits) 1 (ucast (drop_bit 8 num_bits AND 0xFF))) (\<lambda>out.
      aset out 2 (ucast (num_bits AND 0xFF))))"
    using build walks N syms leaves len parts(2)
    by (simp add: huffman_compress_def Let_def out1_def)
  with that [OF len(3)] first parts show thesis unfolding N_def t_def by simp
qed

lemma compress_block:
  assumes n: "unat data_size = length data" and ne: "data \<noteq> []" and zero: "0 \<notin> set data"
    and syms: "card (set data) \<le> 30" and depth: "height (huff_tree data) \<le> 9" and cap: "cap < 65536"
    and room: "8 * (3 + nodes (huff_tree data)) + length (concat (map (code (huff_tree data)) data)) \<le> 8 * cap"
  obtains z where "huffman_compress data data_size (replicate cap 0) = Ok z"
    and "length z = cap" and "block_ok data (huff_tree data) z"
proof -
  define t where "t = huff_tree data"
  define bits where "bits = concat (map (code t) data)"
  let ?N = "3 + nodes t" and ?nb = "of_nat (length bits) :: u16"
  have N: "?N \<le> cap" and fits: "length bits \<le> 8 * (cap - ?N)" using room by (simp_all add: bits_def t_def)
  from compress_front [OF n ne zero syms N [unfolded t_def]]
  obtain out where out: "length out = cap" "out ! 0 = of_nat (nodes t)" "take (nodes t) (drop 3 out) = serialize t"
    and z: "huffman_compress data data_size (replicate cap 0) =
      rbind (compress_data (map entry (codes t [])) (of_nat (card (set data))) data data_size
        (replicate (cap - ?N) 0)) (\<lambda>(bits, num_bits).
      rbind (aset (take ?N out @ bits) 1 (ucast (drop_bit 8 num_bits AND 0xFF))) (\<lambda>out.
      aset out 2 (ucast (num_bits AND 0xFF))))" unfolding t_def by blast
  have codes: "map_of (codes t []) b = Some (code t b) \<and> length (code t b) \<le> 8" if "b \<in> set data" for b
    using codes_map_of [of b t] that huff_tree_leaves(1) [OF zero] depth by (simp add: t_def)
  have enc: "encode (codes t []) data = bits" by (simp add: encode_code bits_def)
  have lc: "length (codes t []) = card (set data)"
    using huff_tree_leaves(3) [OF zero] unfolding t_def by (metis codes_syms length_map)
  obtain buf where buf: "compress_data (map entry (codes t [])) (of_nat (card (set data))) data data_size
      (replicate (cap - ?N) 0) = Ok (buf, ?nb)" "length buf = cap - ?N" "take (length bits) (buf_bits buf) = bits"
    using compress_data_at [OF n, of "of_nat (card (set data))" "codes t []" "replicate (cap - ?N) 0"]
      syms lc codes cap fits by (force simp: unat_of_nat_u16 enc buf_bits_zero)
  define w where "w = (take ?N out @ buf)[1 := ucast (drop_bit 8 ?nb AND 0xFF), 2 := ucast (?nb AND 0xFF)]"
  have len: "length (take ?N out @ buf) = cap" using buf(2) N out by simp
  have "huffman_compress data data_size (replicate cap 0) = Ok w"
    using z buf(1) len N by (simp add: w_def)
  moreover have "length w = cap" using len by (simp add: w_def)
  moreover have "block_ok data t w"
  proof -
    have "drop ?N w = buf" "drop 3 w = drop 3 (take ?N out) @ buf" "w ! 0 = out ! 0"
      using N out by (auto simp: w_def nth_append)
    moreover have "length (serialize t) = nodes t"
      using full_serialize [OF huff_tree_full [OF ne zero]] by (simp add: t_def)
    ultimately show ?thesis
      using buf(3) len N out by (simp add: block_ok_def Let_def bits_def [symmetric] w_def drop_take)
  qed
  ultimately show thesis using that by (simp add: t_def)
qed

text \<open>A tree of more than nine levels has a code that does not fit into the byte of its table entry.\<close>

lemma height_code:
  "t \<noteq> Null \<Longrightarrow> full t \<Longrightarrow> \<exists>e \<in> set (codes t q). length (snd e) + 1 = length q + height t"
proof (induction t arbitrary: q)
  case (PNode w b l r)
  show ?case
  proof (cases "b = 0")
    case True
    let ?l = "\<exists>e \<in> set (codes l (q @ [False])). length (snd e) + 1 = length (q @ [False]) + height l"
    let ?r = "\<exists>e \<in> set (codes r (q @ [True])). length (snd e) + 1 = length (q @ [True]) + height r"
    have "full l" "full r" using PNode.prems(2) True by simp_all
    then have "?l" "?r" using PNode.IH full_not_Null by blast+
    then show ?thesis using True by (cases "height l \<le> height r") (auto simp: max_def)
  qed (use PNode in auto)
qed simp

lemma long_code:
  assumes "full t" and "distinct (leaves t)"
  obtains b where "b \<in> set (leaves t)" and "Suc (length (code t b)) = height t"
proof -
  from height_code [OF full_not_Null [OF assms(1)] assms(1), of "[]"] obtain b q where
    e: "(b, q) \<in> set (codes t [])" "Suc (length q) = height t" by force
  then have b: "b \<in> set (leaves t)" using codes_syms [of t "[]"] by (metis fst_conv image_eqI set_map)
  moreover have "code t b = q"
    using e(1) assms(2) codes_syms [of t "[]"] codes_map_of(1) [OF b] by (metis map_of_is_SomeI option.inject)
  ultimately show thesis using e(2) that by blast
qed

lemma compress_bad_shift:
  assumes n: "unat data_size = length data" and ne: "data \<noteq> []" and zero: "0 \<notin> set data"
    and syms: "card (set data) \<le> 30" and depth: "9 < height (huff_tree data)" and cap: "cap < 65536"
    and room: "8 * (3 + nodes (huff_tree data)) + length (concat (map (code (huff_tree data)) data)) \<le> 8 * cap"
  shows "huffman_compress data data_size (replicate cap 0) = Fail Bad_Shift"
proof -
  define t where "t = huff_tree data"
  let ?N = "3 + nodes t"
  have N: "?N \<le> cap" and fits: "length (concat (map (code t) data)) \<le> 8 * (cap - ?N)"
    using room by (simp_all add: t_def)
  note leaves = huff_tree_leaves [OF zero, folded t_def]
  have full: "full t" unfolding t_def by (rule huff_tree_full [OF ne zero])
  have codes: "map_of (codes t []) b = Some (code t b) \<and> length (code t b) < 256" if "b \<in> set data" for b
    using codes_map_of [of b t] that leaves full_height [OF full] syms by (simp add: t_def)
  have lc: "length (codes t []) = card (set data)"
    using leaves(3) by (metis codes_syms length_map)
  from long_code [OF full leaves(2)] obtain b where "b \<in> set (leaves t)" "Suc (length (code t b)) = height t" .
  then have b: "b \<in> set data" "8 < length (code t b)" using depth leaves(1) by (simp_all add: t_def)
  have "compress_data (map entry (codes t [])) (of_nat (card (set data))) data data_size
      (replicate (cap - ?N) 0) = Fail Bad_Shift"
    by (rule compress_data_bad [OF n, where q = "code t b" and b = b])
      (use codes b syms lc cap fits in \<open>auto simp: unat_of_nat_u16 encode_code buf_bits_zero\<close>)
  with compress_front [OF n ne zero syms N [unfolded t_def]] show ?thesis unfolding t_def by fastforce
qed

text \<open>More than 30 distinct bytes need more queue cells than the pool has.\<close>

lemma compress_overflow:
  assumes n: "unat data_size = length data" and many: "30 < card (set data)"
  shows "huffman_compress data data_size out = Fail Out_Of_Bounds"
proof -
  let ?h = "huffman_memory TREE_MAX_SIZE QUEUE_MAX_SIZE"
  have fresh: "fresh_from (tree_memory ?h) (tree_ptr ?h)" "fresh_from (queue_memory ?h) (queue_ptr ?h)"
    by (simp_all add: fresh_from_def)
  show ?thesis
  proof (cases "card (set data) \<le> 59")
    case True
    then obtain q h where q: "build_queue ?h data data_size = Ok (q, h)" "leaves_at h q (forest_of data [])"
      "same_caps ?h h" "tree_ptr h = card (set data)" "queue_ptr h = card (set data)"
      using build_queue_at [OF fresh n] by (auto simp: pool_sizes)
    have "build_tree h q = Fail Out_Of_Bounds"
      by (rule build_tree_full [OF leaves_forest [OF q(2)]])
        (use q True many in \<open>auto simp: length_forest_of same_caps_def pool_sizes\<close>)
    with q show ?thesis by (simp add: huffman_compress_def)
  next
    case False
    then have "build_queue ?h data data_size = Fail Out_Of_Bounds"
      using build_queue_full [OF fresh n] by (simp add: pool_sizes)
    then show ?thesis by (simp add: huffman_compress_def)
  qed
qed

section \<open>Inflating a block\<close>

lemma num_bits_bytes:
  fixes nb :: u16
  shows "push_bit 8 (ucast (ucast (drop_bit 8 nb AND 0xFF) :: u8)) OR ucast (ucast (nb AND 0xFF) :: u8) = nb"
proof -
  have ff: "(0xFF :: u16) = mask 8" by (simp add: mask_eq_exp_minus_1)
  show ?thesis unfolding ff
    by (rule bit_word_eqI) (auto simp: bit_or_iff bit_push_bit_iff bit_and_iff bit_drop_bit_eq bit_ucast_iff bit_mask_iff)
qed

lemma full_unweigh [simp]: "full (unweigh t) = full t"
  by (induction t) auto

lemma code_tree_unweigh [simp]: "code_tree (unweigh t) = code_tree t" "code (unweigh t) = code t"
  by (cases t; simp add: code_tree_def code_def fun_eq_iff)+

text \<open>Up to the decoding loop: the tree of the block has been rebuilt, without its weights.\<close>

lemma inflate_front:
  assumes z: "block_ok data t z" and t: "full t" "chr_null \<notin> set (leaves t)" "chr_node \<notin> set (leaves t)"
    and syms: "length (leaves t) \<le> 128"
  obtains m p where "tree_at m p (unweigh t)"
    and "huffman_inflate z data_size out = inflate_data m p (drop (3 + nodes t) z) data_size
           (of_nat (length (concat (map (code t) data)))) out"
proof -
  let ?N = "nodes t" and ?u = "unweigh t" and ?nb = "of_nat (length (concat (map (code t) data))) :: u16"
  have N: "?N < 256" "height t \<le> ?N"
    using full_nodes [OF t(1)] full_height [OF t(1)] full_leaves_pos [OF t(1)] syms by linarith+
  have size: "unat (of_nat ?N :: u8) = ?N" using N by (simp add: unat_of_nat_u8)
  have ok: "ser_ok t" and ls: "length (serialize t) = ?N" using t by (auto simp: full_ser_ok full_serialize)
  have z': "drop 3 z = [] @ serialize t @ drop (3 + ?N) z"
    using z by (simp add: block_ok_def Let_def) (metis add.commute append_take_drop_id drop_drop)
  have lz: "3 + ?N \<le> length z" using z by (simp add: block_ok_def Let_def)
  then have "height t < Suc (length (drop 3 z))" using N(2) by simp
  from deserialize_tree_node_at [OF ok z' this, of "huffman_memory ?N 0"]
  obtain p h where d: "deserialize_tree_node (Suc (length (drop 3 z))) (huffman_memory ?N 0) (drop 3 z) 0 = Ok (p, ?N, h)"
      and "built (huffman_memory ?N 0) h p ?u"
    by (auto simp: huffman_memory_def fresh_from_def ls)
  then have at: "tree_at (tree_memory h) p ?u" by (simp add: built_tree_at)
  have u: "full ?u" "length (leaves ?u) < 65536" using t(1) syms by simp_all
  note walks = finished_tree_walks(3,4) [OF at u, of 0 "replicate ?N 0"]
  have "deserialize_tree (huffman_memory ?N 0) (drop 3 z) = Ok (p, of_nat ?N, h)"
    unfolding deserialize_tree_def d by simp
  moreover have "aget z 0 = Ok (of_nat ?N)" "aget z 1 = Ok (ucast (drop_bit 8 ?nb AND 0xFF))"
    "aget z 2 = Ok (ucast (?nb AND 0xFF))"
    using z lz by (auto simp: block_ok_def Let_def aget_def)
  ultimately have "huffman_inflate z data_size out =
      inflate_data (tree_memory h) p (drop (3 + nodes t) z) data_size ?nb out"
    using walks N by (simp add: huffman_inflate_def Let_def size num_bits_bytes unat_of_nat_u16)
  with at show thesis by (rule that)
qed

lemma inflate_block:
  assumes z: "block_ok data t z" and t: "full t" "code_tree t" "chr_null \<notin> set (leaves t)" "chr_node \<notin> set (leaves t)"
    and syms: "set data \<subseteq> set (leaves t)" "length (leaves t) \<le> 128" and len: "length z < 65536"
    and bits: "length (concat (map (code t) data)) < 65536" "length (concat (map (code t) data)) \<le> 8 * unat data_size"
    and out: "length data \<le> length out"
  shows "huffman_inflate z data_size out = Ok (overlay out 0 data)"
proof -
  let ?bits = "concat (map (code t) data)" and ?N = "nodes t"
  from inflate_front [OF z t(1,3,4) syms(2)] obtain m p where at: "tree_at m p (unweigh t)"
    and eq: "huffman_inflate z data_size out = inflate_data m p (drop (3 + ?N) z) data_size (of_nat (length ?bits)) out" .
  have tb: "take (length ?bits) (buf_bits (drop (3 + ?N) z)) = ?bits"
    using z by (simp add: block_ok_def Let_def)
  then have fits: "length ?bits \<le> 8 * length (drop (3 + ?N) z)"
    by (metis length_buf_bits length_take min.cobounded1)
  have "height t < 256" using full_height [OF t(1)] syms(2) by simp
  then show ?thesis unfolding eq
    using inflate_data_at [OF at, of "drop (3 + ?N) z" "length ?bits" data data_size out] t(2) len tb fits bits syms out
    by simp
qed

end
