(* ===== verification/Huff_Ends.thy ===== *)
theory Huff_Ends
  imports Huffman
begin

text \<open>
  Both entry points of \<^verbatim>\<open>huffman.c\<close> return on every input: no walk, parse or coding loop exceeds the
  rounds the model grants it, so \<^const>\<open>Diverge\<close> is never the outcome. The one routine of the file
  for which this fails is the unused \<^verbatim>\<open>queue_remove_element\<close>.
\<close>

section \<open>Walks over a tree\<close>

lemma tree_at_cases:
  assumes "tree_at m p t"
  obtains "t = Null" "p = None"
  | w b l r i x where "t = PNode w b l r" "p = Some i" "holds m i x" "byte x = b" "weight x = w"
      "tree_at m (left x) l" "tree_at m (right x) r"
  using assms by (cases t) auto

lemma serialize_tree_node_ends:
  "tree_at m p t \<Longrightarrow> height t < n \<Longrightarrow> ends (serialize_tree_node n m p out pos) (\<lambda>_. True)"
proof (induction t arbitrary: p n out pos)
  case Null
  then obtain k where "n = Suc k" by (cases n) auto
  with Null show ?case by (auto intro!: ends_intros)
next
  case (PNode w b l r)
  from PNode.prems(2) obtain k where n: "n = Suc k" and k: "height l < k" "height r < k"
    by (cases n) auto
  from PNode.prems(1) obtain i x where x: "p = Some i" "holds m i x"
    and lr: "tree_at m (left x) l" "tree_at m (right x) r" by auto
  have "ends (serialize_tree_node k m (left x) out pos)
      (\<lambda>(out, pos). ends (serialize_tree_node k m (right x) out pos) (\<lambda>_. True))" for out pos
    by (rule ends_mono [OF PNode.IH(1) [OF lr(1) k(1)]]) (auto intro!: PNode.IH(2) [OF lr(2) k(2)])
  then show ?case using n x by (auto intro!: ends_intros simp: case_prod_unfold)
qed

lemma build_encoding_table_ends:
  "tree_at m p t \<Longrightarrow> height t < n \<Longrightarrow> ends (build_encoding_table n m p enc nb table pos) (\<lambda>_. True)"
proof (induction t arbitrary: p n enc nb table pos)
  case Null
  then obtain k where "n = Suc k" by (cases n) auto
  with Null show ?case by (simp add: cell_get_def)
next
  case (PNode w b l r)
  from PNode.prems(2) obtain k where n: "n = Suc k" and k: "height l < k" "height r < k"
    by (cases n) auto
  from PNode.prems(1) obtain i x where x: "p = Some i" "holds m i x"
    and lr: "tree_at m (left x) l" "tree_at m (right x) r" by auto
  have "ends (if left x \<noteq> None then build_encoding_table k m (left x) e c table pos else Ok (table, pos))
      (\<lambda>(table, pos). ends (if right x \<noteq> None then build_encoding_table k m (right x) e' c' table pos
         else Ok (table, pos)) (\<lambda>_. True))" for e c e' c' table pos
  proof -
    have "ends (if left x \<noteq> None then build_encoding_table k m (left x) e c table pos else Ok (table, pos)) (\<lambda>_. True)"
      using PNode.IH(1) [OF lr(1) k(1)] by auto
    then show ?thesis by (rule ends_mono) (auto intro!: PNode.IH(2) [OF lr(2) k(2)])
  qed
  then show ?case using n x by (auto intro!: ends_intros simp: case_prod_unfold)
qed

section \<open>Coding loops\<close>

lemma find_encoded_byte_ends: "ends (find_encoded_byte table n b) (\<lambda>_. True)"
proof -
  have "ends (find_loop table b is) (\<lambda>_. True)" for "is"
    by (induction "is") (auto intro!: ends_intros)
  then show ?thesis by (simp add: find_encoded_byte_def)
qed

lemma compress_data_ends: "ends (compress_data table n data data_size out) (\<lambda>_. True)"
proof -
  have put: "ends (bitstream_put_bits s e k) (\<lambda>_. True)" for s e k
    unfolding bitstream_put_bits_def ends_rbind
    by (rule ends_mono [OF ends_rfold [where I = "\<lambda>_. True"]])
      (auto simp: bitstream_put_bit_def intro!: ends_intros)
  have "ends (compress_step table n data i st) (\<lambda>_. True)" for i st
    unfolding compress_step_def
    by (cases st)
      (auto intro!: ends_intros ends_mono [OF find_encoded_byte_ends] ends_mono [OF put]
        simp: reverse_bits_def Let_def)
  then show ?thesis
    unfolding compress_data_def ends_rbind
    by (intro ends_mono [OF ends_rfold [where I = "\<lambda>_. True"]]) auto
qed

lemma next_char_loop_ends:
  assumes "tree_at m p t" and "height t < n" and "bs_wf s"
  shows "ends (next_char_loop n m p s nb)
           (\<lambda>(c, s', nb'). bs_wf s' \<and> buff s' = buff s \<and> bs_pos s < bs_pos s' \<and> bs_pos s' \<le> length (bs_bits s))"
  using assms
proof (induction n arbitrary: p t s nb)
  case (Suc n)
  show ?case
  proof (cases "bs_pos s < length (bs_bits s)")
    case False
    have "bitstream_read_bit s = Fail Out_Of_Bounds"
      using bs.get_end [OF Suc.prems(3)] False by (simp add: get_bool_def res_simps)
    then show ?thesis by simp
  next
    case True
    from read_bit_room [OF Suc.prems(3) True] obtain v s' where s': "bitstream_read_bit s = Ok (v, s')"
      "bs_wf s'" "bs_pos s' = Suc (bs_pos s)" "buff s' = buff s" by blast
    from Suc.prems(1) show ?thesis
    proof (cases rule: tree_at_cases)
      case 1
      then show ?thesis using s' by (simp add: cell_get_def)
    next
      case (2 w b l r i x)
      let ?c = "if v = 0 then left x else right x"
      obtain t' where t': "tree_at m ?c t'" "height t' < n"
        using 2 Suc.prems(2) by (cases "v = 0") auto
      have "ends (next_char_loop n m ?c s' (nb + 1))
          (\<lambda>(c, s'', nb'). bs_wf s'' \<and> buff s'' = buff s \<and> bs_pos s < bs_pos s'' \<and> bs_pos s'' \<le> length (bs_bits s))"
        by (rule ends_mono [OF Suc.IH [OF t' s'(2)]]) (use s' in auto)
      then show ?thesis
        using 2 s' True by (auto simp: Let_def intro!: ends_intros)
    qed
  qed
qed simp

lemma inflate_loop_ends:
  assumes "tree_at m p t" and "bs_wf s" and "bs_pos s \<le> length (bs_bits s)" and "length (bs_bits s) < n + bs_pos s"
  shows "ends (inflate_loop n m p data_size tot s bits_read out pos) (\<lambda>_. True)"
  using assms(2-)
proof (induction n arbitrary: s bits_read out pos)
  case (Suc n)
  have "height t < tree_rounds m" using tree_at_height [OF assms(1)] by (simp add: tree_rounds_def)
  from next_char_loop_ends [OF assms(1) this Suc.prems(1), of 0]
  have "ends (deserialize_next_char m p s 0) (\<lambda>(c, s', nb).
      ends (rbind (aset out pos c) (\<lambda>out.
        inflate_loop n m p data_size tot s' (bits_read + ucast nb) out (Suc pos))) (\<lambda>_. True))"
    unfolding deserialize_next_char_def
    by (rule ends_mono) (use Suc.prems in \<open>auto intro!: ends_intros Suc.IH\<close>)
  then show ?case by (simp add: case_prod_unfold)
qed simp

lemma inflate_data_ends:
  assumes "tree_at m p t" and "length data < 65536"
  shows "ends (inflate_data m p data data_size tot out) (\<lambda>_. True)"
  unfolding inflate_data_def ends_rbind
  by (rule ends_mono [OF inflate_loop_ends [OF assms(1)]]) (use assms(2) in \<open>auto simp: bs_wf_def bs_pos_def\<close>)

section \<open>Entry points\<close>

lemma huffman_compress_ends:
  assumes n: "unat data_size = length data"
  shows "ends (huffman_compress data data_size out) (\<lambda>_. True)"
proof -
  consider "data = []" | "30 < card (set data)" | "data \<noteq> []" "card (set data) \<le> 30" by linarith
  then show ?thesis
  proof cases
    case 1
    then show ?thesis using n by (simp add: huffman_compress_def build_queue_def build_tree_empty)
  next
    case 2
    then show ?thesis using compress_overflow [OF n] by simp
  next
    case 3
    from compress_tree [OF n 3] obtain q h1 i h where
      b: "build_queue (huffman_memory TREE_MAX_SIZE QUEUE_MAX_SIZE) data data_size = Ok (q, h1)"
        "build_tree h1 q = Ok (Some i, h)" and at: "tree_at (tree_memory h) (Some i) (huff_tree data)" .
    let ?m = "tree_memory h" and ?t = "huff_tree data"
    have t: "?t \<noteq> Null" using at by auto
    have ht: "height ?t \<le> tree_rounds ?m" "height ?t < tree_rounds ?m"
      using tree_at_height [OF at] by (simp_all add: tree_rounds_def)
    note walks = tree_get_size_at [OF at t ht(1)] tree_count_leaves_at [OF at t ht(1)]
    show ?thesis
      using b walks
      by (simp add: huffman_compress_def Let_def serialize_tree_def case_prod_unfold)
        (intro ends_intros ends_mono [OF serialize_tree_node_ends [OF at ht(2)]]
          ends_mono [OF build_encoding_table_ends [OF at ht(2)]] ends_mono [OF compress_data_ends] TrueI)
  qed
qed

lemma huffman_inflate_ends:
  assumes len: "length data < 65536"
  shows "ends (huffman_inflate data data_size out) (\<lambda>_. True)"
proof -
  have tail: "ends (rbind (tree_count_leaves (tree_rounds m) m p) (\<lambda>k.
      rbind (build_encoding_table (tree_rounds m) m p 0 0 (replicate (unat k) None) 0) (\<lambda>(table, table_ptr).
      inflate_data m p (drop j data) data_size nb out))) (\<lambda>_. True)"
    if at: "tree_at m p t" for m p t j nb
  proof (cases "t = Null")
    case True
    with at have "p = None" by simp
    then show ?thesis by (simp add: tree_rounds_def cell_get_def)
  next
    case False
    have ht: "height t \<le> tree_rounds m" "height t < tree_rounds m"
      using tree_at_height [OF at] by (simp_all add: tree_rounds_def)
    have "length (drop j data) < 65536" using len by simp
    from inflate_data_ends [OF at this] show ?thesis
      using tree_count_leaves_at [OF at False ht(1)]
      by (simp add: case_prod_unfold) (rule ends_mono [OF build_encoding_table_ends [OF at ht(2)]])
  qed
  have parse: "ends (deserialize_tree (huffman_memory k 0) (drop 3 data)) (\<lambda>(p, pos, h). \<exists>t. tree_at (tree_memory h) p t)" for k
  proof -
    have "ends (deserialize_tree_node (Suc (length (drop 3 data))) (huffman_memory k 0) (drop 3 data) 0)
        (\<lambda>(p, pos, h). 0 < pos \<and> (\<exists>t. built (huffman_memory k 0) h p t))"
      by (rule deserialize_tree_node_ends) (simp_all add: fresh_from_def)
    then show ?thesis
      unfolding deserialize_tree_def ends_rbind
      by (rule ends_mono) (use built_tree_at in \<open>simp add: case_prod_unfold, blast\<close>)
  qed
  show ?thesis
    unfolding huffman_inflate_def Let_def
    by (auto intro!: ends_intros ends_mono [OF parse] intro: tail simp del: ends_rbind simp add: ends_rbind [of "aget _ _"] ends_rbind [of "deserialize_tree _ _"])
qed

end
