(* ===== verification/Huff_Correct.thy ===== *)
theory Huff_Correct
  imports Huff_Ends
begin

text \<open>
  End-to-end statements about \<^verbatim>\<open>huffman_compress\<close> and \<^verbatim>\<open>huffman_inflate\<close>: the round trip and the exact
  limits within which it holds (number of distinct bytes, depth of the tree, reserved bytes), and
  that both entry points return on every input.
\<close>

section \<open>Round trip\<close>

lemma round_trip_room:
  assumes "data \<noteq> []" and "0 \<notin> set data" and "height (huff_tree data) \<le> 9"
    and "2 + 2 * card (set data) + length data \<le> cap"
  shows "8 * (3 + nodes (huff_tree data)) + length (concat (map (code (huff_tree data)) data)) \<le> 8 * cap"
    and "length (concat (map (code (huff_tree data)) data)) \<le> 8 * length data"
proof -
  show bits: "length (concat (map (code (huff_tree data)) data)) \<le> 8 * length data"
    using length_concat_codes [of data "huff_tree data"] huff_tree_leaves(1) [OF assms(2)] assms(3) by simp
  have "Suc (nodes (huff_tree data)) = 2 * card (set data)"
    using full_nodes [OF huff_tree_full [OF assms(1,2)]] huff_tree_leaves(3) [OF assms(2)] by simp
  with bits assms(4) show "8 * (3 + nodes (huff_tree data)) + length (concat (map (code (huff_tree data)) data)) \<le> 8 * cap"
    by simp
qed

lemma round_trip:
  assumes n: "unat data_size = length data" "length data < 8192" and syms: "set data \<inter> {0, chr_node, chr_null} = {}"
    and card: "2 \<le> card (set data)" "card (set data) \<le> 30" and depth: "height (huff_tree data) \<le> 9"
    and cap: "2 + 2 * card (set data) + length data \<le> cap" "cap < 65536" and out: "length data \<le> length out"
  shows "\<exists>z. huffman_compress data data_size (replicate cap 0) = Ok z \<and> length z = cap \<and>
           huffman_inflate z data_size out = Ok (overlay out 0 data)"
proof -
  have ne: "data \<noteq> []" and zero: "0 \<notin> set data" using card(1) syms by auto
  note room = round_trip_room [OF ne zero depth cap(1)]
  obtain z where z: "huffman_compress data data_size (replicate cap 0) = Ok z" "length z = cap"
    "block_ok data (huff_tree data) z"
    by (rule compress_block [OF n(1) ne zero card(2) depth cap(2) room(1)])
  note leaves = huff_tree_leaves [OF zero]
  have "huffman_inflate z data_size out = Ok (overlay out 0 data)"
    by (rule inflate_block [OF z(3) huff_tree_full [OF ne zero] huff_tree_code_tree [OF zero card(1)]])
      (use leaves syms card cap z(2) room(2) n out in auto)
  with z show ?thesis by blast
qed

text \<open>Only the first \<open>n\<close> bytes of the input array are read.\<close>

lemma compress_prefix:
  assumes "unat n = length data"
  shows "huffman_compress (data @ rest) n out = huffman_compress data n out"
proof -
  have "build_queue_step (data @ rest) i s = build_queue_step data i s"
    "compress_step table k (data @ rest) i t = compress_step table k data i t" if "i < length data" for i s t table k
    using that by (simp_all add: build_queue_step_def compress_step_def nth_append)
  then have "build_queue h (data @ rest) n = build_queue h data n"
    "compress_data table k (data @ rest) n buf = compress_data table k data n buf" for h table k buf
    unfolding build_queue_def compress_data_def using assms
    by (auto intro!: rfold_cong arg_cong2 [where f = rbind])
  then show ?thesis by (simp add: huffman_compress_def)
qed

lemma few_symbols_depth:
  assumes "data \<noteq> []" and "0 \<notin> set data" and "card (set data) \<le> 9"
  shows "height (huff_tree data) \<le> 9"
  using full_height [OF huff_tree_full [OF assms(1,2)]] huff_tree_leaves(3) [OF assms(2)] assms(3) by simp

text \<open>C1: compressing and inflating gives the data back, for every block of 2 to 30 distinct bytes,
  none of them 0, '*' or '-', whose tree has at most nine levels (codes of at most eight bits), in a
  zeroed output buffer of \<open>2 + 2k + n\<close> bytes or more (k distinct bytes, n bytes of data).\<close>

theorem huffman_round_trip:
  assumes "unat data_size = length data" "length data < 8192" and "set data \<inter> {0, chr_node, chr_null} = {}"
    and "2 \<le> card (set data)" "card (set data) \<le> 30" and "height (huff_tree data) \<le> 9"
    and "2 + 2 * card (set data) + length data \<le> cap" "cap < 65536" and "length data \<le> length out"
  shows "\<exists>z. huffman_compress data data_size (replicate cap 0) = Ok z \<and> length z = cap \<and>
           huffman_inflate z data_size out = Ok (overlay out 0 data)"
  using assms by (rule round_trip)

lemmas tree_eval = huff_tree_def forest_of.simps count_sym_def huff_merge.simps merge_node_def

theorem huffman_round_trip_witness:
  "\<exists>z. huffman_compress [97, 98, 97, 99, 97] 5 (replicate 32 0) = Ok z \<and> length z = 32 \<and>
     huffman_inflate z 5 [0, 0, 0, 0, 0] = Ok [97, 98, 97, 99, 97]"
  using huffman_round_trip [of 5 "[97, 98, 97, 99, 97]" 32 "[0, 0, 0, 0, 0]"]
  by (simp add: tree_eval chr_node_def chr_null_def overlay_def card_insert_if)

text \<open>With at most nine distinct bytes no condition on the tree is needed.\<close>

theorem huffman_round_trip_few:
  assumes "unat data_size = length data" "length data < 8192" and "set data \<inter> {0, chr_node, chr_null} = {}"
    and "2 \<le> card (set data)" "card (set data) \<le> 9"
    and "2 + 2 * card (set data) + length data \<le> cap" "cap < 65536" and "length data \<le> length out"
  shows "\<exists>z. huffman_compress data data_size (replicate cap 0) = Ok z \<and>
           huffman_inflate z data_size out = Ok (overlay out 0 data)"
proof -
  have "data \<noteq> []" "0 \<notin> set data" using assms(3,4) by auto
  from few_symbols_depth [OF this assms(5)] show ?thesis
    using round_trip [OF assms(1-4) _ _ assms(6-8)] assms(5) by auto
qed

theorem huffman_round_trip_few_witness:
  "\<exists>z. huffman_compress [65, 66, 65] 3 (replicate 16 0) = Ok z \<and>
     huffman_inflate z 3 [0, 0, 0, 7] = Ok [65, 66, 65, 7]"
  using huffman_round_trip_few [of 3 "[65, 66, 65]" 16 "[0, 0, 0, 7]"]
  by (simp add: chr_node_def chr_null_def overlay_def card_insert_if)

section \<open>Beyond the limits\<close>

text \<open>C32: a block with more than 30 distinct bytes overruns the queue pool: its 59 cells are not the
  \<open>2k - 1\<close> that the construction takes.\<close>

theorem huffman_compress_overflow:
  assumes "unat data_size = length data" and "30 < card (set data)"
  shows "huffman_compress data data_size out = Fail Out_Of_Bounds"
  using assms by (rule compress_overflow)

theorem huffman_compress_overflow_witness:
  "huffman_compress (map of_nat [65..<96]) 31 (replicate 200 0) = Fail Out_Of_Bounds"
proof (rule huffman_compress_overflow)
  show "30 < card (set (map of_nat [65..<96] :: u8 list))"
    by (simp add: upt_rec)
qed simp

text \<open>A block whose tree has more than nine levels makes \<^verbatim>\<open>reverse_bits\<close> shift by a negative
  amount, and a block of the size the master sends is enough for that.\<close>

theorem huffman_compress_long_code:
  assumes "unat data_size = length data" and "data \<noteq> []" and "0 \<notin> set data"
    and "card (set data) \<le> 30" and "9 < height (huff_tree data)" and "cap < 65536"
    and "8 * (3 + nodes (huff_tree data)) + length (concat (map (code (huff_tree data)) data)) \<le> 8 * cap"
  shows "huffman_compress data data_size (replicate cap 0) = Fail Bad_Shift"
  using assms by (rule compress_bad_shift)

definition deep_block :: "u8 list" where
  "deep_block = map of_nat [65..<75] @ replicate 2 68 @ replicate 6 69 @ replicate 14 71 @ replicate 30 73"

theorem huffman_compress_long_code_witness:
  "length deep_block = 62 \<and> huffman_compress deep_block 62 (replicate 128 0) = Fail Bad_Shift"
proof -
  have "length deep_block = 62" by code_simp
  moreover have "height (huff_tree deep_block) = 10" by code_simp
  moreover have "nodes (huff_tree deep_block) = 19" by code_simp
  moreover have "length (concat (map (code (huff_tree deep_block)) deep_block)) = 220" by code_simp
  moreover have "0 \<notin> set deep_block" "deep_block \<noteq> []" "card (set deep_block) = 10" by code_simp+
  ultimately show ?thesis
    using huffman_compress_long_code [of 62 deep_block 128] by simp
qed

lemma single_symbol_tree:
  assumes "set data = {b}"
  shows "huff_tree data = leaf (of_nat (count_list data b)) b"
proof -
  let ?ts = "forest_of data []"
  have "length ?ts = 1" using assms by (simp add: length_forest_of)
  then obtain t where t: "?ts = [t]" by (auto simp: length_Suc_conv)
  have "is_leaf t" "root_sym t = b" "root_weight t = of_nat (count_list data (root_sym t))"
    using counts_forest_of [of data] assms by (auto simp: t counts_def)
  then show ?thesis by (simp add: huff_tree_def t is_leaf_def)
qed

text \<open>A block that repeats one byte is compressed to a tree and no code bits, and inflating it
  writes nothing: the data are lost without an error.\<close>

theorem huffman_single_symbol:
  assumes "unat data_size = length data" and "set data = {b}" and "b \<notin> {0, chr_node, chr_null}"
    and "4 \<le> cap" "cap < 65536"
  shows "\<exists>z. huffman_compress data data_size (replicate cap 0) = Ok z \<and>
           huffman_inflate z inflate_size out = Ok out"
proof -
  have tree: "huff_tree data = leaf (of_nat (count_list data b)) b" by (rule single_symbol_tree [OF assms(2)])
  have bits: "concat (map (code (huff_tree data)) data) = []"
    using assms(2,3) by (auto simp: tree code_def)
  have data: "data \<noteq> []" "0 \<notin> set data" "card (set data) \<le> 30" using assms(2,3) by auto
  have depth: "height (huff_tree data) \<le> 9" by (simp add: tree)
  from assms(4) have room: "8 * (3 + nodes (huff_tree data)) + length (concat (map (code (huff_tree data)) data)) \<le> 8 * cap"
    unfolding bits by (simp add: tree)
  obtain z where z: "huffman_compress data data_size (replicate cap 0) = Ok z" "block_ok data (huff_tree data) z"
    by (rule compress_block [OF assms(1) data depth assms(5) room])
  have full: "full (huff_tree data)" by (rule huff_tree_full [OF data(1,2)])
  have "chr_null \<notin> set (leaves (huff_tree data))" "chr_node \<notin> set (leaves (huff_tree data))"
    "length (leaves (huff_tree data)) \<le> 128" using assms(3) by (auto simp: tree)
  from inflate_front [OF z(2) full this] obtain m p where "tree_at m p (unweigh (huff_tree data))"
    "huffman_inflate z inflate_size out = inflate_data m p (drop (3 + nodes (huff_tree data)) z) inflate_size
       (of_nat (length (concat (map (code (huff_tree data)) data)))) out" .
  then have "huffman_inflate z inflate_size out = Ok out" unfolding bits by (simp add: inflate_data_def)
  with z(1) show ?thesis by blast
qed

theorem huffman_single_symbol_witness:
  "\<exists>z. huffman_compress [65, 65, 65] 3 (replicate 8 0) = Ok z \<and>
     huffman_inflate z 3 [0, 0, 0] = Ok [0, 0, 0]"
  using huffman_single_symbol [of 3 "[65, 65, 65]" 65 8 3 "[0, 0, 0]"]
  by (simp add: chr_node_def chr_null_def)

text \<open>An empty block stops at the assertion of \<^verbatim>\<open>build_tree\<close>.\<close>

theorem huffman_compress_empty: "huffman_compress data 0 out = Fail Assert_Failed"
  by (simp add: huffman_compress_def build_queue_def build_tree_empty)

section \<open>Both entry points return\<close>

text \<open>C6: \<^verbatim>\<open>huffman_compress\<close> returns or faults on every block; none of its loops and recursions runs
  forever.\<close>

theorem huffman_compress_returns:
  assumes "unat data_size = length data"
  shows "huffman_compress data data_size out \<noteq> Fail Diverge"
  by (rule ends_returns [OF huffman_compress_ends [OF assms]])

theorem huffman_compress_returns_witness:
  "huffman_compress [0, 42, 45, 0] 4 [1, 2, 3] \<noteq> Fail Diverge"
  using huffman_compress_returns [of 4 "[0, 42, 45, 0]" "[1, 2, 3]"] by simp

text \<open>C7: \<^verbatim>\<open>huffman_inflate\<close> returns or faults on every input, well-formed or not.\<close>

theorem huffman_inflate_returns:
  assumes "length data < 65536"
  shows "huffman_inflate data data_size out \<noteq> Fail Diverge"
  by (rule ends_returns [OF huffman_inflate_ends [OF assms]])

theorem huffman_inflate_returns_witness:
  "huffman_inflate [255, 255, 255, 42, 42, 42] 9 [0, 0] \<noteq> Fail Diverge"
  using huffman_inflate_returns [of "[255, 255, 255, 42, 42, 42]" 9 "[0, 0]"] by simp

section \<open>The code\<close>



text \<open>C21: what \<^verbatim>\<open>build_queue\<close> leaves in the queue: one leaf for every distinct byte of the block,
  weighted with the number of its occurrences (modulo \<open>2 ^ 16\<close>), in fresh slots of both pools.\<close>

theorem build_queue_counts:
  assumes "unat data_size = length data" and "card (set data) \<le> 59"
  shows "\<exists>p h ts. build_queue (huffman_memory TREE_MAX_SIZE QUEUE_MAX_SIZE) data data_size = Ok (p, h) \<and>
           leaves_at h p ts \<and> counts data ts \<and> tree_ptr h = card (set data) \<and> queue_ptr h = card (set data)"
  using build_queue_at [of "huffman_memory TREE_MAX_SIZE QUEUE_MAX_SIZE", OF _ _ assms(1)] assms(2)
    counts_forest_of [of data] by (auto simp: pool_sizes fresh_from_def)

theorem build_queue_counts_witness:
  "\<exists>p h ts. build_queue (huffman_memory TREE_MAX_SIZE QUEUE_MAX_SIZE) [65, 66, 65] 3 = Ok (p, h) \<and>
     leaves_at h p ts \<and> counts [65, 66, 65] ts \<and> tree_ptr h = 2 \<and> queue_ptr h = 2"
  using build_queue_counts [of 3 "[65, 66, 65]"] by (simp add: card_insert_if flip: numeral_2_eq_2)

text \<open>C8: \<^verbatim>\<open>build_tree\<close> refines the abstract merge: from a queue that holds the trees \<open>ts\<close> it builds
  in the pool the tree that repeated merging of the two front trees gives, with one new tree node and
  one new queue cell per merge.\<close>

theorem build_tree_refines:
  assumes "forest_at h p ts" and "ts \<noteq> []" and "length ts < 2 ^ 16"
    and "tree_ptr h + length ts \<le> Suc (length (tree_memory h))"
      "queue_ptr h + length ts \<le> Suc (length (queue_memory h))"
  shows "\<exists>i h'. build_tree h p = Ok (Some i, h') \<and> tree_at (tree_memory h') (Some i) (huff_merge ts) \<and>
           tree_ptr h' + 1 = tree_ptr h + length ts"
  using build_tree_at [OF assms] by blast

theorem build_tree_refines_witness:
  "\<exists>p h i h'. build_queue (huffman_memory 7 5) [65, 66] 2 = Ok (p, h) \<and> build_tree h p = Ok (Some i, h') \<and>
     tree_at (tree_memory h') (Some i) (PNode 2 0 (leaf 1 65) (leaf 1 66))"
proof -
  have "card (set [65, 66 :: u8]) = 2" "unat (2 :: u16) = length [65, 66 :: u8]" by simp_all
  with build_queue_at [of "huffman_memory 7 5" 2 "[65, 66]"] obtain p h where
    q: "build_queue (huffman_memory 7 5) [65, 66] 2 = Ok (p, h)" "leaves_at h p (forest_of [65, 66] [])"
    "same_caps (huffman_memory 7 5) h" "tree_ptr h = 2" "queue_ptr h = 2" by (auto simp: fresh_from_def)
  moreover have "forest_of [65, 66] [] = [leaf 1 65, leaf 1 66]" "huff_merge [leaf 1 65, leaf 1 66] =
      PNode 2 0 (leaf 1 65) (leaf 1 66)" by (simp_all add: tree_eval)
  ultimately show ?thesis
    using build_tree_refines [OF leaves_forest [OF q(2)]]
    by (auto simp: same_caps_def simp del: tree_at.simps)
qed

section \<open>Parts\<close>

text \<open>C22: \<^verbatim>\<open>queue_add_element\<close> keeps a queue sorted by weight: the new cell goes behind the cells of
  the same or smaller weight, and no cell is lost.\<close>

theorem queue_add_element_sorted:
  assumes "queue_at (queue_memory h) p xs" and "fresh_from (queue_memory h) (queue_ptr h)"
    and "queue_ptr h < length (queue_memory h)" and "holds (tree_memory h) e ne"
    and "\<And>x. x \<in> set xs \<Longrightarrow> \<exists>n. holds (tree_memory h) (snd x) n"
    and "sorted (map (node_weight (tree_memory h)) xs)"
  shows "\<exists>p' h' ys. queue_add_element h p (Some e) = Ok (p', h') \<and> queue_at (queue_memory h') p' ys \<and>
           tree_memory h' = tree_memory h \<and> mset ys = add_mset (queue_ptr h, e) (mset xs) \<and>
           sorted (map (node_weight (tree_memory h)) ys)"
proof -
  let ?ys = "ins_by (node_weight (tree_memory h)) (queue_ptr h, e) xs"
  from queue_add_element_at [OF assms(1-5)] obtain p' m where
    "queue_add_element h p (Some e) = Ok (p', queue_grown h m)" "queue_at m p' ?ys" by blast
  then show ?thesis
    using sorted_ins_by [OF assms(6)] mset_ins_by [of "node_weight (tree_memory h)" _ xs]
    by (intro exI [of _ p'] exI [of _ "queue_grown h m"] exI [of _ ?ys]) (simp add: queue_grown_def)
qed

definition sample_pool :: huffman_t where
  "sample_pool =
     \<lparr>tree_memory = [Some (new_node 5), Some (new_node 3), None], tree_ptr = 2, allocated_tree_size = 2,
      queue_memory = [Some \<lparr>nxt = None, el = Some 0\<rparr>, None], queue_ptr = 1, allocated_queue_size = 1\<rparr>"

theorem queue_add_element_sorted_witness:
  "\<exists>p' h' ys. queue_add_element sample_pool (Some 0) (Some 1) = Ok (p', h') \<and>
     queue_at (queue_memory h') p' ys \<and> mset ys = {#(1, 1), (0, 0)#} \<and>
     sorted (map (node_weight (tree_memory sample_pool)) ys)"
  using queue_add_element_sorted [of sample_pool "Some 0" "[(0, 0)]" 1 "new_node 3"]
  by (auto simp: sample_pool_def holds_def fresh_from_def less_Suc_eq)

lemma height_serialize: "ser_ok t \<Longrightarrow> height t \<le> length (serialize t)"
  by (induction t) (auto split: if_splits)

text \<open>C3: parsing the serialised form of a tree rebuilds it, reads exactly its bytes and takes
  exactly its nodes from the pool.\<close>

theorem deserialize_serialize:
  assumes "tree_at m p t" and "ser_ok t" and "length (serialize t) \<le> length out"
    and "nodes t \<le> k" and "length out < 65536"
  shows "\<exists>out' p' h'. serialize_tree m p out 0 = Ok out' \<and>
           deserialize_tree (huffman_memory k 0) out' = Ok (p', of_nat (length (serialize t)), h') \<and>
           tree_at (tree_memory h') p' (unweigh t) \<and> tree_ptr h' = nodes t"
proof -
  let ?out = "overlay out 0 (serialize t)"
  have ser: "serialize_tree m p out 0 = Ok ?out" using serialize_tree_at [OF assms(1)] assms(3) by simp
  have out: "?out = [] @ serialize t @ drop (length (serialize t)) out" by (simp add: overlay_def)
  have "height t < Suc (length ?out)" using assms(3) height_serialize [OF assms(2)] by simp
  from deserialize_tree_node_at [OF assms(2) out this, of "huffman_memory k 0"] assms(4)
  obtain p' h' where d: "deserialize_tree_node (Suc (length ?out)) (huffman_memory k 0) ?out 0
      = Ok (p', length (serialize t), h')" and b: "built (huffman_memory k 0) h' p' (unweigh t)"
    by (auto simp: fresh_from_def)
  have "deserialize_tree (huffman_memory k 0) ?out = Ok (p', of_nat (length (serialize t)), h')"
    unfolding deserialize_tree_def d by simp
  with ser built_tree_at [OF b] b show ?thesis by (auto simp: built_def)
qed

theorem deserialize_serialize_witness:
  "\<exists>out' p' h'. serialize_tree [Some \<lparr>left = Some 1, right = Some 2, weight = 2, byte = 0\<rparr>,
        Some \<lparr>left = None, right = None, weight = 1, byte = 65\<rparr>,
        Some \<lparr>left = None, right = None, weight = 1, byte = 66\<rparr>] (Some 0) [0, 0, 0, 0] 0 = Ok out' \<and>
     deserialize_tree (huffman_memory 3 0) out' = Ok (p', 3, h') \<and>
     tree_at (tree_memory h') p' (PNode 0 0 (leaf 0 65) (leaf 0 66)) \<and> tree_ptr h' = 3"
  using deserialize_serialize [of "[Some \<lparr>left = Some 1, right = Some 2, weight = 2, byte = 0\<rparr>,
        Some \<lparr>left = None, right = None, weight = 1, byte = 65\<rparr>,
        Some \<lparr>left = None, right = None, weight = 1, byte = 66\<rparr>]" "Some 0"
      "PNode 2 0 (leaf 1 65) (leaf 1 66)" "[0, 0, 0, 0]" 3]
  by (auto simp: holds_def chr_null_def chr_node_def)

text \<open>C20: \<^verbatim>\<open>reverse_bits\<close> reverses the low bits it is told to, and clears the others.\<close>

theorem reverse_bits_reverses:
  assumes "unat n \<le> 8"
  shows "\<exists>r. reverse_bits b n = Ok r \<and> (\<forall>i. bit r i \<longleftrightarrow> i < unat n \<and> bit b (unat n - 1 - i))"
  by (rule reverse_bits_spec [OF assms]) blast

theorem reverse_bits_reverses_witness:
  "\<exists>r. reverse_bits 0x1D 5 = Ok r \<and> (\<forall>i. bit r i \<longleftrightarrow> i < 5 \<and> bit (0x1D :: u8) (4 - i))"
  using reverse_bits_reverses [of 5 "0x1D"] by simp

text \<open>C19: bits put into a zeroed stream one after the other are read back in the same order.\<close>

theorem bitstream_round_trip:
  assumes "length vs \<le> 8 * n" and "n < 65536"
  shows "\<exists>s s'. rfold (\<lambda>v s. bitstream_put_bit s (of_bool v)) vs
             \<lparr>buff = replicate n 0, buff_index = 0, bitnum = 0\<rparr> = Ok s \<and>
           rfold (\<lambda>i (acc, s). rbind (bitstream_read_bit s) (\<lambda>(v, s). Ok (acc @ [v \<noteq> 0], s)))
             [0..<length vs] ([], \<lparr>buff = buff s, buff_index = 0, bitnum = 0\<rparr>) = Ok (vs, s')"
proof -
  let ?s = "\<lparr>buff = replicate n 0, buff_index = 0, bitnum = 0\<rparr> :: bitstream_t"
  have "bs.clear ?s" "bs_pos ?s + length vs \<le> length (bs_bits ?s)"
    using assms by (auto simp: bs.clear_def bs_wf_def bs_pos_def buf_bits_zero)
  from bs.put_run [OF this] obtain s where
    s: "rfold (\<lambda>v s. put_bool s v) vs ?s = Ok s" "length (bs_bits s) = 8 * n" "take (length vs) (bs_bits s) = vs"
    by (auto simp: bs_pos_def)
  let ?r = "\<lparr>buff = buff s, buff_index = 0, bitnum = 0\<rparr> :: bitstream_t"
  have r: "bs_wf ?r" "bs_pos ?r + length vs \<le> length (bs_bits ?r)" "bs_pos ?r = 0"
    using s(2) assms by (auto simp: bs_wf_def bs_pos_def)
  from bs.get_run [OF r(1,2), of "[]"] obtain s' where
    "rfold (\<lambda>i (acc, s). rbind (get_bool s) (\<lambda>(v, s). Ok (acc @ [v], s))) [0..<length vs] ([], ?r) = Ok (vs, s')"
    using s(3) r(3) by auto
  with s(1) show ?thesis
    by (intro exI [of _ s] exI [of _ s']) (simp add: put_bool_def get_bool_def rbind_assoc case_prod_unfold)
qed

theorem bitstream_round_trip_witness:
  "\<exists>s s'. rfold (\<lambda>v s. bitstream_put_bit s (of_bool v)) [True, False, True]
       \<lparr>buff = [0], buff_index = 0, bitnum = 0\<rparr> = Ok s \<and>
     rfold (\<lambda>i (acc, s). rbind (bitstream_read_bit s) (\<lambda>(v, s). Ok (acc @ [v \<noteq> 0], s)))
       [0..<3] ([], \<lparr>buff = buff s, buff_index = 0, bitnum = 0\<rparr>) = Ok ([True, False, True], s')"
  using bitstream_round_trip [of "[True, False, True]" 1] by (simp add: numeral_3_eq_3)

text \<open>The unused \<^verbatim>\<open>queue_remove_element\<close> never returns when the element is in neither of the
  first two cells: it goes back to \<^verbatim>\<open>head->next\<close> in every round.\<close>

theorem queue_remove_element_diverges:
  assumes "queue_at (queue_memory h) p (x # y # xs)" and "e \<noteq> Some (snd x)" and "e \<noteq> Some (snd y)"
  shows "queue_remove_element rounds h p e = Fail Diverge"
proof -
  from assms(1) obtain c d where c: "p = Some (fst x)" "holds (queue_memory h) (fst x) c" "el c = Some (snd x)"
      "nxt c = Some (fst y)"
    and d: "holds (queue_memory h) (fst y) d" "el d = Some (snd y)" by auto
  have second: "queue_remove_loop n h p (Some (fst y)) prev e = Fail Diverge" for n prev
  proof (induction n arbitrary: prev)
    case (Suc n)
    then show ?case using c d assms(3) by (simp add: get_queue_def)
  qed simp
  have "queue_remove_loop n h p p None e = Fail Diverge" for n
    using c second assms(2) by (cases n) (simp_all add: get_queue_def)
  then show ?thesis by (simp add: queue_remove_element_def)
qed

theorem queue_remove_element_diverges_witness:
  "queue_remove_element 1000 \<lparr>tree_memory = [], tree_ptr = 0, allocated_tree_size = 0,
      queue_memory = [Some \<lparr>nxt = Some 1, el = Some 0\<rparr>, Some \<lparr>nxt = Some 2, el = Some 1\<rparr>,
        Some \<lparr>nxt = None, el = Some 2\<rparr>], queue_ptr = 3, allocated_queue_size = 3\<rparr> (Some 0) (Some 2)
   = Fail Diverge"
  by (rule queue_remove_element_diverges [where x = "(0, 0)" and y = "(1, 1)" and xs = "[(2, 2)]"])
    (simp_all add: holds_def)

end
