(* ===== verification/Avr_Machine.thy ===== *)
theory Avr_Machine
  imports C_Prelude
begin

text \<open>
  The ATmega32U4 as the C sources see it, a parameter of every device component: \<open>'w\<close> is the state
  of everything outside the program (peripherals, bus, host, console), and a record \<open>'w avr\<close> gives
  what the program can do to it. Nothing is defined about the hardware here; what a component relies
  on is a named hypothesis of its lemmas. \<open>polls\<close> bounds the rounds that the model grants to a
  busy-wait loop before it calls the loop endless.
  The theory also holds the parts of the C library that the sources use: \<^verbatim>\<open>fgets\<close>, \<^verbatim>\<open>strlen\<close>,
  the conversions of \<^verbatim>\<open>printf\<close>, and the little-endian layout of 16-bit integers.
\<close>

section \<open>Registers and the outside world\<close>

datatype reg =
    TWBR | TWSR | TWAR | TWDR | TWCR
  | DDRB | PORTB | PINB | DDRC | PORTC | PINC | DDRD | PORTD | PIND
  | PCICR | PCMSK0 | MCUSR | USBCON | SREG
  | UHWCON | PLLCSR | UDCON | UDINT | UDIEN | UDADDR
  | UDFNUML | UDFNUMH | PLLFRQ
  | UENUM | UERST | UEINTX | UECONX | UECFG0X | UECFG1X | UESTA0X | UEIENX | UEDATX | UEBCLX | UEBCHX | UEINT | USBSTA | USBINT

record 'w avr =
  rd :: "reg \<Rightarrow> 'w \<Rightarrow> u8 \<times> 'w"          \<comment> \<open>a volatile read\<close>
  wr :: "reg \<Rightarrow> u8 \<Rightarrow> 'w \<Rightarrow> 'w"          \<comment> \<open>a volatile write\<close>
  delay_ms :: "nat \<Rightarrow> 'w \<Rightarrow> 'w"         \<comment> \<open>\<^verbatim>\<open>_delay_ms\<close>\<close>
  getc :: "'w \<Rightarrow> u8 option \<times> 'w"        \<comment> \<open>one character of \<^verbatim>\<open>stdin\<close>, or end of file\<close>
  put :: "u8 list \<Rightarrow> 'w \<Rightarrow> 'w"          \<comment> \<open>characters to \<^verbatim>\<open>stdout\<close>\<close>
  mainloop :: "'w \<Rightarrow> 'w"               \<comment> \<open>\<^verbatim>\<open>USB_Mainloop_Handler\<close> of the linked serial library\<close>
  polls :: nat

text \<open>\<^verbatim>\<open>REG |= m\<close> and \<^verbatim>\<open>REG &= m\<close> on a volatile register: one read, one write.\<close>

definition or_reg :: "'w avr \<Rightarrow> reg \<Rightarrow> u8 \<Rightarrow> 'w \<Rightarrow> 'w" where
  "or_reg E r m w = (case rd E r w of (v, w1) \<Rightarrow> wr E r (v OR m) w1)"

definition and_reg :: "'w avr \<Rightarrow> reg \<Rightarrow> u8 \<Rightarrow> 'w \<Rightarrow> 'w" where
  "and_reg E r m w = (case rd E r w of (v, w1) \<Rightarrow> wr E r (v AND m) w1)"

definition xor_reg :: "'w avr \<Rightarrow> reg \<Rightarrow> u8 \<Rightarrow> 'w \<Rightarrow> 'w" where
  "xor_reg E r m w = (case rd E r w of (v, w1) \<Rightarrow> wr E r (v XOR m) w1)"

definition bv :: "nat \<Rightarrow> u8" where
  "bv n = push_bit n 1" \<comment> \<open>\<^verbatim>\<open>(1 << n)\<close>\<close>

section \<open>Busy waiting\<close>

text \<open>\<open>wait_loop E r m v n\<close>: poll the register until the masked bits are set (or clear).\<close>

fun wait_loop :: "'w avr \<Rightarrow> reg \<Rightarrow> u8 \<Rightarrow> bool \<Rightarrow> nat \<Rightarrow> 'w \<Rightarrow> 'w result" where
  "wait_loop E r m v 0 w = Fail Diverge"
| "wait_loop E r m v (Suc n) w =
     (case rd E r w of (x, w1) \<Rightarrow> if (x AND m \<noteq> 0) = v then Ok w1 else wait_loop E r m v n w1)"

definition wait_set :: "'w avr \<Rightarrow> reg \<Rightarrow> u8 \<Rightarrow> 'w \<Rightarrow> 'w result" where
  "wait_set E r m w = wait_loop E r m True (polls E) w"

definition wait_clear :: "'w avr \<Rightarrow> reg \<Rightarrow> u8 \<Rightarrow> 'w \<Rightarrow> 'w result" where
  "wait_clear E r m w = wait_loop E r m False (polls E) w"

text \<open>A register whose flag never changes keeps the loop running, whatever the bound.\<close>

lemma wait_loop_stuck:
  assumes "\<And>w. I w \<Longrightarrow> (fst (rd E r w) AND m \<noteq> 0) \<noteq> v \<and> I (snd (rd E r w))"
  shows "I w \<Longrightarrow> wait_loop E r m v n w = Fail Diverge"
proof (induction n arbitrary: w)
  case (Suc n)
  then show ?case using assms [of w] by (auto simp: case_prod_unfold)
qed simp

text \<open>Once the flag comes up after \<open>k\<close> polls, every bound above \<open>k\<close> gives the same end state.\<close>

lemma wait_loop_mono: "wait_loop E r m v n w = Ok w' \<Longrightarrow> n \<le> k \<Longrightarrow> wait_loop E r m v k w = Ok w'"
proof (induction n arbitrary: w k)
  case (Suc n)
  then obtain j where "k = Suc j" "n \<le> j" by (cases k) auto
  with Suc show ?case by (auto simp: case_prod_unfold split: if_splits)
qed simp

lemma wait_loop_now:
  "0 < n \<Longrightarrow> (fst (rd E r w) AND m \<noteq> 0) = v \<Longrightarrow> wait_loop E r m v n w = Ok (snd (rd E r w))"
  by (cases n) (auto simp: case_prod_unfold)

section \<open>Characters and numbers\<close>

definition str :: "string \<Rightarrow> u8 list" where
  "str s = map (\<lambda>c. of_nat (of_char c)) s"

fun dec_digits :: "nat \<Rightarrow> u8 list" where
  "dec_digits n = (if n < 10 then [of_nat (48 + n)] else dec_digits (n div 10) @ [of_nat (48 + n mod 10)])"

declare dec_digits.simps [simp del]

definition show_int16 :: "u16 \<Rightarrow> u8 list" where
  "show_int16 x =
     (if bit x 15 then 45 # dec_digits (65536 - unat x) else dec_digits (unat x))" \<comment> \<open>\<^verbatim>\<open>%d\<close>; an \<^verbatim>\<open>int\<close> has 16 bits\<close>

definition hex_digit :: "nat \<Rightarrow> u8" where
  "hex_digit n = (if n < 10 then of_nat (48 + n) else of_nat (87 + n))"

fun hex_digits :: "nat \<Rightarrow> u8 list" where
  "hex_digits n = (if n < 16 then [hex_digit n] else hex_digits (n div 16) @ [hex_digit (n mod 16)])"

declare hex_digits.simps [simp del]

definition pad0 :: "nat \<Rightarrow> u8 list \<Rightarrow> u8 list" where
  "pad0 k s = replicate (k - length s) 48 @ s" \<comment> \<open>the \<^verbatim>\<open>0k\<close> of \<^verbatim>\<open>%04x\<close>\<close>

text \<open>
  \<^verbatim>\<open>printf(s)\<close> with data for a format: without a conversion it prints the data, and with any
  conversion but \<^verbatim>\<open>%%\<close> it reads an argument that was not passed.
\<close>

fun printf_data :: "u8 list \<Rightarrow> u8 list result" where
  "printf_data [] = Ok []"
| "printf_data (c # cs) =
     (if c = 37 then
        (case cs of
           [] \<Rightarrow> Fail Bad_Format
         | d # ds \<Rightarrow> if d = 37 then rbind (printf_data ds) (\<lambda>r. Ok (37 # r)) else Fail Bad_Format)
      else rbind (printf_data cs) (\<lambda>r. Ok (c # r)))"

lemma printf_data_plain: "37 \<notin> set s \<Longrightarrow> printf_data s = Ok s"
  by (induction s) auto

section \<open>Strings in buffers\<close>

text \<open>\<^verbatim>\<open>strlen\<close> of a buffer: the bytes before the first zero, which must lie in the buffer.\<close>

fun strlen :: "u8 list \<Rightarrow> nat result" where
  "strlen [] = Fail Out_Of_Bounds"
| "strlen (c # cs) = (if c = 0 then Ok 0 else rbind (strlen cs) (\<lambda>n. Ok (Suc n)))"

lemma strlen_at: "0 \<notin> set xs \<Longrightarrow> strlen (xs @ 0 # ys) = Ok (length xs)"
  by (induction xs) auto

lemma strlen_run_out: "0 \<notin> set xs \<Longrightarrow> strlen xs = Fail Out_Of_Bounds"
  by (induction xs) auto

lemma strlen_Ok_iff: "strlen xs = Ok n \<longleftrightarrow> n < length xs \<and> xs ! n = 0 \<and> 0 \<notin> set (take n xs)"
proof (induction xs arbitrary: n)
  case (Cons c cs)
  then show ?case by (cases n) (auto simp: res_simps)
qed simp

text \<open>
  \<^verbatim>\<open>fgets(buffer, n + 1, stdin)\<close>: up to \<open>n\<close> characters, up to and including a newline, up to end of
  file; nothing at all is \<^verbatim>\<open>NULL\<close>.
\<close>

fun fgets_chars :: "'w avr \<Rightarrow> nat \<Rightarrow> 'w \<Rightarrow> u8 list \<times> 'w" where
  "fgets_chars E 0 w = ([], w)"
| "fgets_chars E (Suc n) w =
     (case getc E w of
        (None, w1) \<Rightarrow> ([], w1)
      | (Some c, w1) \<Rightarrow>
          if c = 10 then ([c], w1)
          else (case fgets_chars E n w1 of (cs, w2) \<Rightarrow> (c # cs, w2)))"

definition fgets :: "'w avr \<Rightarrow> nat \<Rightarrow> 'w \<Rightarrow> u8 list option \<times> 'w" where
  "fgets E sz w =
     (case fgets_chars E (sz - 1) w of (cs, w1) \<Rightarrow> (if cs = [] then None else Some (cs @ [0]), w1))"

lemma fgets_chars_length: "length (fst (fgets_chars E n w)) \<le> n"
  by (induction E n w rule: fgets_chars.induct) (auto split: option.splits prod.splits)

section \<open>Little-endian 16-bit integers\<close>

definition le16 :: "u16 \<Rightarrow> u8 list" where
  "le16 x = [ucast x, ucast (drop_bit 8 x)]"

definition of_le16 :: "u8 \<Rightarrow> u8 \<Rightarrow> u16" where
  "of_le16 lo hi = ucast lo OR push_bit 8 (ucast hi)"

lemma of_le16_le16: "of_le16 (ucast x) (ucast (drop_bit 8 x)) = (x :: u16)"
  by (rule bit_word_eqI) (auto simp: of_le16_def bit_or_iff bit_push_bit_iff bit_drop_bit_eq bit_ucast_iff)

lemma of_le16_bytes: "ucast (of_le16 lo hi) = lo" "ucast (drop_bit 8 (of_le16 lo hi)) = hi"
  by (rule bit_word_eqI; auto simp: of_le16_def bit_or_iff bit_push_bit_iff bit_drop_bit_eq bit_ucast_iff dest: bit_imp_le_length)+

lemma length_le16 [simp]: "length (le16 x) = 2"
  by (simp add: le16_def)

end
