(* ===== verification/Huff_Print.thy ===== *)
theory Huff_Print
  imports Huff_Correct Avr_Machine
begin

text \<open>
  The parts of \<^verbatim>\<open>huffman.c\<close> that the compressor does not call (counting distinct characters, drawing a
  tree for Graphviz) and the demonstration program \<^verbatim>\<open>huffman/main.c\<close>. What is printed is a list of
  characters; how \<^verbatim>\<open>%p\<close> shows the address of a node is the parameter \<open>show_ptr\<close>. This program runs
  on the host, where an \<^verbatim>\<open>int\<close> has 32 bits.
\<close>

section \<open>Counting distinct characters\<close>

text \<open>\<^verbatim>\<open>1 << k\<close> for \<open>k\<close> below 32, converted to \<^verbatim>\<open>uint32_t\<close>.\<close>

definition count_step :: "u8 list \<Rightarrow> u16 \<Rightarrow> nat \<Rightarrow> u32 list \<Rightarrow> u32 list result" where
  "count_step data data_size i counted_chars =
     rbind (aget data (unat data_size)) (\<lambda>c.
     rbind (aget counted_chars (unat c div 8)) (\<lambda>x.
     aset counted_chars (unat c div 8) (x OR push_bit (unat c mod 32) 1)))"

definition count_distinct_chars :: "u8 list \<Rightarrow> u16 \<Rightarrow> u8 result" where
  "count_distinct_chars data data_size =
     rbind (rfold (count_step data data_size) [0..<unat data_size] (replicate 8 0)) (\<lambda>counted_chars.
     Ok (of_nat (sum_list (map (\<lambda>x. length (filter (\<lambda>j. x AND push_bit j 1 \<noteq> 0) [0..<32])) counted_chars))))"

section \<open>Drawing a tree\<close>

definition bst_print_dot_null :: "u8 \<Rightarrow> nat \<Rightarrow> u8 list" where
  "bst_print_dot_null key nullcount =
     str ''    null'' @ dec_digits nullcount @ str '' [shape=point];'' @ [10] @
     str ''    '' @ [key] @ str '' -> null'' @ dec_digits nullcount @ str '';'' @ [10]"

definition bst_print_byte :: "(nat \<Rightarrow> u8 list) \<Rightarrow> node_t option list \<Rightarrow> ptr \<Rightarrow> u8 list result" where
  "bst_print_byte show_ptr m p =
     rbind (cell_get m p) (\<lambda>x.
     Ok ([34] @ (if byte x = 0 then str ''I'' @ show_ptr (the p) else [byte x]) @ str '' '' @
         dec_digits (unat (weight x)) @ [34]))"

text \<open>One edge line: the parent, the child and the label of the branch.\<close>

definition bst_print_edge :: "(nat \<Rightarrow> u8 list) \<Rightarrow> node_t option list \<Rightarrow> ptr \<Rightarrow> ptr \<Rightarrow> u8 \<Rightarrow> u8 list result" where
  "bst_print_edge show_ptr m p q label =
     rbind (bst_print_byte show_ptr m p) (\<lambda>a.
     rbind (bst_print_byte show_ptr m q) (\<lambda>b.
     Ok (str ''    '' @ a @ str '' -> '' @ b @ str '' [ label='' @ [34, label, 34] @ str '' ];'' @ [10])))"

fun bst_print_dot_aux :: "(nat \<Rightarrow> u8 list) \<Rightarrow> nat \<Rightarrow> node_t option list \<Rightarrow> ptr \<Rightarrow> u8 list result" where
  "bst_print_dot_aux show_ptr 0 m p = Fail Diverge"
| "bst_print_dot_aux show_ptr (Suc n) m p =
     rbind (cell_get m p) (\<lambda>x.
     rbind (if left x \<noteq> None
            then rbind (bst_print_edge show_ptr m p (left x) 48) (\<lambda>e.
                 rbind (bst_print_dot_aux show_ptr n m (left x)) (\<lambda>s. Ok (e @ s)))
            else Ok []) (\<lambda>l.
     rbind (if right x \<noteq> None
            then rbind (bst_print_edge show_ptr m p (right x) 49) (\<lambda>e.
                 rbind (bst_print_dot_aux show_ptr n m (right x)) (\<lambda>s. Ok (e @ s)))
            else Ok []) (\<lambda>r.
     Ok (l @ r))))"

definition bst_print_dot :: "(nat \<Rightarrow> u8 list) \<Rightarrow> u8 list \<Rightarrow> node_t option list \<Rightarrow> ptr \<Rightarrow> u8 list result" where
  "bst_print_dot show_ptr name m tree =
     rbind
       (if tree = None then Ok [10]
        else
          rbind (cell_get m tree) (\<lambda>x.
          if right x = None \<and> left x = None
          then rbind (bst_print_byte show_ptr m tree) (\<lambda>b. Ok (str ''    '' @ b @ str '';'' @ [10]))
          else bst_print_dot_aux show_ptr (tree_rounds m) m tree)) (\<lambda>body.
     Ok (str ''digraph '' @ name @ str '' {'' @ [10] @
         str ''    node [fontname='' @ [34] @ str ''Arial'' @ [34] @ str ''];'' @ [10] @ body @ str ''}'' @ [10]))"

section \<open>The demonstration\<close>

definition print_byte :: "u8 \<Rightarrow> u8 list" where
  "print_byte b =
     map (\<lambda>i. if (push_bit i (ucast b) :: u32) AND 0x80 \<noteq> 0 then 49 else 48) [0..<8] @
     str '' ('' @ (let d = dec_digits (unat b) in d @ replicate (3 - length d) 32) @ str '' '' @ [b] @ str '') ''"

definition print_arr :: "u8 list \<Rightarrow> nat \<Rightarrow> u8 list result" where
  "print_arr arr arrsize =
     rbind (rfold (\<lambda>i (cnt :: nat, out).
              rbind (aget arr i) (\<lambda>b.
              Ok (cnt + 1, out @ print_byte b @ (if cnt mod 4 = 0 then [10] @ str ''// '' else []))))
              [0..<arrsize] (1, str ''// '')) (\<lambda>(cnt, out). Ok out)"

definition demo_data :: "u8 list" where
  "demo_data = str ''ABCDDFDDDDDDFEEEEE''"

definition demo_main :: "u8 list result" where
  "demo_main =
     (let data_size = of_nat (length demo_data) in
      rbind (huffman_compress (demo_data @ [0]) data_size (replicate 64 0)) (\<lambda>out_data.
      rbind (huffman_inflate out_data data_size (replicate 64 0)) (\<lambda>decompressed_data.
      rbind (strlen decompressed_data) (\<lambda>n.
      rbind (print_arr out_data 64) (\<lambda>dump.
      Ok (str ''// '' @ take n decompressed_data @ [10] @ dump))))))"

section \<open>Properties of the printing\<close>

text \<open>The bits of a byte, most significant first.\<close>

lemma print_byte_bits: "take 8 (print_byte b) = map (\<lambda>i. if bit b (7 - i) then 49 else 48) [0..<8]"
proof -
  have "((push_bit i (ucast b) :: u32) AND 0x80 \<noteq> 0) = bit b (7 - i)" if "i < 8" for i
  proof -
    have e: "(0x80 :: u32) = push_bit 7 1" by simp
    have "((push_bit i (ucast b) :: u32) AND push_bit 7 1 \<noteq> 0) = bit (push_bit i (ucast b) :: u32) 7"
      by (metis and_exp_eq_0_iff_not_bit push_bit_eq_mult mult_1)
    then show ?thesis using that unfolding e by (auto simp: bit_push_bit_iff bit_ucast_iff)
  qed
  then show ?thesis by (simp add: print_byte_def)
qed

lemma print_arr_returns:
  assumes "arrsize \<le> length arr"
  shows "\<exists>out. print_arr arr arrsize = Ok out"
proof -
  let ?body = "\<lambda>i (cnt :: nat, out). rbind (aget arr i) (\<lambda>b.
    Ok (cnt + 1, out @ print_byte b @ (if cnt mod 4 = 0 then [10] @ str ''// '' else [])))"
  have "\<exists>s'. rfold ?body [0..<arrsize] (1, str ''// '') = Ok s' \<and> True"
    by (rule rfold_upt_invariant [where I = "\<lambda>_ _. True"]) (use assms in \<open>auto split: prod.splits\<close>)
  then show ?thesis by (auto simp: print_arr_def)
qed

text \<open>The demonstration program prints the text it has compressed.\<close>

theorem demo_prints_input: "\<exists>dump. demo_main = Ok (str ''// ABCDDFDDDDDDFEEEEE'' @ [10] @ dump)"
proof -
  let ?d = demo_data and ?n = "of_nat (length demo_data) :: u16"
  have d: "?d = [65, 66, 67, 68, 68, 70, 68, 68, 68, 68, 68, 68, 70, 69, 69, 69, 69, 69]"
    by (simp add: demo_data_def str_def)
  have card: "card (set ?d) = 6" unfolding d by (simp add: card_insert_if)
  have len: "length ?d = 18" unfolding d by simp
  have syms: "set ?d \<inter> {0, chr_node, chr_null} = {}" unfolding d by (simp add: chr_node_def chr_null_def)
  then have "?d \<noteq> []" "0 \<notin> set ?d" unfolding d by auto
  then have h: "height (huff_tree ?d) \<le> 9" using few_symbols_depth [of ?d] card by simp
  have n: "unat ?n = length ?d" unfolding len by simp
  obtain z where z: "huffman_compress ?d ?n (replicate 64 0) = Ok z" "length z = 64"
    "huffman_inflate z ?n (replicate 64 0) = Ok (overlay (replicate 64 0) 0 ?d)"
    using round_trip [OF n _ syms _ _ h, of 64 "replicate 64 0"] card len by auto
  obtain dump where dump: "print_arr z 64 = Ok dump" using print_arr_returns [of 64 z] z(2) by auto
  have o: "overlay (replicate 64 0) 0 ?d = ?d @ 0 # replicate 45 0" unfolding d by (simp add: overlay_def numeral_eq_Suc)
  have "strlen (?d @ 0 # replicate 45 0) = Ok (length ?d)" by (rule strlen_at) (use \<open>0 \<notin> set ?d\<close> in simp)
  then have "demo_main = Ok (str ''// '' @ ?d @ [10] @ dump)"
    unfolding demo_main_def Let_def compress_prefix [OF n] z(1) rbind.simps z(3) o using dump by simp
  then show ?thesis by (auto simp: demo_data_def str_def)
qed

end
