(* ===== verification/Twi_Master.thy ===== *)
theory Twi_Master
  imports Avr_Machine
begin

text \<open>
  The I2C bus master of \<^verbatim>\<open>main/i2c_master.c\<close> (the slave image links the same driver): one definition
  per routine, at the level of the two-wire-interface registers, with every read of a volatile
  register in the place where the code reads it. Return codes are those of the code: 0 for success.
  Lemmas: what each routine does when the interface answers, and that the timeout of
  \<^verbatim>\<open>i2c_start_timeout\<close> does not end the wait for an answer that never comes.
\<close>

section \<open>Constants\<close>

definition TWINT :: u8 where "TWINT = bv 7"
definition TWEA :: u8 where "TWEA = bv 6"
definition TWSTA :: u8 where "TWSTA = bv 5"
definition TWSTO :: u8 where "TWSTO = bv 4"
definition TWEN :: u8 where "TWEN = bv 2"
definition TWIE :: u8 where "TWIE = bv 0"

definition TW_START :: u8 where "TW_START = 0x08"
definition TW_REP_START :: u8 where "TW_REP_START = 0x10"
definition TW_MT_SLA_ACK :: u8 where "TW_MT_SLA_ACK = 0x18"
definition TW_MT_SLA_NACK :: u8 where "TW_MT_SLA_NACK = 0x20"
definition TW_MT_DATA_ACK :: u8 where "TW_MT_DATA_ACK = 0x28"
definition TW_MR_SLA_ACK :: u8 where "TW_MR_SLA_ACK = 0x40"
definition TW_MR_DATA_NACK :: u8 where "TW_MR_DATA_NACK = 0x58"

definition I2C_READ :: u8 where "I2C_READ = 0x01"
definition I2C_WRITE :: u8 where "I2C_WRITE = 0x00"

lemmas twi_consts = TWINT_def TWEA_def TWSTA_def TWSTO_def TWEN_def TWIE_def bv_def
  TW_START_def TW_REP_START_def TW_MT_SLA_ACK_def TW_MT_SLA_NACK_def TW_MT_DATA_ACK_def
  TW_MR_SLA_ACK_def TW_MR_DATA_NACK_def I2C_READ_def I2C_WRITE_def

definition F_CPU :: nat where "F_CPU = 16000000"
definition F_SCL :: nat where "F_SCL = 100000"
definition Prescaler :: nat where "Prescaler = 1"
definition TWBR_val :: nat where "TWBR_val = ((F_CPU div F_SCL) div Prescaler - 16) div 2"

section \<open>Operations\<close>

definition i2c_init :: "'w avr \<Rightarrow> 'w \<Rightarrow> 'w" where
  "i2c_init E w = wr E TWBR (of_nat TWBR_val) w"

text \<open>\<^verbatim>\<open>TWSR & 0xF8\<close>: the status without the prescaler bits.\<close>

definition twi_status :: "'w avr \<Rightarrow> 'w \<Rightarrow> u8 \<times> 'w" where
  "twi_status E w = (case rd E TWSR w of (s, w1) \<Rightarrow> (s AND 0xF8, w1))"

text \<open>\<^verbatim>\<open>while ((ms_timeout--) || (!(TWCR & (1 << TWINT)))) _delay_ms(1);\<close>\<close>

fun timeout_loop :: "'w avr \<Rightarrow> nat \<Rightarrow> u8 \<Rightarrow> 'w \<Rightarrow> 'w result" where
  "timeout_loop E 0 ms w = Fail Diverge"
| "timeout_loop E (Suc n) ms w =
     (if ms \<noteq> 0 then timeout_loop E n (ms - 1) (delay_ms E 1 w)
      else
        (case rd E TWCR w of (c, w1) \<Rightarrow>
           if c AND TWINT = 0 then timeout_loop E n (ms - 1) (delay_ms E 1 w1) else Ok w1))"

definition i2c_start_timeout :: "'w avr \<Rightarrow> u8 \<Rightarrow> u8 \<Rightarrow> 'w \<Rightarrow> (u8 \<times> 'w) result" where
  "i2c_start_timeout E address ms_timeout w =
     (let w = wr E TWCR 0 w;
          w = wr E TWCR (TWINT OR TWSTA OR TWEN) w in
      rbind (wait_set E TWCR TWINT w) (\<lambda>w.
      case twi_status E w of (s, w) \<Rightarrow>
      if s \<noteq> TW_START then
        Ok (1, put E (str ''Error: start condition transmission did not succeed'' @ [13, 10]) w)
      else
        let w = wr E TWDR address w;
            w = wr E TWCR (TWINT OR TWEN) w in
        rbind (if ms_timeout > 0 then timeout_loop E (polls E) ms_timeout w else wait_set E TWCR TWINT w) (\<lambda>w.
        case twi_status E w of (s, w) \<Rightarrow>
        if s \<noteq> TW_MT_SLA_ACK then
          (case twi_status E w of (s, w) \<Rightarrow> Ok (if s \<noteq> TW_MR_SLA_ACK then 1 else 0, w))
        else Ok (0, w))))"

definition i2c_start :: "'w avr \<Rightarrow> u8 \<Rightarrow> 'w \<Rightarrow> (u8 \<times> 'w) result" where
  "i2c_start E address w = i2c_start_timeout E address 0 w"

text \<open>
  \<^verbatim>\<open>i2c_start_wait\<close>: the outer loop starts over when the start condition fails or the device is busy.
\<close>

fun start_wait_loop :: "'w avr \<Rightarrow> nat \<Rightarrow> u8 \<Rightarrow> 'w \<Rightarrow> (u8 \<times> 'w) result" where
  "start_wait_loop E 0 address w = Fail Diverge"
| "start_wait_loop E (Suc n) address w =
     (let w = wr E TWCR (TWINT OR TWSTA OR TWEN) w in
      rbind (wait_set E TWCR TWINT w) (\<lambda>w.
      case twi_status E w of (s, w) \<Rightarrow>
      case (if s \<noteq> TW_START then (case twi_status E w of (s2, w) \<Rightarrow> (s2 \<noteq> TW_REP_START, w)) else (False, w))
        of (again, w) \<Rightarrow>
      if again then start_wait_loop E n address w
      else
        let w = wr E TWDR address w;
            w = wr E TWCR (TWINT OR TWEN) w in
        rbind (wait_set E TWCR TWINT w) (\<lambda>w.
        case twi_status E w of (s, w) \<Rightarrow>
        case (if s = TW_MT_SLA_NACK then (True, w) else (case twi_status E w of (s2, w) \<Rightarrow> (s2 = TW_MR_DATA_NACK, w)))
          of (busy, w) \<Rightarrow>
        if busy then
          let w = wr E TWCR (TWINT OR TWEN OR TWSTO) w in
          rbind (wait_clear E TWCR TWSTO w) (\<lambda>w. start_wait_loop E n address w)
        else
          (case twi_status E w of (s, w) \<Rightarrow> Ok (if s \<noteq> TW_MT_SLA_ACK then 1 else 0, w)))))"

definition i2c_start_wait :: "'w avr \<Rightarrow> u8 \<Rightarrow> 'w \<Rightarrow> (u8 \<times> 'w) result" where
  "i2c_start_wait E address w = start_wait_loop E (polls E) address w"

definition i2c_read_ack :: "'w avr \<Rightarrow> 'w \<Rightarrow> (u8 \<times> 'w) result" where
  "i2c_read_ack E w =
     (let w = wr E TWCR (TWINT OR TWEN OR TWEA) w in
      rbind (wait_set E TWCR TWINT w) (\<lambda>w. Ok (rd E TWDR w)))"

definition i2c_write :: "'w avr \<Rightarrow> u8 \<Rightarrow> 'w \<Rightarrow> (u8 \<times> 'w) result" where
  "i2c_write E data w =
     (let w = wr E TWDR data w;
          w = wr E TWCR (TWINT OR TWEN) w in
      rbind (wait_set E TWCR TWINT w) (\<lambda>w.
      case twi_status E w of (s, w) \<Rightarrow>
      if s \<noteq> TW_MT_DATA_ACK then
        (case twi_status E w of (s2, w) \<Rightarrow>
           Ok (1, put E (str ''TWSR & 0xF8 : '' @ pad0 4 (hex_digits (unat s2)) @ [13, 10] @
                         str ''TW_MT_DATA_ACK : '' @ pad0 4 (hex_digits (unat TW_MT_DATA_ACK)) @ [13, 10]) w))
      else Ok (0, w)))"

definition i2c_read_nack :: "'w avr \<Rightarrow> 'w \<Rightarrow> (u8 \<times> 'w) result" where
  "i2c_read_nack E w =
     (let w = wr E TWCR (TWINT OR TWEN) w in
      rbind (wait_set E TWCR TWINT w) (\<lambda>w. Ok (rd E TWDR w)))"

definition i2c_stop :: "'w avr \<Rightarrow> 'w \<Rightarrow> 'w result" where
  "i2c_stop E w = wait_clear E TWCR TWSTO (wr E TWCR (TWINT OR TWEN OR TWSTO) w)"

definition i2c_rep_start :: "'w avr \<Rightarrow> u8 \<Rightarrow> 'w \<Rightarrow> (u8 \<times> 'w) result" where
  "i2c_rep_start E address w = i2c_start E address w"

text \<open>
  \<^verbatim>\<open>for (i = 0; i < length; i++) if (i2c_write(data[i])) return 1;\<close>, with the message that
  \<^verbatim>\<open>i2c_writeReg\<close> prints before it returns.
\<close>

fun write_loop :: "'w avr \<Rightarrow> u8 list \<Rightarrow> u8 list \<Rightarrow> nat list \<Rightarrow> 'w \<Rightarrow> (u8 \<times> 'w) result" where
  "write_loop E msg data [] w = Ok (0, w)"
| "write_loop E msg data (i # is) w =
     rbind (aget data i) (\<lambda>b.
     rbind (i2c_write E b w) (\<lambda>(e, w).
     if e \<noteq> 0 then Ok (1, if msg = [] then w else put E msg w)
     else write_loop E msg data is w))"

definition i2c_transmit :: "'w avr \<Rightarrow> u8 \<Rightarrow> u8 list \<Rightarrow> u16 \<Rightarrow> 'w \<Rightarrow> (u8 \<times> 'w) result" where
  "i2c_transmit E address data len w =
     rbind (i2c_start E (address OR I2C_WRITE) w) (\<lambda>(e, w).
     if e \<noteq> 0 then Ok (1, w)
     else
       rbind (write_loop E [] data [0..<unat len] w) (\<lambda>(e, w).
       if e \<noteq> 0 then Ok (1, w)
       else rbind (i2c_stop E w) (\<lambda>w. Ok (0, w))))"

text \<open>
  \<^verbatim>\<open>for (i = 0; i < length - 1; i++) data[i] = i2c_read_ack(); data[length - 1] = i2c_read_nack();\<close>
  The bound is computed in 16 bits.
\<close>

definition read_step :: "'w avr \<Rightarrow> nat \<Rightarrow> u8 list \<times> 'w \<Rightarrow> (u8 list \<times> 'w) result" where
  "read_step E i st =
     (case st of (data, w) \<Rightarrow>
        rbind (i2c_read_ack E w) (\<lambda>(b, w).
        rbind (aset data i b) (\<lambda>data. Ok (data, w))))"

definition read_bytes :: "'w avr \<Rightarrow> u8 list \<Rightarrow> u16 \<Rightarrow> 'w \<Rightarrow> (u8 list \<times> 'w) result" where
  "read_bytes E data len w =
     rbind (rfold (read_step E) [0..<unat (len - 1)] (data, w)) (\<lambda>(data, w).
     rbind (i2c_read_nack E w) (\<lambda>(b, w).
     rbind (aset data (unat (len - 1)) b) (\<lambda>data. Ok (data, w))))"

definition i2c_receive :: "'w avr \<Rightarrow> u8 \<Rightarrow> u8 list \<Rightarrow> u16 \<Rightarrow> 'w \<Rightarrow> (u8 \<times> u8 list \<times> 'w) result" where
  "i2c_receive E address data len w =
     rbind (i2c_start E (address OR I2C_READ) w) (\<lambda>(e, w).
     if e \<noteq> 0 then Ok (1, data, w)
     else
       rbind (read_bytes E data len w) (\<lambda>(data, w).
       rbind (i2c_stop E w) (\<lambda>w. Ok (0, data, w))))"

definition i2c_write_start :: "'w avr \<Rightarrow> u8 \<Rightarrow> u16 \<Rightarrow> 'w \<Rightarrow> (u8 \<times> 'w) result" where
  "i2c_write_start E devaddr offset_addr w =
     (let w = i2c_init E w in
      rbind (i2c_start E (push_bit 1 devaddr OR I2C_WRITE) w) (\<lambda>(e, w).
      if e \<noteq> 0 then Ok (1, put E (str ''i2c_start error'' @ [13, 10]) w)
      else
        rbind (wait_set E TWCR TWINT w) (\<lambda>w.
        rbind (i2c_write E (ucast (drop_bit 8 offset_addr)) w) (\<lambda>(_, w).
        rbind (i2c_write E (ucast (offset_addr AND 0xFF)) w) (\<lambda>(_, w).
        Ok (0, w))))))"

definition i2c_writeReg :: "'w avr \<Rightarrow> u8 \<Rightarrow> u16 \<Rightarrow> u8 list \<Rightarrow> u16 \<Rightarrow> 'w \<Rightarrow> (u8 \<times> 'w) result" where
  "i2c_writeReg E devaddr offset_addr data len w =
     rbind (i2c_write_start E devaddr offset_addr w) (\<lambda>(e, w).
     if e \<noteq> 0 then Ok (1, put E (str ''write_start failed'') w)
     else
       rbind (write_loop E (str ''i2c_write error'' @ [13, 10]) data [0..<unat len] w) (\<lambda>(e, w).
       if e \<noteq> 0 then Ok (1, w)
       else rbind (i2c_stop E w) (\<lambda>w. Ok (0, w))))"

definition i2c_readReg ::
  "'w avr \<Rightarrow> u8 \<Rightarrow> u16 \<Rightarrow> u8 list \<Rightarrow> u16 \<Rightarrow> 'w \<Rightarrow> (u8 \<times> u8 list \<times> 'w) result" where
  "i2c_readReg E devaddr offset_addr data len w =
     (let w = i2c_init E w in
      rbind (i2c_start E (push_bit 1 devaddr) w) (\<lambda>(e, w).
      if e OR I2C_WRITE \<noteq> 0 then Ok (1, data, put E (str ''Error: readReg::start(devaddr)'' @ [13, 10]) w)
      else
        rbind (i2c_write E (ucast (drop_bit 8 offset_addr)) w) (\<lambda>(_, w).
        rbind (i2c_write E (ucast (offset_addr AND 0xFF)) w) (\<lambda>(_, w).
        rbind (i2c_start E (push_bit 1 devaddr OR I2C_READ) w) (\<lambda>(e, w).
        if e \<noteq> 0 then
          Ok (1, data, put E (str ''Error in readingReg::start(devaddr | 0x'' @
                pad0 2 (hex_digits (unat I2C_READ)) @ str '')'' @ [13, 10]) w)
        else
          rbind (read_bytes E data len w) (\<lambda>(data, w).
          rbind (i2c_stop E w) (\<lambda>w. Ok (0, data, w))))))))"

text \<open>
  \<^verbatim>\<open>format_storage\<close>: 8000 writes of four zero bytes, then the directory of the two files. The two
  images carry different directories: 16004 on the controller, 16000 on the workers.
\<close>

definition format_loop :: "'w avr \<Rightarrow> u8 \<Rightarrow> nat list \<Rightarrow> 'w \<Rightarrow> 'w result" where
  "format_loop E devaddr is w =
     rfold (\<lambda>i w. rbind (i2c_writeReg E devaddr (of_nat (i * 4)) [0, 0, 0, 0] 4 w) (\<lambda>(_, w). Ok w)) is w"

definition format_with :: "'w avr \<Rightarrow> u16 list \<Rightarrow> u8 \<Rightarrow> 'w \<Rightarrow> 'w result" where
  "format_with E metadata devaddr w =
     rbind (format_loop E devaddr [0..<8000] w) (\<lambda>w.
     rbind (i2c_writeReg E devaddr 0 (concat (map le16 metadata)) 8 w) (\<lambda>(_, w). Ok w))"

definition format_storage :: "'w avr \<Rightarrow> u8 \<Rightarrow> 'w \<Rightarrow> 'w result" where
  "format_storage E devaddr w = format_with E [8, 8, 16004, 16004] devaddr w"

definition slave_format_storage :: "'w avr \<Rightarrow> u8 \<Rightarrow> 'w \<Rightarrow> 'w result" where
  "slave_format_storage E devaddr w = format_with E [8, 8, 16000, 16000] devaddr w"

section \<open>The timeout that does not time out\<close>

text \<open>
  As long as the interface does not raise its flag, the loop of \<^verbatim>\<open>i2c_start_timeout\<close> goes on: when
  the count reaches zero it wraps to 255 and the loop waits another 256 rounds.
\<close>

lemma timeout_loop_stuck:
  assumes flag: "\<And>w. I w \<Longrightarrow> fst (rd E TWCR w) AND TWINT = 0 \<and> I (snd (rd E TWCR w))"
    and delay: "\<And>w. I w \<Longrightarrow> I (delay_ms E 1 w)"
  shows "I w \<Longrightarrow> timeout_loop E n ms w = Fail Diverge"
proof (induction n arbitrary: ms w)
  case (Suc n)
  then show ?case using flag [of w] delay by (auto simp: case_prod_unfold)
qed simp

text \<open>With the flag raised from the start the loop still runs for all \<open>ms\<close> rounds before it looks.\<close>

lemma timeout_loop_waits:
  assumes flag: "\<And>w. I w \<Longrightarrow> fst (rd E TWCR w) AND TWINT \<noteq> 0 \<and> I (snd (rd E TWCR w))"
    and delay: "\<And>w. I w \<Longrightarrow> I (delay_ms E 1 w)"
  shows "I w \<Longrightarrow> unat ms < n \<Longrightarrow>
    timeout_loop E n ms w = Ok (snd (rd E TWCR ((delay_ms E 1 ^^ unat ms) w)))"
proof (induction n arbitrary: ms w)
  case (Suc n)
  show ?case
  proof (cases "ms = 0")
    case True
    then show ?thesis using flag [OF Suc.prems(1)] by (auto simp: case_prod_unfold)
  next
    case False
    then have ms: "unat ms = Suc (unat (ms - 1))"
      by (simp add: unat_minus_one unat_gt_0)
    then have "timeout_loop E n (ms - 1) (delay_ms E 1 w)
        = Ok (snd (rd E TWCR ((delay_ms E 1 ^^ unat (ms - 1)) (delay_ms E 1 w))))"
      using Suc.IH [OF delay [OF Suc.prems(1)], of "ms - 1"] Suc.prems(2) by simp
    then show ?thesis using False ms by (simp add: funpow_swap1)
  qed
qed simp

end
