(* ===== verification/Fram.thy ===== *)
theory Fram
  imports Twi_Master
begin

text \<open>
  The storage chip behind the bus. The chip and the two-wire interface are hardware: \<open>fram_bus\<close>
  states what their data sheets promise about one transfer (start, address, data byte, stop), in
  terms of a view of the outside world that shows the state of the transfer and the cells of the
  chip. From it follow the contracts of \<^verbatim>\<open>i2c_writeReg\<close>, \<^verbatim>\<open>i2c_readReg\<close> and \<^verbatim>\<open>format_storage\<close>.
  \<open>sim_avr\<close> is a concrete machine for which the promise holds.
\<close>

section \<open>What the hardware promises\<close>

datatype phase = Idle | Started | Addr_Hi | Addr_Lo | Writing | Reading

record bus =
  phase :: phase
  bptr :: nat
  cells :: "nat \<Rightarrow> u8"

definition bus_write :: "u8 \<Rightarrow> 'a bus_scheme \<Rightarrow> 'a bus_scheme" where
  "bus_write b v =
     (case phase v of
        Addr_Hi \<Rightarrow> v\<lparr>phase := Addr_Lo, bptr := 256 * unat b\<rparr>
      | Addr_Lo \<Rightarrow> v\<lparr>phase := Writing, bptr := bptr v + unat b\<rparr>
      | _ \<Rightarrow> v\<lparr>bptr := Suc (bptr v), cells := (cells v)(bptr v := b)\<rparr>)"

text \<open>Status and data registers can be read without effect; the bit-rate register leaves the bus alone.\<close>

definition quiet_reads :: "'w avr \<Rightarrow> ('w \<Rightarrow> 'a bus_scheme) \<Rightarrow> bool" where
  "quiet_reads E V \<longleftrightarrow>
     (\<forall>w. snd (rd E TWSR w) = w \<and> snd (rd E TWDR w) = w) \<and>
     (\<forall>w b. V (wr E TWBR b w) = V w)"

text \<open>A start condition is transmitted.\<close>

definition start_sent :: "'w avr \<Rightarrow> ('w \<Rightarrow> 'a bus_scheme) \<Rightarrow> bool" where
  "start_sent E V \<longleftrightarrow>
     (\<forall>w. \<exists>w'. wait_set E TWCR TWINT (wr E TWCR (TWINT OR TWSTA OR TWEN) (wr E TWCR 0 w)) = Ok w' \<and>
        fst (twi_status E w') = TW_START \<and> V w' = (V w)\<lparr>phase := Started\<rparr>)"

text \<open>The chip acknowledges its address, for writing and for reading.\<close>

definition address_acked :: "'w avr \<Rightarrow> ('w \<Rightarrow> 'a bus_scheme) \<Rightarrow> u8 \<Rightarrow> u8 \<Rightarrow> phase \<Rightarrow> bool" where
  "address_acked E V a s p \<longleftrightarrow>
     (\<forall>w. phase (V w) = Started \<longrightarrow>
        (\<exists>w'. wait_set E TWCR TWINT (wr E TWCR (TWINT OR TWEN) (wr E TWDR a w)) = Ok w' \<and>
           fst (twi_status E w') = s \<and> V w' = (V w)\<lparr>phase := p\<rparr>))"

text \<open>The flag stays up until the next byte is started.\<close>

definition flag_kept :: "'w avr \<Rightarrow> ('w \<Rightarrow> 'a bus_scheme) \<Rightarrow> bool" where
  "flag_kept E V \<longleftrightarrow> (\<forall>w. phase (V w) = Addr_Hi \<longrightarrow> (\<exists>w'. wait_set E TWCR TWINT w = Ok w' \<and> V w' = V w))"

text \<open>A byte written: the two halves of the cell address, then data.\<close>

definition can_write :: "nat \<Rightarrow> 'a bus_scheme \<Rightarrow> bool" where
  "can_write cap v \<longleftrightarrow> phase v = Addr_Hi \<or> phase v = Addr_Lo \<or> phase v = Writing \<and> bptr v < cap"

definition byte_written :: "'w avr \<Rightarrow> ('w \<Rightarrow> 'a bus_scheme) \<Rightarrow> nat \<Rightarrow> bool" where
  "byte_written E V cap \<longleftrightarrow>
     (\<forall>w b. can_write cap (V w) \<longrightarrow>
        (\<exists>w'. wait_set E TWCR TWINT (wr E TWCR (TWINT OR TWEN) (wr E TWDR b w)) = Ok w' \<and>
           fst (twi_status E w') = TW_MT_DATA_ACK \<and> V w' = bus_write b (V w)))"

text \<open>A byte read, acknowledged or not.\<close>

definition byte_read :: "'w avr \<Rightarrow> ('w \<Rightarrow> 'a bus_scheme) \<Rightarrow> nat \<Rightarrow> u8 \<Rightarrow> bool" where
  "byte_read E V cap c \<longleftrightarrow>
     (\<forall>w. phase (V w) = Reading \<longrightarrow> bptr (V w) < cap \<longrightarrow>
        (\<exists>w'. wait_set E TWCR TWINT (wr E TWCR c w) = Ok w' \<and>
           fst (rd E TWDR w') = cells (V w) (bptr (V w)) \<and> V w' = (V w)\<lparr>bptr := Suc (bptr (V w))\<rparr>))"

text \<open>The stop condition is executed.\<close>

definition stop_sent :: "'w avr \<Rightarrow> ('w \<Rightarrow> 'a bus_scheme) \<Rightarrow> bool" where
  "stop_sent E V \<longleftrightarrow>
     (\<forall>w. \<exists>w'. wait_clear E TWCR TWSTO (wr E TWCR (TWINT OR TWEN OR TWSTO) w) = Ok w' \<and>
        V w' = (V w)\<lparr>phase := Idle\<rparr>)"

definition fram_bus :: "'w avr \<Rightarrow> ('w \<Rightarrow> 'a bus_scheme) \<Rightarrow> u8 \<Rightarrow> nat \<Rightarrow> bool" where
  "fram_bus E V dev cap \<longleftrightarrow>
     quiet_reads E V \<and> start_sent E V \<and>
     address_acked E V (push_bit 1 dev) TW_MT_SLA_ACK Addr_Hi \<and>
     address_acked E V (push_bit 1 dev OR 1) TW_MR_SLA_ACK Reading \<and>
     flag_kept E V \<and> byte_written E V cap \<and>
     byte_read E V cap (TWINT OR TWEN OR TWEA) \<and> byte_read E V cap (TWINT OR TWEN) \<and> stop_sent E V"

lemma fram_bus_reads:
  assumes "fram_bus E V dev cap"
  shows "twi_status E w = (fst (twi_status E w), w)" "rd E TWDR w = (fst (rd E TWDR w), w)"
    "V (i2c_init E w) = V w"
proof -
  have "snd (rd E TWSR w) = w" "snd (rd E TWDR w) = w" "V (wr E TWBR (of_nat TWBR_val) w) = V w"
    using assms by (simp_all add: fram_bus_def quiet_reads_def)
  then show "twi_status E w = (fst (twi_status E w), w)" "rd E TWDR w = (fst (rd E TWDR w), w)"
    "V (i2c_init E w) = V w"
    by (simp_all add: twi_status_def i2c_init_def prod_eq_iff case_prod_unfold)
qed

lemma fram_bus_start:
  assumes "fram_bus E V dev cap"
  obtains w' where "wait_set E TWCR TWINT (wr E TWCR (TWINT OR TWSTA OR TWEN) (wr E TWCR 0 w)) = Ok w'"
    and "fst (twi_status E w') = TW_START" and "V w' = (V w)\<lparr>phase := Started\<rparr>"
  using assms unfolding fram_bus_def start_sent_def by blast

lemma address_ackedD:
  assumes "address_acked E V a s p" and "phase (V w) = Started"
  obtains w' where "wait_set E TWCR TWINT (wr E TWCR (TWINT OR TWEN) (wr E TWDR a w)) = Ok w'"
    and "fst (twi_status E w') = s" and "V w' = (V w)\<lparr>phase := p\<rparr>"
  using assms unfolding address_acked_def by blast

lemma fram_bus_flag:
  assumes "fram_bus E V dev cap" and "phase (V w) = Addr_Hi"
  obtains w' where "wait_set E TWCR TWINT w = Ok w'" and "V w' = V w"
  using assms unfolding fram_bus_def flag_kept_def by blast

lemma fram_bus_byte_out:
  assumes "fram_bus E V dev cap" and "can_write cap (V w)"
  obtains w' where "wait_set E TWCR TWINT (wr E TWCR (TWINT OR TWEN) (wr E TWDR b w)) = Ok w'"
    and "fst (twi_status E w') = TW_MT_DATA_ACK" and "V w' = bus_write b (V w)"
  using assms unfolding fram_bus_def byte_written_def by blast

lemma byte_readD:
  assumes "byte_read E V cap c" and "phase (V w) = Reading" and "bptr (V w) < cap"
  obtains w' where "wait_set E TWCR TWINT (wr E TWCR c w) = Ok w'"
    and "fst (rd E TWDR w') = cells (V w) (bptr (V w))" and "V w' = (V w)\<lparr>bptr := Suc (bptr (V w))\<rparr>"
  using assms unfolding byte_read_def by blast

lemma fram_bus_stop:
  assumes "fram_bus E V dev cap"
  obtains w' where "i2c_stop E w = Ok w'" and "V w' = (V w)\<lparr>phase := Idle\<rparr>"
  using assms unfolding fram_bus_def stop_sent_def i2c_stop_def by blast

section \<open>Single transfers\<close>

lemma i2c_start_acked:
  assumes F: "fram_bus E V dev cap" and A: "address_acked E V a s p" and s: "s = TW_MT_SLA_ACK \<or> s = TW_MR_SLA_ACK"
  obtains w' where "i2c_start E a w = Ok (0, w')" and "V w' = (V w)\<lparr>phase := p\<rparr>"
proof -
  obtain w1 where w1: "wait_set E TWCR TWINT (wr E TWCR (TWINT OR TWSTA OR TWEN) (wr E TWCR 0 w)) = Ok w1"
    "fst (twi_status E w1) = TW_START" "V w1 = (V w)\<lparr>phase := Started\<rparr>" by (rule fram_bus_start [OF F])
  have "phase (V w1) = Started" using w1(3) by simp
  with A obtain u where u: "wait_set E TWCR TWINT (wr E TWCR (TWINT OR TWEN) (wr E TWDR a w1)) = Ok u"
    "fst (twi_status E u) = s" "V u = (V w1)\<lparr>phase := p\<rparr>" by (rule address_ackedD)
  have "twi_status E w1 = (TW_START, w1)" "twi_status E u = (s, u)"
    using fram_bus_reads(1) [OF F] w1(2) u(2) by metis+
  then have "i2c_start E a w = Ok (0, u)"
    unfolding i2c_start_def i2c_start_timeout_def Let_def using w1(1) u(1) s by auto
  moreover have "V u = (V w)\<lparr>phase := p\<rparr>" using u(3) w1(3) by simp
  ultimately show thesis by (rule that)
qed

lemma i2c_start_fram:
  assumes F: "fram_bus E V dev cap"
  obtains w1 w2 where "i2c_start E (push_bit 1 dev) w = Ok (0, w1)" and "V w1 = (V w)\<lparr>phase := Addr_Hi\<rparr>"
    and "i2c_start E (push_bit 1 dev OR 1) w = Ok (0, w2)" and "V w2 = (V w)\<lparr>phase := Reading\<rparr>"
proof -
  have "address_acked E V (push_bit 1 dev) TW_MT_SLA_ACK Addr_Hi"
    and "address_acked E V (push_bit 1 dev OR 1) TW_MR_SLA_ACK Reading"
    using F by (simp_all add: fram_bus_def)
  with F that show thesis by (metis i2c_start_acked)
qed

lemma i2c_write_fram:
  assumes F: "fram_bus E V dev cap" and p: "can_write cap (V w)"
  obtains w' where "i2c_write E b w = Ok (0, w')" and "V w' = bus_write b (V w)"
proof -
  obtain w' where w': "wait_set E TWCR TWINT (wr E TWCR (TWINT OR TWEN) (wr E TWDR b w)) = Ok w'"
    "fst (twi_status E w') = TW_MT_DATA_ACK" "V w' = bus_write b (V w)"
    by (rule fram_bus_byte_out [OF F p])
  have "twi_status E w' = (TW_MT_DATA_ACK, w')" using fram_bus_reads(1) [OF F] w'(2) by metis
  then have "i2c_write E b w = Ok (0, w')"
    unfolding i2c_write_def Let_def using w'(1) by simp
  then show thesis using w'(3) by (rule that)
qed

lemma i2c_read_fram:
  assumes F: "fram_bus E V dev cap" and p: "phase (V w) = Reading" "bptr (V w) < cap"
  obtains w1 w2 where "i2c_read_ack E w = Ok (cells (V w) (bptr (V w)), w1)" and "V w1 = (V w)\<lparr>bptr := Suc (bptr (V w))\<rparr>"
    and "i2c_read_nack E w = Ok (cells (V w) (bptr (V w)), w2)" and "V w2 = (V w)\<lparr>bptr := Suc (bptr (V w))\<rparr>"
proof -
  have R: "byte_read E V cap (TWINT OR TWEN OR TWEA)" "byte_read E V cap (TWINT OR TWEN)"
    using F by (simp_all add: fram_bus_def)
  obtain w1 where w1: "wait_set E TWCR TWINT (wr E TWCR (TWINT OR TWEN OR TWEA) w) = Ok w1"
    "fst (rd E TWDR w1) = cells (V w) (bptr (V w))" "V w1 = (V w)\<lparr>bptr := Suc (bptr (V w))\<rparr>"
    by (rule byte_readD [OF R(1) p])
  obtain w2 where w2: "wait_set E TWCR TWINT (wr E TWCR (TWINT OR TWEN) w) = Ok w2"
    "fst (rd E TWDR w2) = cells (V w) (bptr (V w))" "V w2 = (V w)\<lparr>bptr := Suc (bptr (V w))\<rparr>"
    by (rule byte_readD [OF R(2) p])
  show thesis
    by (rule that [of w1 w2])
      (use w1 w2 fram_bus_reads(2) [OF F, of w1] fram_bus_reads(2) [OF F, of w2] in
        \<open>auto simp: i2c_read_ack_def i2c_read_nack_def Let_def\<close>)
qed

section \<open>Blocks\<close>

text \<open>\<open>store m a bs\<close>: the cells with the bytes \<open>bs\<close> written from address \<open>a\<close> on.\<close>

definition store :: "(nat \<Rightarrow> u8) \<Rightarrow> nat \<Rightarrow> u8 list \<Rightarrow> nat \<Rightarrow> u8" where
  "store m a bs = (\<lambda>i. if a \<le> i \<and> i < a + length bs then bs ! (i - a) else m i)"

definition fetch :: "(nat \<Rightarrow> u8) \<Rightarrow> nat \<Rightarrow> nat \<Rightarrow> u8 list" where
  "fetch m a n = map m [a..<a + n]"

lemma store_Nil [simp]: "store m a [] = m"
  by (auto simp: store_def fun_eq_iff)

lemma store_snoc: "store m a (bs @ [b]) = (store m a bs)(a + length bs := b)"
  by (auto simp: store_def fun_eq_iff nth_append)

lemma store_append: "store m a (xs @ ys) = store (store m a xs) (a + length xs) ys"
  by (auto simp: store_def fun_eq_iff nth_append)

lemma length_fetch [simp]: "length (fetch m a n) = n"
  by (simp add: fetch_def)

lemma fetch_0 [simp]: "fetch m a 0 = []"
  by (simp add: fetch_def)

lemma fetch_Suc: "fetch m a (Suc n) = fetch m a n @ [m (a + n)]"
  by (simp add: fetch_def)

lemma fetch_append: "fetch m a (j + k) = fetch m a j @ fetch m (a + j) k"
  using upt_add_eq_append [of a "a + j" k] by (simp add: fetch_def add.assoc)

lemma fetch_store: "fetch (store m a bs) a (length bs) = bs"
  by (rule nth_equalityI) (simp_all add: fetch_def store_def)

lemma fetch_cong: "(\<And>i. a \<le> i \<Longrightarrow> i < a + n \<Longrightarrow> m i = m' i) \<Longrightarrow> fetch m a n = fetch m' a n"
  by (simp add: fetch_def)

lemma store_other: "i < a \<or> a + length bs \<le> i \<Longrightarrow> store m a bs i = m i"
  by (auto simp: store_def)

lemma fetch_store_other: "b + n \<le> a \<or> a + length bs \<le> b \<Longrightarrow> fetch (store m a bs) b n = fetch m b n"
  by (rule fetch_cong) (auto simp: store_def)

lemma write_loop_fram:
  assumes F: "fram_bus E V dev cap" and p: "phase (V w) = Writing" "bptr (V w) + n \<le> cap" and n: "n \<le> length data"
  shows "\<exists>w'. write_loop E msg data [0..<n] w = Ok (0, w') \<and>
           V w' = (V w)\<lparr>bptr := bptr (V w) + n, cells := store (cells (V w)) (bptr (V w)) (take n data)\<rparr>"
proof -
  have split: "write_loop E msg data (is @ js) u =
      rbind (write_loop E msg data is u) (\<lambda>(e, u). if e \<noteq> 0 then Ok (e, u) else write_loop E msg data js u)" for "is" js u
  proof (induction "is" arbitrary: u)
    case (Cons i "is")
    then show ?case
      by (cases "aget data i"; simp) (auto simp: rbind_assoc case_prod_unfold intro!: rbind_cong)
  qed simp
  show ?thesis
    using p(2) n
  proof (induction n)
    case 0
    then show ?case using p(1) by simp
  next
    case (Suc n)
    then obtain w1 where w1: "write_loop E msg data [0..<n] w = Ok (0, w1)"
      "V w1 = (V w)\<lparr>bptr := bptr (V w) + n, cells := store (cells (V w)) (bptr (V w)) (take n data)\<rparr>" by auto
    have "can_write cap (V w1)" using w1(2) p(1) Suc.prems(1) by (simp add: can_write_def)
    then obtain w2 where "i2c_write E (data ! n) w1 = Ok (0, w2)" "V w2 = bus_write (data ! n) (V w1)"
      using i2c_write_fram [OF F, of w1 "data ! n"] by blast
    then show ?case
      using w1 Suc.prems(2) p(1) by (simp add: split bus_write_def take_Suc_conv_app_nth store_snoc fun_upd_def)
  qed
qed

text \<open>The cell address in two bytes.\<close>

lemma offset_bytes: "256 * unat (ucast (drop_bit 8 off) :: u8) + unat (ucast (off AND 0xFF) :: u8) = unat (off :: u16)"
proof -
  have "unat (ucast (drop_bit 8 off) :: u8) = unat off div 256"
  proof -
    have "unat off < 2 ^ 16" using unsigned_less [of off, where ?'a = nat] by simp
    then have "unat off div 256 < 256" by simp
    then show ?thesis by (simp add: drop_bit_eq_div unsigned_ucast_eq take_bit_eq_mod unat_div)
  qed
  moreover have "unat (ucast (off AND 0xFF) :: u8) = unat off mod 256"
  proof -
    have ff: "(0xFF :: u16) = mask 8" by (simp add: mask_eq_exp_minus_1)
    show ?thesis unfolding ff by (simp add: unsigned_ucast_eq unsigned_and_eq take_bit_eq_mod unat_mod flip: take_bit_eq_mask)
  qed
  ultimately show ?thesis by simp
qed

lemma select_cell:
  assumes F: "fram_bus E V dev cap" and w: "phase (V w) = Addr_Hi"
  obtains w1 w2 where "i2c_write E (ucast (drop_bit 8 off)) w = Ok (0, w1)"
    and "i2c_write E (ucast (off AND 0xFF)) w1 = Ok (0, w2)"
    and "V w2 = (V w)\<lparr>phase := Writing, bptr := unat (off :: u16)\<rparr>"
proof -
  have "can_write cap (V w)" using w by (simp add: can_write_def)
  from i2c_write_fram [OF F this] obtain w1 where w1: "i2c_write E (ucast (drop_bit 8 off)) w = Ok (0, w1)"
    "V w1 = bus_write (ucast (drop_bit 8 off)) (V w)" .
  then have "can_write cap (V w1)" using w by (simp add: can_write_def bus_write_def)
  from i2c_write_fram [OF F this] obtain w2 where w2: "i2c_write E (ucast (off AND 0xFF)) w1 = Ok (0, w2)"
    "V w2 = bus_write (ucast (off AND 0xFF)) (V w1)" .
  have "V w2 = (V w)\<lparr>phase := Writing, bptr := unat off\<rparr>"
    using w w1(2) w2(2) offset_bytes [of off] by (simp add: bus_write_def)
  with w1(1) w2(1) show thesis by (rule that)
qed

lemma i2c_write_start_fram:
  assumes F: "fram_bus E V dev cap"
  obtains w' where "i2c_write_start E dev off w = Ok (0, w')"
    and "V w' = (V w)\<lparr>phase := Writing, bptr := unat off\<rparr>"
proof -
  let ?w = "i2c_init E w"
  obtain w1 where w1: "i2c_start E (push_bit 1 dev) ?w = Ok (0, w1)" "V w1 = (V ?w)\<lparr>phase := Addr_Hi\<rparr>"
    by (rule i2c_start_fram [OF F])
  then have "phase (V w1) = Addr_Hi" by simp
  from fram_bus_flag [OF F this] obtain w2 where w2: "wait_set E TWCR TWINT w1 = Ok w2" "V w2 = V w1" .
  then have "phase (V w2) = Addr_Hi" using w1(2) by simp
  from select_cell [OF F this, of off] obtain u1 u2 where
    u: "i2c_write E (ucast (drop_bit 8 off)) w2 = Ok (0, u1)" "i2c_write E (ucast (off AND 0xFF)) u1 = Ok (0, u2)"
    "V u2 = (V w2)\<lparr>phase := Writing, bptr := unat off\<rparr>" .
  have "i2c_write_start E dev off w = Ok (0, u2)"
    unfolding i2c_write_start_def Let_def using w1(1) w2(1) u(1,2) by (simp add: I2C_WRITE_def)
  moreover have "V u2 = (V w)\<lparr>phase := Writing, bptr := unat off\<rparr>"
    using u(3) w2(2) w1(2) fram_bus_reads(3) [OF F, of w] by simp
  ultimately show thesis by (rule that)
qed

text \<open>Writing stores the bytes from the given cell on, and nothing else.\<close>

lemma i2c_writeReg_view:
  assumes F: "fram_bus E V dev cap" and len: "unat len \<le> length data" and cap: "unat off + unat len \<le> cap"
  obtains w' where "i2c_writeReg E dev off data len w = Ok (0, w')"
    and "V w' = (V w)\<lparr>phase := Idle, bptr := unat off + unat len,
                      cells := store (cells (V w)) (unat off) (take (unat len) data)\<rparr>"
proof -
  obtain w1 where w1: "i2c_write_start E dev off w = Ok (0, w1)" "V w1 = (V w)\<lparr>phase := Writing, bptr := unat off\<rparr>"
    by (rule i2c_write_start_fram [OF F])
  have p: "phase (V w1) = Writing" "bptr (V w1) + unat len \<le> cap" using w1(2) cap by simp_all
  obtain w2 where w2: "write_loop E (str ''i2c_write error'' @ [13, 10]) data [0..<unat len] w1 = Ok (0, w2)"
    "V w2 = (V w1)\<lparr>bptr := bptr (V w1) + unat len, cells := store (cells (V w1)) (bptr (V w1)) (take (unat len) data)\<rparr>"
    using write_loop_fram [OF F p len] by blast
  obtain w3 where w3: "i2c_stop E w2 = Ok w3" "V w3 = (V w2)\<lparr>phase := Idle\<rparr>" by (rule fram_bus_stop [OF F])
  have "i2c_writeReg E dev off data len w = Ok (0, w3)"
    unfolding i2c_writeReg_def using w1(1) w2(1) w3(1) by simp
  moreover have "V w3 = (V w)\<lparr>phase := Idle, bptr := unat off + unat len,
                      cells := store (cells (V w)) (unat off) (take (unat len) data)\<rparr>"
    using w3(2) w2(2) w1(2) by simp
  ultimately show thesis by (rule that)
qed

lemma i2c_writeReg_fram:
  assumes "fram_bus E V dev cap" and "unat len \<le> length data" and "unat off + unat len \<le> cap"
  obtains w' where "i2c_writeReg E dev off data len w = Ok (0, w')"
    and "cells (V w') = store (cells (V w)) (unat off) (take (unat len) data)"
proof -
  obtain w' where w': "i2c_writeReg E dev off data len w = Ok (0, w')"
    "V w' = (V w)\<lparr>phase := Idle, bptr := unat off + unat len,
               cells := store (cells (V w)) (unat off) (take (unat len) data)\<rparr>"
    by (rule i2c_writeReg_view [OF assms])
  show thesis by (rule that [OF w'(1)]) (simp add: w'(2))
qed

lemma read_loop_fram:
  assumes F: "fram_bus E V dev cap" and p: "phase (V w) = Reading" "bptr (V w) + n \<le> cap" and n: "n \<le> length data"
  shows "\<exists>w'. rfold (read_step E) [0..<n] (data, w) = Ok (fetch (cells (V w)) (bptr (V w)) n @ drop n data, w') \<and>
           V w' = (V w)\<lparr>bptr := bptr (V w) + n\<rparr>"
  using p(2) n
proof (induction n)
  case (Suc n)
  then obtain w1 where w1: "rfold (read_step E) [0..<n] (data, w) = Ok (fetch (cells (V w)) (bptr (V w)) n @ drop n data, w1)"
    "V w1 = (V w)\<lparr>bptr := bptr (V w) + n\<rparr>" by auto
  have "phase (V w1) = Reading" "bptr (V w1) < cap" using w1(2) p(1) Suc.prems(1) by simp_all
  from i2c_read_fram [OF F this] obtain w2 where w2: "i2c_read_ack E w1 = Ok (cells (V w1) (bptr (V w1)), w2)"
    "V w2 = (V w1)\<lparr>bptr := Suc (bptr (V w1))\<rparr>" .
  have "aset (fetch (cells (V w)) (bptr (V w)) n @ drop n data) n b
      = Ok (fetch (cells (V w)) (bptr (V w)) n @ b # drop (Suc n) data)" for b
    using Suc.prems(2) by (simp add: list_update_append Cons_nth_drop_Suc [symmetric])
  then have "read_step E n (fetch (cells (V w)) (bptr (V w)) n @ drop n data, w1)
      = Ok (fetch (cells (V w)) (bptr (V w)) (Suc n) @ drop (Suc n) data, w2)"
    using w1(2) w2(1) by (simp add: read_step_def fetch_Suc)
  then show ?case
    using w1 w2 by (simp add: rfold_append)
qed simp

text \<open>Reading fills the buffer with the cells from the given one on and leaves the chip as it was.\<close>

lemma i2c_readReg_view:
  assumes F: "fram_bus E V dev cap" and len: "0 < len" "unat len \<le> length data" and cap: "unat off + unat len \<le> cap"
  obtains w' where "i2c_readReg E dev off data len w
      = Ok (0, fetch (cells (V w)) (unat off) (unat len) @ drop (unat len) data, w')"
    and "V w' = (V w)\<lparr>phase := Idle, bptr := unat off + unat len\<rparr>"
proof -
  let ?w = "i2c_init E w" and ?n = "unat (len - 1)"
  have n: "unat len = Suc ?n" using len(1) by (simp add: unat_minus_one word_gt_0 unat_gt_0)
  obtain w1 where w1: "i2c_start E (push_bit 1 dev) ?w = Ok (0, w1)" "V w1 = (V ?w)\<lparr>phase := Addr_Hi\<rparr>"
    by (rule i2c_start_fram [OF F])
  then have "phase (V w1) = Addr_Hi" by simp
  from select_cell [OF F this, of off] obtain u1 u2 where
    u: "i2c_write E (ucast (drop_bit 8 off)) w1 = Ok (0, u1)" "i2c_write E (ucast (off AND 0xFF)) u1 = Ok (0, u2)"
    "V u2 = (V w1)\<lparr>phase := Writing, bptr := unat off\<rparr>" .
  obtain w2 where w2: "i2c_start E (push_bit 1 dev OR 1) u2 = Ok (0, w2)" "V w2 = (V u2)\<lparr>phase := Reading\<rparr>"
    by (rule i2c_start_fram [OF F])
  have V2: "V w2 = (V w)\<lparr>phase := Reading, bptr := unat off\<rparr>"
    using w2(2) u(3) w1(2) fram_bus_reads(3) [OF F, of w] by simp
  then have p: "phase (V w2) = Reading" "bptr (V w2) + ?n \<le> cap" using cap n by simp_all
  have "?n \<le> length data" using len(2) n by simp
  from read_loop_fram [OF F p this] obtain w3 where
    w3: "rfold (read_step E) [0..<?n] (data, w2) = Ok (fetch (cells (V w)) (unat off) ?n @ drop ?n data, w3)"
    "V w3 = (V w)\<lparr>phase := Reading, bptr := unat off + ?n\<rparr>" using V2 by auto
  have "phase (V w3) = Reading" "bptr (V w3) < cap" using w3(2) cap n by simp_all
  from i2c_read_fram [OF F this] obtain w4 where
    w4: "i2c_read_nack E w3 = Ok (cells (V w3) (bptr (V w3)), w4)" "V w4 = (V w3)\<lparr>bptr := Suc (bptr (V w3))\<rparr>" .
  have set: "aset (fetch (cells (V w)) (unat off) ?n @ drop ?n data) ?n b
      = Ok (fetch (cells (V w)) (unat off) ?n @ b # drop (unat len) data)" for b
    using len(2) n by (simp add: list_update_append Cons_nth_drop_Suc [symmetric])
  obtain w5 where w5: "i2c_stop E w4 = Ok w5" "V w5 = (V w4)\<lparr>phase := Idle\<rparr>" by (rule fram_bus_stop [OF F])
  have "read_bytes E data len w2 = Ok (fetch (cells (V w)) (unat off) (unat len) @ drop (unat len) data, w4)"
    unfolding read_bytes_def using w3 w4(1) set n by (simp add: fetch_Suc)
  then have "i2c_readReg E dev off data len w
      = Ok (0, fetch (cells (V w)) (unat off) (unat len) @ drop (unat len) data, w5)"
    unfolding i2c_readReg_def Let_def using w1(1) u(1,2) w2(1) w5(1) by (simp add: I2C_WRITE_def I2C_READ_def)
  moreover have "V w5 = (V w)\<lparr>phase := Idle, bptr := unat off + unat len\<rparr>" using w5(2) w4(2) w3(2) n by simp
  ultimately show thesis by (rule that)
qed

lemma i2c_readReg_fram:
  assumes "fram_bus E V dev cap" and "0 < len" and "unat len \<le> length data" and "unat off + unat len \<le> cap"
  obtains w' where "i2c_readReg E dev off data len w
      = Ok (0, fetch (cells (V w)) (unat off) (unat len) @ drop (unat len) data, w')"
    and "cells (V w') = cells (V w)"
proof -
  obtain w' where w': "i2c_readReg E dev off data len w
      = Ok (0, fetch (cells (V w)) (unat off) (unat len) @ drop (unat len) data, w')"
    "V w' = (V w)\<lparr>phase := Idle, bptr := unat off + unat len\<rparr>"
    by (rule i2c_readReg_view [OF assms])
  show thesis by (rule that [OF w'(1)]) (simp add: w'(2))
qed

lemma format_loop_fram:
  assumes F: "fram_bus E V dev cap" and n: "n \<le> 8000" and cap: "32000 \<le> cap"
  shows "\<exists>w'. format_loop E dev [0..<n] w = Ok w' \<and> cells (V w') = store (cells (V w)) 0 (replicate (4 * n) 0)"
  using n
proof (induction n)
  case 0
  then show ?case by (simp add: format_loop_def)
next
  case (Suc n)
  then obtain w1 where w1: "format_loop E dev [0..<n] w = Ok w1"
    "cells (V w1) = store (cells (V w)) 0 (replicate (4 * n) 0)" by auto
  have off: "unat (of_nat (n * 4) :: u16) = 4 * n"
    using unat_of_nat_u16 [of "n * 4"] Suc.prems by simp
  have fits: "unat (4 :: u16) \<le> length [0, 0, 0, 0 :: u8]" "unat (of_nat (n * 4) :: u16) + unat (4 :: u16) \<le> cap"
    using off Suc.prems cap by simp_all
  obtain w2 where w2: "i2c_writeReg E dev (of_nat (n * 4)) [0, 0, 0, 0] 4 w1 = Ok (0, w2)"
    "cells (V w2) = store (cells (V w1)) (unat (of_nat (n * 4) :: u16)) (take (unat (4 :: u16)) [0, 0, 0, 0])"
    by (rule i2c_writeReg_fram [OF F fits])
  have "replicate (4 * Suc n) 0 = replicate (4 * n) 0 @ [0, 0, 0, 0 :: u8]"
    using replicate_add [of "4 * n" 4 "0 :: u8"] by (simp add: add.commute eval_nat_numeral)
  then have "cells (V w2) = store (cells (V w)) 0 (replicate (4 * Suc n) 0)"
    using w2(2) w1(2) off by (simp add: store_append)
  then show ?case
    using w1(1) w2(1) by (simp add: format_loop_def rfold_append)
qed

text \<open>Formatting clears the first 32000 cells and writes the directory into the first eight.\<close>

lemma format_with_fram:
  assumes F: "fram_bus E V dev cap" and cap: "32000 \<le> cap" and md: "length md = 4"
  obtains w' where "format_with E md dev w = Ok w'"
    and "cells (V w') = store (store (cells (V w)) 0 (replicate 32000 0)) 0 (concat (map le16 md))"
proof -
  obtain w1 where w1: "format_loop E dev [0..<8000] w = Ok w1"
    "cells (V w1) = store (cells (V w)) 0 (replicate 32000 0)"
    using format_loop_fram [OF F _ cap, of 8000 w] by auto
  have len: "length (concat (map le16 md)) = 8"
    using md by (simp add: length_concat comp_def sum_list_triv)
  then have fits: "unat (8 :: u16) \<le> length (concat (map le16 md))" "unat (0 :: u16) + unat (8 :: u16) \<le> cap"
    using cap by simp_all
  obtain w2 where w2: "i2c_writeReg E dev 0 (concat (map le16 md)) 8 w1 = Ok (0, w2)"
    "cells (V w2) = store (cells (V w1)) (unat (0 :: u16)) (take (unat (8 :: u16)) (concat (map le16 md)))"
    by (rule i2c_writeReg_fram [OF F fits])
  show thesis
    by (rule that [of w2]) (use w1 w2 len in \<open>simp_all add: format_with_def\<close>)
qed

section \<open>A machine that keeps the promise\<close>

record sim =
  sim_sr :: u8
  sim_dr :: u8
  sim_bus :: bus
  sim_in :: "u8 list"
  sim_out :: "u8 list"

definition sim_byte :: "u8 \<Rightarrow> sim \<Rightarrow> sim" where
  "sim_byte dev w =
     (let v = sim_bus w in
      case phase v of
        Idle \<Rightarrow> w
      | Started \<Rightarrow>
          if sim_dr w = push_bit 1 dev then w\<lparr>sim_sr := TW_MT_SLA_ACK, sim_bus := v\<lparr>phase := Addr_Hi\<rparr>\<rparr>
          else if sim_dr w = push_bit 1 dev OR 1 then w\<lparr>sim_sr := TW_MR_SLA_ACK, sim_bus := v\<lparr>phase := Reading\<rparr>\<rparr>
          else w\<lparr>sim_sr := TW_MT_SLA_NACK, sim_bus := v\<lparr>phase := Idle\<rparr>\<rparr>
      | Reading \<Rightarrow> w\<lparr>sim_dr := cells v (bptr v), sim_bus := v\<lparr>bptr := Suc (bptr v)\<rparr>\<rparr>
      | _ \<Rightarrow> w\<lparr>sim_sr := TW_MT_DATA_ACK, sim_bus := bus_write (sim_dr w) v\<rparr>)"

definition sim_wr :: "u8 \<Rightarrow> reg \<Rightarrow> u8 \<Rightarrow> sim \<Rightarrow> sim" where
  "sim_wr dev r b w =
     (if r = TWDR then w\<lparr>sim_dr := b\<rparr>
      else if r = TWCR then
        (if b = 0 then w
         else if b AND TWSTO \<noteq> 0 then w\<lparr>sim_bus := (sim_bus w)\<lparr>phase := Idle\<rparr>\<rparr>
         else if b AND TWSTA \<noteq> 0 then w\<lparr>sim_sr := TW_START, sim_bus := (sim_bus w)\<lparr>phase := Started\<rparr>\<rparr>
         else sim_byte dev w)
      else w)"

definition sim_rd :: "reg \<Rightarrow> sim \<Rightarrow> u8 \<times> sim" where
  "sim_rd r w = (if r = TWCR then TWINT else if r = TWSR then sim_sr w else if r = TWDR then sim_dr w else 0, w)"

definition sim_avr :: "u8 \<Rightarrow> sim avr" where
  "sim_avr dev =
     \<lparr>rd = sim_rd, wr = sim_wr dev, delay_ms = (\<lambda>_ w. w),
      getc = (\<lambda>w. case sim_in w of [] \<Rightarrow> (None, w) | c # cs \<Rightarrow> (Some c, w\<lparr>sim_in := cs\<rparr>)),
      put = (\<lambda>s w. w\<lparr>sim_out := sim_out w @ s\<rparr>), mainloop = (\<lambda>w. w), polls = 1000\<rparr>"

definition sim_start :: "u8 list \<Rightarrow> sim" where
  "sim_start cs = \<lparr>sim_sr = 0xF8, sim_dr = 0xFF, sim_bus = \<lparr>phase = Idle, bptr = 0, cells = (\<lambda>_. 0)\<rparr>, sim_in = cs, sim_out = []\<rparr>"

lemma sim_wait [simp]:
  "wait_set (sim_avr dev) TWCR TWINT w = Ok w" "wait_clear (sim_avr dev) TWCR TWSTO w = Ok w"
  by (simp_all add: wait_set_def wait_clear_def wait_loop_now sim_avr_def sim_rd_def twi_consts)

lemma sim_wait_num [simp]:
  "wait_set (sim_avr dev) TWCR 128 w = Ok w" "wait_clear (sim_avr dev) TWCR 16 w = Ok w"
  using sim_wait [of dev w] by (simp_all add: twi_consts)

lemma sim_status [simp]: "twi_status (sim_avr dev) w = (sim_sr w AND 0xF8, w)"
  by (simp add: twi_status_def sim_avr_def sim_rd_def)

lemma sim_fields [simp]:
  "rd (sim_avr dev) = sim_rd" "wr (sim_avr dev) = sim_wr dev" "put (sim_avr dev) s w = w\<lparr>sim_out := sim_out w @ s\<rparr>"
  by (simp_all add: sim_avr_def)

lemma sim_fram_bus: "fram_bus (sim_avr dev) sim_bus dev cap"
proof -
  have "push_bit 1 dev OR 1 \<noteq> push_bit 1 dev"
  proof
    assume "push_bit 1 dev OR 1 = push_bit 1 dev"
    then have "bit (push_bit 1 dev OR 1) 0 = bit (push_bit 1 dev) 0" by simp
    then show False unfolding bit_or_iff bit_push_bit_iff by simp
  qed
  then show ?thesis
    unfolding fram_bus_def quiet_reads_def start_sent_def address_acked_def flag_kept_def byte_written_def byte_read_def stop_sent_def
    by (auto simp: sim_rd_def sim_wr_def sim_byte_def can_write_def twi_consts bus_write_def Let_def split: phase.splits)
qed

section \<open>Properties\<close>

text \<open>C5: what \<^verbatim>\<open>i2c_writeReg\<close> stores in the chip, \<^verbatim>\<open>i2c_readReg\<close> reads back, for every block that lies
  inside the chip; both report success.\<close>

theorem fram_write_read:
  assumes "fram_bus E V dev cap" and "0 < len" and "unat len \<le> length data" and "unat len \<le> length buf"
    and "unat off + unat len \<le> cap"
  shows "\<exists>w1 w2. i2c_writeReg E dev off data len w = Ok (0, w1) \<and>
           i2c_readReg E dev off buf len w1 = Ok (0, take (unat len) data @ drop (unat len) buf, w2) \<and>
           cells (V w2) = store (cells (V w)) (unat off) (take (unat len) data)"
proof -
  obtain w1 where w1: "i2c_writeReg E dev off data len w = Ok (0, w1)"
    "cells (V w1) = store (cells (V w)) (unat off) (take (unat len) data)"
    by (rule i2c_writeReg_fram [OF assms(1,3,5)])
  obtain w2 where w2: "i2c_readReg E dev off buf len w1
      = Ok (0, fetch (cells (V w1)) (unat off) (unat len) @ drop (unat len) buf, w2)" "cells (V w2) = cells (V w1)"
    by (rule i2c_readReg_fram [OF assms(1,2,4,5)])
  have "fetch (cells (V w1)) (unat off) (unat len) = take (unat len) data"
    using fetch_store [of "cells (V w)" "unat off" "take (unat len) data"] assms(3) w1(2) by simp
  with w1 w2 show ?thesis by simp
qed

theorem fram_write_read_witness:
  "\<exists>w1 w2. i2c_writeReg (sim_avr 0x50) 0x50 300 [1, 2, 3] 3 (sim_start []) = Ok (0, w1) \<and>
     i2c_readReg (sim_avr 0x50) 0x50 300 [9, 9, 9, 9] 3 w1 = Ok (0, [1, 2, 3, 9], w2)"
  using fram_write_read [OF sim_fram_bus [of "0x50" 32768], of 3 "[1, 2, 3]" "[9, 9, 9, 9]" 300 "sim_start []"] by auto

text \<open>\<^verbatim>\<open>format_storage\<close> leaves a chip whose directory holds two empty files at 8 and 16004 and whose
  other cells below 32000 are zero.\<close>

theorem format_storage_directory:
  assumes "fram_bus E V dev cap" and "32000 \<le> cap"
  shows "\<exists>w'. format_storage E dev w = Ok w' \<and> fetch (cells (V w')) 0 8 = [8, 0, 8, 0, 0x84, 0x3E, 0x84, 0x3E] \<and>
           (\<forall>i. 8 \<le> i \<and> i < 32000 \<longrightarrow> cells (V w') i = 0) \<and>
           (\<forall>i \<ge> 32000. cells (V w') i = cells (V w) i)"
proof -
  let ?d = "concat (map le16 [8, 8, 16004, 16004])"
  obtain w' where w': "format_with E [8, 8, 16004, 16004] dev w = Ok w'"
    "cells (V w') = store (store (cells (V w)) 0 (replicate 32000 0)) 0 ?d"
    by (rule format_with_fram [OF assms, of "[8, 8, 16004, 16004]" w]) simp_all
  have d: "?d = [8, 0, 8, 0, 0x84, 0x3E, 0x84, 0x3E]" by code_simp
  have "length ?d = 8" unfolding d by simp
  then have "fetch (cells (V w')) 0 8 = ?d"
    using fetch_store [of _ 0 ?d] unfolding w'(2) by metis
  moreover have "cells (V w') i = 0" if "8 \<le> i" "i < 32000" for i
    using that unfolding w'(2) d by (simp add: store_def)
  moreover have "cells (V w') i = cells (V w) i" if "32000 \<le> i" for i
    using that unfolding w'(2) d by (simp add: store_def)
  ultimately show ?thesis using w'(1) d by (auto simp: format_storage_def)
qed

theorem format_storage_directory_witness:
  "\<exists>w'. format_storage (sim_avr 0x50) 0x50 (sim_start []) = Ok w' \<and>
     fetch (cells (sim_bus w')) 0 8 = [8, 0, 8, 0, 0x84, 0x3E, 0x84, 0x3E] \<and> cells (sim_bus w') 100 = 0"
  using format_storage_directory [OF sim_fram_bus [of "0x50" 32768], of "sim_start []"] by auto

text \<open>Reading a block of length 0 does not read nothing: the bound \<^verbatim>\<open>length - 1\<close> wraps to 65535 and
  the loop runs over the end of the caller's buffer.\<close>

theorem i2c_readReg_length_0:
  assumes "fram_bus E V dev cap" and "length buf < 65535" and "unat off + length buf < cap"
  shows "i2c_readReg E dev off buf 0 w = Fail Out_Of_Bounds"
proof -
  note F = assms(1)
  let ?w = "i2c_init E w" and ?n = "length buf"
  obtain w1 where w1: "i2c_start E (push_bit 1 dev) ?w = Ok (0, w1)" "V w1 = (V ?w)\<lparr>phase := Addr_Hi\<rparr>"
    by (rule i2c_start_fram [OF F])
  then have "phase (V w1) = Addr_Hi" by simp
  from select_cell [OF F this, of off] obtain u1 u2 where
    u: "i2c_write E (ucast (drop_bit 8 off)) w1 = Ok (0, u1)" "i2c_write E (ucast (off AND 0xFF)) u1 = Ok (0, u2)"
    "V u2 = (V w1)\<lparr>phase := Writing, bptr := unat off\<rparr>" .
  obtain w2 where w2: "i2c_start E (push_bit 1 dev OR 1) u2 = Ok (0, w2)" "V w2 = (V u2)\<lparr>phase := Reading\<rparr>"
    by (rule i2c_start_fram [OF F])
  have p: "phase (V w2) = Reading" "bptr (V w2) + ?n \<le> cap" using w2(2) u(3) assms(3) by simp_all
  from read_loop_fram [OF F p order.refl] obtain w3 where
    w3: "rfold (read_step E) [0..<?n] (buf, w2) = Ok (fetch (cells (V w2)) (bptr (V w2)) ?n, w3)"
    "V w3 = (V w2)\<lparr>bptr := bptr (V w2) + ?n\<rparr>" by auto
  have "phase (V w3) = Reading" "bptr (V w3) < cap" using w3(2) w2(2) u(3) assms(3) by simp_all
  from i2c_read_fram [OF F this] obtain w4 where
    w4: "i2c_read_ack E w3 = Ok (cells (V w3) (bptr (V w3)), w4)" .
  have "read_step E ?n (fetch (cells (V w2)) (bptr (V w2)) ?n, w3) = Fail Out_Of_Bounds"
    using w4 by (simp add: read_step_def aset_def)
  moreover have "unat (0 - 1 :: u16) = 65535" by (simp add: unsigned_minus_1_eq_mask mask_eq_exp_minus_1)
  then obtain N where N: "N = unat (0 - 1 :: u16)" "?n < N" using assms(2) by auto
  moreover have "[0..<N] = [0..<?n] @ ?n # [Suc ?n..<N]"
    using N(2) upt_add_eq_append [of 0 ?n "N - ?n"] upt_conv_Cons [of ?n N] by simp
  ultimately have "read_bytes E buf 0 w2 = Fail Out_Of_Bounds"
    using w3(1) unfolding read_bytes_def N(1) [symmetric] by (simp add: rfold_append)
  then show ?thesis
    unfolding i2c_readReg_def Let_def using w1(1) u(1,2) w2(1) by (simp add: I2C_WRITE_def I2C_READ_def)
qed

theorem i2c_readReg_length_0_witness:
  "i2c_readReg (sim_avr 0x50) 0x50 0 [0, 0] 0 (sim_start []) = Fail Out_Of_Bounds"
  using i2c_readReg_length_0 [OF sim_fram_bus [of "0x50" 32768], of "[0, 0]" 0 "sim_start []"] by simp

text \<open>C38: when the interface sends the start condition but never raises its flag for the address byte,
  \<^verbatim>\<open>i2c_start_timeout\<close> does not return, whatever the timeout and however long one waits.\<close>

theorem i2c_start_timeout_stuck:
  assumes "wait_set E TWCR TWINT (wr E TWCR (TWINT OR TWSTA OR TWEN) (wr E TWCR 0 w)) = Ok w1"
    and "twi_status E w1 = (TW_START, w2)"
    and "I (wr E TWCR (TWINT OR TWEN) (wr E TWDR address w2))"
    and "\<And>w. I w \<Longrightarrow> fst (rd E TWCR w) AND TWINT = 0 \<and> I (snd (rd E TWCR w))"
    and "\<And>w. I w \<Longrightarrow> I (delay_ms E 1 w)"
  shows "i2c_start_timeout E address ms_timeout w = Fail Diverge"
proof -
  let ?w = "wr E TWCR (TWINT OR TWEN) (wr E TWDR address w2)"
  have "wait_set E TWCR TWINT ?w = Fail Diverge"
    unfolding wait_set_def by (rule wait_loop_stuck [of I]) (use assms(3,4) in auto)
  moreover have "timeout_loop E (polls E) ms_timeout ?w = Fail Diverge"
    by (rule timeout_loop_stuck [of I, OF assms(4,5,3)])
  ultimately show ?thesis
    unfolding i2c_start_timeout_def Let_def using assms(1,2) by simp
qed

text \<open>A bus without pull-ups: the start condition is seen, the address byte never completes.\<close>

definition dead_avr :: "nat \<Rightarrow> bool avr" where
  "dead_avr n =
     \<lparr>rd = (\<lambda>r w. (if r = TWCR then (if w then 0 else TWINT) else if r = TWSR then TW_START else 0, w)),
      wr = (\<lambda>r b w. if r = TWDR then True else w), delay_ms = (\<lambda>_ w. w), getc = (\<lambda>w. (None, w)),
      put = (\<lambda>_ w. w), mainloop = (\<lambda>w. w), polls = Suc n\<rparr>"

theorem i2c_start_timeout_stuck_witness:
  "i2c_start_timeout (dead_avr 5000) 0x41 10 False = Fail Diverge"
  by (rule i2c_start_timeout_stuck [where I = "\<lambda>w. w" and ?w1.0 = False and ?w2.0 = False])
    (simp_all add: dead_avr_def wait_set_def wait_loop_now twi_status_def twi_consts)

end
