(* ===== verification/Board.thy ===== *)
theory Board
  imports Avr_Machine
begin

text \<open>
  The lamps and buttons of the board: \<^verbatim>\<open>leds.c\<close>, \<^verbatim>\<open>buttons.c\<close> and the pin macros of \<^verbatim>\<open>common.h\<close>. The
  pin structs are set once by the \<^verbatim>\<open>INIT_*\<close> macros and are constants here. The callbacks behind the
  function pointers are a parameter \<open>call\<close>: what a callback does to the globals \<open>'s\<close> of the image and
  to the outside world. Lemmas: the busy and ready lamps exclude each other, a bouncing pin is
  ignored, and the interrupt handler turns the pin history of a button into alternating presses and
  releases.
\<close>

section \<open>Pins\<close>

record IO_struct =
  ddr :: reg
  port :: reg
  pin :: nat
  portin :: reg

definition SET_BIT :: "'w avr \<Rightarrow> reg \<Rightarrow> nat \<Rightarrow> 'w \<Rightarrow> 'w" where
  "SET_BIT E r n w = or_reg E r (bv n) w"

definition CLEAR_BIT :: "'w avr \<Rightarrow> reg \<Rightarrow> nat \<Rightarrow> 'w \<Rightarrow> 'w" where
  "CLEAR_BIT E r n w = and_reg E r (NOT (bv n)) w"

definition TOGGLE_BIT :: "'w avr \<Rightarrow> reg \<Rightarrow> nat \<Rightarrow> 'w \<Rightarrow> 'w" where
  "TOGGLE_BIT E r n w = xor_reg E r (bv n) w"

section \<open>Lamps\<close>

definition led_yellow :: IO_struct where "led_yellow = \<lparr>ddr = DDRC, port = PORTC, pin = 7, portin = PINC\<rparr>"
definition led_green :: IO_struct where "led_green = \<lparr>ddr = DDRD, port = PORTD, pin = 5, portin = PIND\<rparr>"
definition led_red_e :: IO_struct where "led_red_e = \<lparr>ddr = DDRB, port = PORTB, pin = 5, portin = PINB\<rparr>"
definition led_green_e :: IO_struct where "led_green_e = \<lparr>ddr = DDRD, port = PORTD, pin = 0, portin = PIND\<rparr>"

lemmas led_defs = led_yellow_def led_green_def led_red_e_def led_green_e_def

definition initialize_leds :: "'w avr \<Rightarrow> 'w \<Rightarrow> 'w" where
  "initialize_leds E w =
     or_reg E DDRD (bv 0) (or_reg E DDRB (bv 5) (or_reg E DDRD (bv 5) (or_reg E DDRC (bv 7) w)))"

definition flash_led :: "'w avr \<Rightarrow> IO_struct \<Rightarrow> bool \<Rightarrow> 'w \<Rightarrow> 'w" where
  "flash_led E color inverted w =
     (let w = (if \<not> inverted then SET_BIT E (port color) (pin color) w else CLEAR_BIT E (port color) (pin color) w);
          w = delay_ms E 200 w;
          w = TOGGLE_BIT E (port color) (pin color) w
      in delay_ms E 200 w)"

definition light_show :: "'w avr \<Rightarrow> 'w \<Rightarrow> 'w" where
  "light_show E w = ((\<lambda>w. flash_led E led_green True (flash_led E led_yellow False w)) ^^ 2) w"

definition busy_light :: "'w avr \<Rightarrow> 'w \<Rightarrow> 'w" where
  "busy_light E w =
     CLEAR_BIT E (port led_green) (pin led_green) (SET_BIT E (port led_red_e) (pin led_red_e) w)"

definition ready_light :: "'w avr \<Rightarrow> 'w \<Rightarrow> 'w" where
  "ready_light E w =
     CLEAR_BIT E (port led_red_e) (pin led_red_e) (SET_BIT E (port led_green) (pin led_green) w)"

section \<open>Buttons\<close>

definition BUTTONA :: nat where "BUTTONA = 3"
definition BUTTONC :: nat where "BUTTONC = 0"
definition BUTTON_MASK :: u8 where "BUTTON_MASK = bv BUTTONA OR bv BUTTONC"

definition button_A :: IO_struct where "button_A = \<lparr>ddr = DDRB, port = PORTB, pin = BUTTONA, portin = PINB\<rparr>"
definition button_C :: IO_struct where "button_C = \<lparr>ddr = DDRB, port = PORTB, pin = BUTTONC, portin = PINB\<rparr>"

record 'c buttons =
  fn_release_A :: 'c
  fn_press_A :: 'c
  fn_release_C :: 'c
  fn_press_C :: 'c
  pinb_previous :: u8

text \<open>The four pointers start at the callback that does nothing.\<close>

definition initialize_buttons :: "'c \<Rightarrow> 'c buttons \<Rightarrow> 'c buttons" where
  "initialize_buttons EmptyFunction b =
     b\<lparr>fn_release_A := EmptyFunction, fn_press_A := EmptyFunction,
       fn_release_C := EmptyFunction, fn_press_C := EmptyFunction\<rparr>"

definition SetUpButton :: "'w avr \<Rightarrow> IO_struct \<Rightarrow> 'c buttons \<Rightarrow> 'w \<Rightarrow> 'c buttons \<times> 'w" where
  "SetUpButton E button b w =
     (let w = CLEAR_BIT E (ddr button) (pin button) w;
          w = SET_BIT E (port button) (pin button) w;
          w = or_reg E PCICR (bv 0) w;
          w = (if pin button = BUTTONA then or_reg E PCMSK0 (bv 3) w else w);
          w = (if pin button = BUTTONC then or_reg E PCMSK0 (bv 0) w else w)
      in case rd E PINB w of (p, w) \<Rightarrow> (b\<lparr>pinb_previous := p AND BUTTON_MASK\<rparr>, w))"

definition SetUpButtonAction :: "IO_struct \<Rightarrow> bool \<Rightarrow> 'c \<Rightarrow> 'c buttons \<Rightarrow> 'c buttons" where
  "SetUpButtonAction button release callback b =
     (let b = (if pin button = BUTTONA
               then (if release then b\<lparr>fn_release_A := callback\<rparr> else b\<lparr>fn_press_A := callback\<rparr>) else b)
      in if pin button = BUTTONC
         then (if release then b\<lparr>fn_release_C := callback\<rparr> else b\<lparr>fn_press_C := callback\<rparr>) else b)"

text \<open>Two samples of the pins, a millisecond apart.\<close>

definition sample_pins :: "'w avr \<Rightarrow> 'w \<Rightarrow> (u8 \<times> bool) \<times> 'w" where
  "sample_pins E w =
     (case rd E PINB w of (p1, w) \<Rightarrow>
      case rd E PINB (delay_ms E 1 w) of (p2, w) \<Rightarrow>
        ((p1 AND BUTTON_MASK, (p1 AND BUTTON_MASK) XOR (p2 AND BUTTON_MASK) = 0), w))"

text \<open>The interrupt handler. \<open>call\<close> runs a callback on the globals and the outside world.\<close>

definition PCINT0_vect ::
  "'w avr \<Rightarrow> ('c \<Rightarrow> 's \<times> 'w \<Rightarrow> ('s \<times> 'w) result) \<Rightarrow> 'c buttons \<Rightarrow> 's \<Rightarrow> 'w \<Rightarrow> ('c buttons \<times> 's \<times> 'w) result" where
  "PCINT0_vect E call b s w =
     (let w = TOGGLE_BIT E (port led_green) (pin led_green) w;
          w = delay_ms E 150 w;
          w = TOGGLE_BIT E (port led_green) (pin led_green) w in
      case sample_pins E w of ((pinb_now, steady), w) \<Rightarrow>
      if \<not> steady then Ok (b, s, w)
      else
        let pinb_change = pinb_now XOR pinb_previous b in
        rbind (if pinb_change AND bv BUTTONA \<noteq> 0
               then (if pinb_now AND bv BUTTONA = 0 then call (fn_press_A b) (s, w) else call (fn_release_A b) (s, w))
               else Ok (s, w)) (\<lambda>(s, w).
        rbind (if pinb_change AND bv BUTTONC \<noteq> 0
               then (if pinb_now AND bv BUTTONC = 0 then call (fn_press_C b) (s, w) else call (fn_release_C b) (s, w))
               else Ok (s, w)) (\<lambda>(s, w).
        Ok (b\<lparr>pinb_previous := pinb_now\<rparr>, s, w))))"

text \<open>The polled variant: a release ends the function before the pin state is recorded.\<close>

definition checkButtons ::
  "'w avr \<Rightarrow> ('c \<Rightarrow> 's \<times> 'w \<Rightarrow> ('s \<times> 'w) result) \<Rightarrow> 'c buttons \<Rightarrow> 's \<Rightarrow> 'w \<Rightarrow> (int \<times> 'c buttons \<times> 's \<times> 'w) result" where
  "checkButtons E call b s w =
     (case sample_pins E w of ((pinb_now, steady), w) \<Rightarrow>
      if \<not> steady then Ok (0, b, s, w)
      else
        let pinb_change = pinb_now XOR pinb_previous b in
        if pinb_change AND bv BUTTONA \<noteq> 0 \<and> pinb_now AND bv BUTTONA \<noteq> 0 then Ok (1, b, s, w)
        else
          rbind (if pinb_change AND bv BUTTONA \<noteq> 0 then call (fn_press_A b) (s, w) else Ok (s, w)) (\<lambda>(s, w).
          if pinb_change AND bv BUTTONC \<noteq> 0 \<and> pinb_now AND bv BUTTONC \<noteq> 0 then Ok (-1, b, s, w)
          else
            rbind (if pinb_change AND bv BUTTONC \<noteq> 0 then call (fn_press_C b) (s, w) else Ok (s, w)) (\<lambda>(s, w).
            Ok (0, b\<lparr>pinb_previous := pinb_now\<rparr>, s, w))))"

section \<open>Lamps exclude each other\<close>

text \<open>
  What the lamps rely on: a port register holds what was written to it last, and a write to one port
  leaves the other registers alone.
\<close>

definition port_ram :: "'w avr \<Rightarrow> reg set \<Rightarrow> bool" where
  "port_ram E R \<longleftrightarrow>
     (\<forall>r \<in> R. \<forall>w. snd (rd E r w) = w) \<and>
     (\<forall>r \<in> R. \<forall>q \<in> R. \<forall>v w. fst (rd E r (wr E q v w)) = (if r = q then v else fst (rd E r w)))"

lemma port_ram_or:
  assumes "port_ram E R" and "r \<in> R" and "q \<in> R"
  shows "fst (rd E r (or_reg E q m w)) = (if r = q then fst (rd E r w) OR m else fst (rd E r w))"
  using assms by (auto simp: port_ram_def or_reg_def case_prod_unfold)

lemma port_ram_and:
  assumes "port_ram E R" and "r \<in> R" and "q \<in> R"
  shows "fst (rd E r (and_reg E q m w)) = (if r = q then fst (rd E r w) AND m else fst (rd E r w))"
  using assms by (auto simp: port_ram_def and_reg_def case_prod_unfold)

lemma bit_bv: "bit (bv n) i \<longleftrightarrow> i = n \<and> n < 8"
  unfolding bv_def by (auto simp: bit_exp_iff)

lemmas pin_simps = SET_BIT_def CLEAR_BIT_def port_ram_or port_ram_and bit_or_iff bit_and_iff bit_not_iff bit_bv

section \<open>Edges of a button\<close>

datatype edge = Press | Release

definition edge_of :: "nat \<Rightarrow> u8 \<Rightarrow> u8 \<Rightarrow> edge list" where
  "edge_of n prev now = (if bit prev n = bit now n then [] else if bit now n then [Release] else [Press])"

text \<open>The edges of a history of pin states, and that they alternate.\<close>

fun edges :: "nat \<Rightarrow> u8 list \<Rightarrow> edge list" where
  "edges n (p # q # ps) = edge_of n p q @ edges n (q # ps)"
| "edges n ps = []"

fun alternating :: "edge list \<Rightarrow> bool" where
  "alternating (x # y # xs) \<longleftrightarrow> x \<noteq> y \<and> alternating (y # xs)"
| "alternating xs \<longleftrightarrow> True"

lemma edges_start: "edges n (p # ps) = e # es \<Longrightarrow> (e = Press) = bit p n"
  by (induction n "p # ps" arbitrary: p ps rule: edges.induct) (auto simp: edge_of_def split: if_splits)

lemma alternating_edges: "alternating (edges n ps)"
proof (induction n ps rule: edges.induct)
  case (1 n p q ps)
  show ?case
  proof (cases "edges n (q # ps)")
    case (Cons e es)
    then show ?thesis using 1 edges_start [OF Cons] by (auto simp: edge_of_def)
  qed (simp add: edge_of_def)
qed simp_all

lemma and_bv: "(x AND bv n = 0) \<longleftrightarrow> (n < 8 \<longrightarrow> \<not> bit (x :: u8) n)"
proof
  assume "x AND bv n = 0"
  then have "\<not> bit (x AND bv n) n" by simp
  then show "n < 8 \<longrightarrow> \<not> bit x n" by (auto simp: bit_and_iff bit_bv)
next
  assume "n < 8 \<longrightarrow> \<not> bit x n"
  then show "x AND bv n = 0" by (intro bit_word_eqI) (auto simp: bit_and_iff bit_bv)
qed

lemma bit_mask_button: "bit BUTTON_MASK n \<longleftrightarrow> n = BUTTONA \<or> n = BUTTONC"
  by (auto simp: BUTTON_MASK_def bit_or_iff bit_bv BUTTONA_def BUTTONC_def)

lemma busy_ready_exclude:
  assumes "port_ram E {PORTB, PORTD}"
  shows "bit (fst (rd E PORTB (busy_light E w))) 5" "\<not> bit (fst (rd E PORTD (busy_light E w))) 5"
    "\<not> bit (fst (rd E PORTB (ready_light E w))) 5" "bit (fst (rd E PORTD (ready_light E w))) 5"
  using assms by (simp_all add: busy_light_def ready_light_def led_defs pin_simps)

text \<open>Callbacks that only leave a note: which button, which edge.\<close>

definition note_call :: "nat \<times> edge \<Rightarrow> (nat \<times> edge) list \<times> 'w \<Rightarrow> ((nat \<times> edge) list \<times> 'w) result" where
  "note_call c sw = Ok (fst sw @ [c], snd sw)"

definition labelled :: "(nat \<times> edge) buttons \<Rightarrow> bool" where
  "labelled b \<longleftrightarrow> fn_press_A b = (BUTTONA, Press) \<and> fn_release_A b = (BUTTONA, Release) \<and>
     fn_press_C b = (BUTTONC, Press) \<and> fn_release_C b = (BUTTONC, Release)"

text \<open>One interrupt: no note for pins that bounce, otherwise the edges since the last interrupt.\<close>

lemma PCINT0_vect_notes:
  assumes "labelled b" and "PCINT0_vect E note_call b s w = Ok (b', s', w')"
  obtains "b' = b" "s' = s"
  | now where "b' = b\<lparr>pinb_previous := now\<rparr>"
      "s' = s @ map (Pair BUTTONA) (edge_of BUTTONA (pinb_previous b) now) @
              map (Pair BUTTONC) (edge_of BUTTONC (pinb_previous b) now)"
proof -
  let ?w = "TOGGLE_BIT E (port led_green) (pin led_green) (delay_ms E 150 (TOGGLE_BIT E (port led_green) (pin led_green) w))"
  obtain now steady u where p: "sample_pins E ?w = ((now, steady), u)" by (metis surj_pair)
  have lt: "BUTTONA < 8" "BUTTONC < 8" by (simp_all add: BUTTONA_def BUTTONC_def)
  show thesis
  proof (cases steady)
    case False
    then show thesis using assms(2) p that(1) by (simp add: PCINT0_vect_def Let_def)
  next
    case True
    then have "b' = b\<lparr>pinb_previous := now\<rparr> \<and> s' = s @ map (Pair BUTTONA) (edge_of BUTTONA (pinb_previous b) now) @
        map (Pair BUTTONC) (edge_of BUTTONC (pinb_previous b) now)"
      using assms p lt
      by (auto simp: PCINT0_vect_def Let_def note_call_def labelled_def edge_of_def and_bv bit_xor_iff split: if_splits)
    then show thesis using that(2) by blast
  qed
qed

text \<open>The pin state and the notes after any number of interrupts, in any worlds.\<close>

inductive handled :: "'w avr \<Rightarrow> u8 \<Rightarrow> u8 \<Rightarrow> (nat \<times> edge) list \<Rightarrow> bool" for E p0 where
  none_yet: "handled E p0 p0 []"
| interrupt: "handled E p0 (pinb_previous b) s \<Longrightarrow> labelled b \<Longrightarrow>
     PCINT0_vect E note_call b s w = Ok (b', s', w') \<Longrightarrow> handled E p0 (pinb_previous b') s'"

definition notes_of :: "nat \<Rightarrow> (nat \<times> edge) list \<Rightarrow> edge list" where
  "notes_of n s = map snd (filter (\<lambda>e. fst e = n) s)"

lemma notes_of_append: "notes_of n (s @ t) = notes_of n s @ notes_of n t"
  by (simp add: notes_of_def)

lemma notes_of_pair: "notes_of n (map (Pair k) es) = (if n = k then es else [])"
  by (induction es) (auto simp: notes_of_def)

lemma edges_snoc: "ps \<noteq> [] \<Longrightarrow> edges n (ps @ [p]) = edges n ps @ edge_of n (last ps) p"
  by (induction n ps rule: edges.induct) auto

lemma handled_history:
  "handled E p0 p s \<Longrightarrow> \<exists>ps. last (p0 # ps) = p \<and> (\<forall>n \<in> {BUTTONA, BUTTONC}. notes_of n s = edges n (p0 # ps))"
proof (induction rule: handled.induct)
  case none_yet
  show ?case by (rule exI [of _ "[]"]) (simp add: notes_of_def)
next
  case (interrupt b s w b' s' w')
  then obtain ps where ps: "last (p0 # ps) = pinb_previous b"
    "\<forall>n \<in> {BUTTONA, BUTTONC}. notes_of n s = edges n (p0 # ps)" by blast
  from interrupt.hyps(2,3) show ?case
  proof (cases rule: PCINT0_vect_notes)
    case 1
    then show ?thesis using ps by blast
  next
    case (2 now)
    have "BUTTONA \<noteq> BUTTONC" by (simp add: BUTTONA_def BUTTONC_def)
    then have "\<forall>n \<in> {BUTTONA, BUTTONC}. notes_of n s' = edges n (p0 # ps @ [now])"
      using ps 2(2) edges_snoc [of "p0 # ps"] by (auto simp: notes_of_append notes_of_pair)
    then show ?thesis using 2(1) by (intro exI [of _ "ps @ [now]"]) simp
  qed
qed

section \<open>Properties\<close>

text \<open>C24: however the pins move and whenever the interrupt fires, the handler calls the press and the
  release callback of each button alternately.\<close>

theorem button_edges_alternate:
  assumes "handled E p0 p s" and "n \<in> {BUTTONA, BUTTONC}"
  shows "alternating (notes_of n s)"
proof -
  from handled_history [OF assms(1)] assms(2) obtain ps where "notes_of n s = edges n (p0 # ps)" by blast
  then show ?thesis by (simp add: alternating_edges)
qed

text \<open>Pins that stay where the world puts them.\<close>

definition pin_avr :: "u8 avr" where
  "pin_avr = \<lparr>rd = (\<lambda>r w. (if r = PINB then w else 0, w)), wr = (\<lambda>r v w. w), delay_ms = (\<lambda>_ w. w),
     getc = (\<lambda>w. (None, w)), put = (\<lambda>_ w. w), mainloop = (\<lambda>w. w), polls = 1\<rparr>"

theorem button_edges_alternate_witness:
  "alternating (notes_of BUTTONA [(BUTTONA, Press), (BUTTONC, Press), (BUTTONA, Release)])"
proof -
  let ?b = "\<lambda>p. \<lparr>fn_release_A = (BUTTONA, Release), fn_press_A = (BUTTONA, Press),
      fn_release_C = (BUTTONC, Release), fn_press_C = (BUTTONC, Press), pinb_previous = p\<rparr>"
  have b: "labelled (?b p)" for p by (simp add: labelled_def)
  have "PCINT0_vect pin_avr note_call (?b 9) [] 0 = Ok (?b 0, [(BUTTONA, Press), (BUTTONC, Press)], 0)"
    by code_simp
  from interrupt [OF _ b this, of 9] have one: "handled pin_avr 9 0 [(BUTTONA, Press), (BUTTONC, Press)]"
    by (simp add: none_yet)
  have "PCINT0_vect pin_avr note_call (?b 0) [(BUTTONA, Press), (BUTTONC, Press)] 8
      = Ok (?b 8, [(BUTTONA, Press), (BUTTONC, Press), (BUTTONA, Release)], 8)" by code_simp
  from interrupt [OF _ b this, of 9]
  have "handled pin_avr 9 8 [(BUTTONA, Press), (BUTTONC, Press), (BUTTONA, Release)]" by (simp add: one)
  from button_edges_alternate [OF this] show ?thesis by simp
qed

text \<open>\<^verbatim>\<open>checkButtons\<close> reports the release of A without recording the pins, so it reports the same
  release again in every later call, and a press of C in between is not seen.\<close>

theorem checkButtons_release_repeats:
  assumes "sample_pins E w = ((now, True), w1)" and "bit now BUTTONA" and "\<not> bit (pinb_previous b) BUTTONA"
  shows "checkButtons E call b s w = Ok (1, b, s, w1)"
proof -
  have "BUTTONA < 8" by (simp add: BUTTONA_def)
  then show ?thesis using assms by (simp add: checkButtons_def Let_def and_bv bit_xor_iff)
qed

theorem checkButtons_release_repeats_witness:
  "checkButtons pin_avr note_call \<lparr>fn_release_A = (3, Release), fn_press_A = (3, Press), fn_release_C = (0, Release),
     fn_press_C = (0, Press), pinb_previous = 1\<rparr> [] 8 =
   Ok (1, \<lparr>fn_release_A = (3, Release), fn_press_A = (3, Press), fn_release_C = (0, Release),
     fn_press_C = (0, Press), pinb_previous = 1\<rparr>, [], 8)"
  by (rule checkButtons_release_repeats [where now = 8]) (code_simp, code_simp, code_simp)

end
