(* ===== verification/Controller.thy ===== *)
theory Controller
  imports Fram Board
begin

text \<open>
  The controller image \<^verbatim>\<open>main/main.c\<close>: the two files on the storage chip, the console input and output
  of a file, the dispatch of blocks to the workers on the bus, and the button actions. Globals are the
  record \<open>ctl\<close>; a pointer to one of the two files is a \<open>file_id\<close>. The pin-change interrupt is
  taken where the loops sleep and between two turns of the control loop: there the parameter \<open>irq\<close>
  says what the interrupts do to the globals (\<open>pin_change\<close> when a pin has changed, nothing otherwise).
  A local that the code reads after a failed transfer without having set it is a fault.
\<close>

section \<open>Globals\<close>

definition BLOCK_SIZE :: nat where "BLOCK_SIZE = 128"
definition A_PRESS :: u8 where "A_PRESS = 0x01"
definition A_RELEASE :: u8 where "A_RELEASE = 0x02"
definition C_PRESS :: u8 where "C_PRESS = 0x04"
definition C_RELEASE :: u8 where "C_RELEASE = 0x08"

definition MB85RC_DEFAULT_ADDRESS :: u8 where "MB85RC_DEFAULT_ADDRESS = 0x50"
definition I2C_SLAVE_BASE_ID :: u8 where "I2C_SLAVE_BASE_ID = 0x20"
definition I2C_READY :: u8 where "I2C_READY = 1"
definition JOB_BIT :: nat where "JOB_BIT = 1"
definition ENCODE :: u8 where "ENCODE = push_bit JOB_BIT 1"
definition DECODE :: u8 where "DECODE = push_bit JOB_BIT 0"

lemmas ctl_consts = BLOCK_SIZE_def A_PRESS_def A_RELEASE_def C_PRESS_def C_RELEASE_def
  MB85RC_DEFAULT_ADDRESS_def I2C_SLAVE_BASE_ID_def I2C_READY_def JOB_BIT_def ENCODE_def DECODE_def

record block_seq_t =
  seq_start :: u16
  seq_size :: u8

record file_t =
  f_start :: u16
  f_end :: u16

record fs_t =
  fs_input :: file_t
  fs_output :: file_t

datatype file_id = Input | Output

text \<open>The functions that the four callback pointers of the buttons can hold.\<close>

datatype callback = EmptyFunction | A_press_cb | A_release_cb | C_press_cb | C_release_cb

record ctl =
  fs :: fs_t
  g_bytes_read :: u16
  buttonHoldCount :: u8
  button_status :: u8
  in_buffer :: "u8 list"
  out_buffer :: "u8 list"
  btns :: "callback buttons"

definition file_of :: "file_id \<Rightarrow> ctl \<Rightarrow> file_t" where
  "file_of f g = (case f of Input \<Rightarrow> fs_input (fs g) | Output \<Rightarrow> fs_output (fs g))"

definition set_end :: "file_id \<Rightarrow> u16 \<Rightarrow> ctl \<Rightarrow> ctl" where
  "set_end f e g =
     (case f of
        Input \<Rightarrow> g\<lparr>fs := (fs g)\<lparr>fs_input := (fs_input (fs g))\<lparr>f_end := e\<rparr>\<rparr>\<rparr>
      | Output \<Rightarrow> g\<lparr>fs := (fs g)\<lparr>fs_output := (fs_output (fs g))\<lparr>f_end := e\<rparr>\<rparr>\<rparr>)"

lemma file_of_set_end [simp]:
  "file_of f (set_end f e g) = (file_of f g)\<lparr>f_end := e\<rparr>"
  by (cases f) (simp_all add: file_of_def set_end_def)

abbreviation crlf :: "u8 list" where
  "crlf \<equiv> [13, 10]"

section \<open>Button flags\<close>

definition A_press :: "'w avr \<Rightarrow> ctl \<Rightarrow> 'w \<Rightarrow> ctl \<times> 'w" where
  "A_press E g w =
     (g\<lparr>button_status := (button_status g OR A_PRESS) XOR A_RELEASE\<rparr>, put E (str ''A_press'' @ crlf) w)"

definition A_release :: "'w avr \<Rightarrow> ctl \<Rightarrow> 'w \<Rightarrow> ctl \<times> 'w" where
  "A_release E g w =
     (g\<lparr>button_status := (button_status g OR A_RELEASE) XOR A_PRESS\<rparr>, put E (str ''A_Release'' @ crlf) w)"

definition C_press :: "'w avr \<Rightarrow> ctl \<Rightarrow> 'w \<Rightarrow> ctl \<times> 'w" where
  "C_press E g w =
     (g\<lparr>button_status := (button_status g OR C_PRESS) XOR C_RELEASE\<rparr>, put E (str ''C press'' @ crlf) w)"

definition C_release :: "'w avr \<Rightarrow> ctl \<Rightarrow> 'w \<Rightarrow> ctl \<times> 'w" where
  "C_release E g w =
     (g\<lparr>button_status := (button_status g OR C_RELEASE) XOR C_PRESS\<rparr>, put E (str ''C Release'' @ crlf) w)"

definition run_callback :: "'w avr \<Rightarrow> callback \<Rightarrow> ctl \<times> 'w \<Rightarrow> (ctl \<times> 'w) result" where
  "run_callback E c s =
     (case s of (g, w) \<Rightarrow>
      case c of
        EmptyFunction \<Rightarrow> Ok (g, w)
      | A_press_cb \<Rightarrow> Ok (A_press E g w)
      | A_release_cb \<Rightarrow> Ok (A_release E g w)
      | C_press_cb \<Rightarrow> Ok (C_press E g w)
      | C_release_cb \<Rightarrow> Ok (C_release E g w))"

text \<open>The pin-change handler on the globals of this image.\<close>

definition pin_change :: "'w avr \<Rightarrow> ctl \<Rightarrow> 'w \<Rightarrow> (ctl \<times> 'w) result" where
  "pin_change E g w =
     rbind (PCINT0_vect E (run_callback E) (btns g) g w) (\<lambda>(b, g, w). Ok (g\<lparr>btns := b\<rparr>, w))"

section \<open>Console to file, file to console\<close>

definition initialize_i2c :: "'w avr \<Rightarrow> 'w \<Rightarrow> 'w" where
  "initialize_i2c E w = i2c_init E (or_reg E PORTB (bv 4) (or_reg E DDRB (bv 4) w))"

text \<open>One round of the loop of \<^verbatim>\<open>input_datastream\<close> over the characters that \<^verbatim>\<open>fgets\<close> delivered.\<close>

definition input_round :: "'w avr \<Rightarrow> file_id \<Rightarrow> u8 list \<Rightarrow> ctl \<Rightarrow> 'w \<Rightarrow> (nat \<times> ctl \<times> 'w) result" where
  "input_round E f buffer g w =
     (let w = mainloop E w in
      rbind (strlen buffer) (\<lambda>bytes_read.
      rbind (aget buffer 0) (\<lambda>b0.
      rbind (if f_end (file_of f g) = f_start (file_of f g) \<and> b0 \<noteq> 35
             then rbind (i2c_writeReg E MB85RC_DEFAULT_ADDRESS (f_end (file_of f g)) [42] 1 w) (\<lambda>(_, w).
                  Ok (set_end f (f_end (file_of f g) + 1) g, w))
             else Ok (g, w)) (\<lambda>(g, w).
      let w = mainloop E w in
      rbind (i2c_writeReg E MB85RC_DEFAULT_ADDRESS (f_end (file_of f g)) buffer (of_nat bytes_read) w) (\<lambda>(_, w).
      let g = set_end f (f_end (file_of f g) + of_nat bytes_read) g in
      if bytes_read = 0 then Fail Out_Of_Bounds \<comment> \<open>\<^verbatim>\<open>buffer[bytes_read-1]\<close>\<close>
      else Ok (bytes_read, g, w))))))"

fun input_loop :: "'w avr \<Rightarrow> nat \<Rightarrow> file_id \<Rightarrow> nat \<Rightarrow> ctl \<Rightarrow> 'w \<Rightarrow> (nat \<times> ctl \<times> 'w) result" where
  "input_loop E 0 f bytes_read g w = Fail Diverge"
| "input_loop E (Suc n) f bytes_read g w =
     (case fgets E 9 w of
        (None, w) \<Rightarrow> Ok (bytes_read, g, w)
      | (Some cs, w) \<Rightarrow>
          rbind (input_round E f (cs @ replicate (9 - length cs) 0) g w) (\<lambda>(bytes_read, g, w).
          if (cs @ replicate (9 - length cs) 0) ! (bytes_read - 1) = 0 then Ok (bytes_read, g, w)
          else input_loop E n f bytes_read g w))"

definition input_datastream :: "'w avr \<Rightarrow> file_id \<Rightarrow> ctl \<Rightarrow> 'w \<Rightarrow> (nat \<times> ctl \<times> 'w) result" where
  "input_datastream E f g w =
     (let w = put E (str ''calling input_data'' @ crlf) w;
          w = busy_light E w in
      rbind (input_loop E (polls E) f 0 g w) (\<lambda>(bytes_read, g, w).
      rbind (i2c_writeReg E MB85RC_DEFAULT_ADDRESS 2 (le16 (f_end (file_of f g))) 2 w) (\<lambda>(_, w).
      Ok (bytes_read, g, ready_light E w))))"

definition read_data :: "'w avr \<Rightarrow> file_t \<Rightarrow> u8 list \<Rightarrow> u16 \<Rightarrow> u8 \<Rightarrow> 'w \<Rightarrow> (int \<times> u8 list \<times> 'w) result" where
  "read_data E f buffer address sz w =
     rbind (i2c_readReg E MB85RC_DEFAULT_ADDRESS address buffer (ucast sz) w) (\<lambda>(e, buffer, w).
     if 0 = e then rbind (strlen buffer) (\<lambda>n. Ok (int n, buffer, w)) else Ok (-1, buffer, w))"

text \<open>The loop of \<^verbatim>\<open>output_datastream\<close>: its address has come round after 8192 steps of 8.\<close>

fun output_loop :: "'w avr \<Rightarrow> nat \<Rightarrow> file_t \<Rightarrow> u16 \<Rightarrow> 'w \<Rightarrow> 'w result" where
  "output_loop E 0 f address w = Fail Diverge"
| "output_loop E (Suc n) f address w =
     (if address < f_end f then
        let sz = (if f_end f - address > 8 then 8 else f_end f - address) in
        if sz \<noteq> 0 then
          rbind (i2c_readReg E MB85RC_DEFAULT_ADDRESS address (replicate 9 0) sz w) (\<lambda>(_, buffer, w).
          let address = address + 8 in
          rbind (aget buffer 0) (\<lambda>b0.
          rbind (printf_data (takeWhile (\<lambda>c. c \<noteq> 0)
                   (if address = f_start f \<and> b0 = 42 then drop 1 buffer else buffer))) (\<lambda>out.
          output_loop E n f address (mainloop E (put E out w)))))
        else output_loop E n f address w
      else Ok w)"

definition output_datastream :: "'w avr \<Rightarrow> file_t \<Rightarrow> 'w \<Rightarrow> (u16 \<times> 'w) result" where
  "output_datastream E f w =
     (let w = put E (crlf @ str ''output_data'' @ crlf) w;
          w = put E (str ''file size: '' @ show_int16 (f_end f - f_start f) @ crlf) w;
          w = busy_light E w in
      rbind (output_loop E 8193 f (f_start f) w) (\<lambda>w.
      Ok (f_end f - f_start f, ready_light E w)))"

section \<open>Blocks and workers\<close>

definition sequence_step :: "'w avr \<Rightarrow> nat \<Rightarrow> block_seq_t list \<times> u16 \<times> 'w \<Rightarrow> (block_seq_t list \<times> u16 \<times> 'w) result" where
  "sequence_step E i st =
     (case st of (seq, address, w) \<Rightarrow>
        rbind (i2c_readReg E MB85RC_DEFAULT_ADDRESS address [0, 0] 2 w) (\<lambda>(e, buffer, w).
        if e \<noteq> 0 then Fail Uninitialised \<comment> \<open>\<^verbatim>\<open>buffer\<close> has not been set\<close>
        else
        rbind (aget buffer 0) (\<lambda>b0.
        rbind (aget buffer 1) (\<lambda>b1.
        rbind (aset seq (unat (drop_bit 1 b0)) \<lparr>seq_start = address, seq_size = drop_bit 2 b1\<rparr>) (\<lambda>seq.
        Ok (seq, address + ucast (drop_bit 2 b1) + 2, w))))))"

definition sequence_blocks :: "'w avr \<Rightarrow> block_seq_t list \<Rightarrow> u8 \<Rightarrow> 'w \<Rightarrow> (block_seq_t list \<times> 'w) result" where
  "sequence_blocks E seq block_count w =
     rbind (rfold (sequence_step E) [0..<unat block_count] (seq, 8, w)) (\<lambda>(seq, address, w). Ok (seq, w))"

text \<open>The scan stops at the first address without an answer; \<^verbatim>\<open>workers\<close> has ten places.\<close>

fun scan_loop :: "'w avr \<Rightarrow> nat \<Rightarrow> u8 list \<Rightarrow> u8 \<Rightarrow> u8 \<Rightarrow> 'w \<Rightarrow> (u8 list \<times> u8 \<times> 'w) result" where
  "scan_loop E 0 workers cnt workerID w = Fail Diverge"
| "scan_loop E (Suc n) workers cnt workerID w =
     rbind (i2c_start_timeout E (push_bit 1 workerID OR I2C_READ) 10 w) (\<lambda>(e, w).
     if e = 0 then
       let w = put E (str ''address '' @ hex_digits (unat workerID) @ str '' in use; trying next address.'' @ crlf) w in
       rbind (aset workers (unat cnt) workerID) (\<lambda>workers.
       scan_loop E n workers (cnt + 1) (workerID + 1) w)
     else Ok (workers, cnt, w))"

definition scan_i2c :: "'w avr \<Rightarrow> u8 list \<Rightarrow> 'w \<Rightarrow> (u8 list \<times> u8 \<times> 'w) result" where
  "scan_i2c E workers w = scan_loop E (Suc (length workers + 1)) workers 0 I2C_SLAVE_BASE_ID w"

text \<open>
  \<^verbatim>\<open>((end - start) / BLOCK_SIZE) + ((end - start) % BLOCK_SIZE) ? 1 : 0\<close>: the sum is the condition.
\<close>

definition encode_block_count :: "file_t \<Rightarrow> u8" where
  "encode_block_count f =
     (if (f_end f - f_start f) div of_nat BLOCK_SIZE + (f_end f - f_start f) mod of_nat BLOCK_SIZE \<noteq> 0
      then 1 else 0)"

text \<open>One worker in one round: collect a finished block, hand out the next one.\<close>

definition collect_block ::
  "'w avr \<Rightarrow> u8 \<Rightarrow> u8 \<Rightarrow> u8 \<Rightarrow> ctl \<Rightarrow> 'w \<Rightarrow> (u8 \<times> ctl \<times> 'w) result" where
  "collect_block E worker block_count block g w =
     rbind (i2c_readReg E worker 0 (in_buffer g) 2 w) (\<lambda>(_, buf, w).
     let g = g\<lparr>in_buffer := buf\<rparr> in
     rbind (aget (in_buffer g) 1) (\<lambda>bytes_in.
     if bytes_in \<noteq> 0 then
       rbind (i2c_readReg E worker 2 (drop 2 (in_buffer g)) (ucast bytes_in) w) (\<lambda>(_, tail, w).
       let g = g\<lparr>in_buffer := take 2 (in_buffer g) @ tail\<rparr> in
       rbind (i2c_writeReg E MB85RC_DEFAULT_ADDRESS (f_end (file_of Output g)) (in_buffer g) (ucast bytes_in + 2) w)
         (\<lambda>(_, w).
       let g = set_end Output (f_end (file_of Output g) + ucast bytes_in + 1) g;
           block = block + 1 in
       if block = block_count
       then rbind (i2c_writeReg E MB85RC_DEFAULT_ADDRESS (f_end (file_of Output g)) [block] 1 w) (\<lambda>(_, w). Ok (block, g, w))
       else Ok (block, g, w)))
     else Ok (block, g, w)))"

definition send_encode ::
  "'w avr \<Rightarrow> u8 \<Rightarrow> u8 \<Rightarrow> ctl \<Rightarrow> 'w \<Rightarrow> (u8 \<times> ctl \<times> 'w) result" where
  "send_encode E worker irp g w =
     (let rest = f_end (file_of Input g) - ucast irp;
          bytes_read = (if rest > of_nat BLOCK_SIZE then of_nat BLOCK_SIZE else ucast rest :: u8) in
      rbind (aset (out_buffer g) 1 bytes_read) (\<lambda>ob.
      rbind (i2c_readReg E MB85RC_DEFAULT_ADDRESS (ucast irp) (drop 2 ob) (ucast bytes_read) w) (\<lambda>(_, tail, w).
      let g = g\<lparr>out_buffer := take 2 ob @ tail\<rparr>;
          irp = irp + bytes_read in
      rbind (i2c_writeReg E worker 0 (out_buffer g) (ucast bytes_read + 2) w) (\<lambda>(_, w).
      Ok (irp, g, w)))))"

definition send_decode ::
  "'w avr \<Rightarrow> u8 \<Rightarrow> u8 \<Rightarrow> ctl \<Rightarrow> 'w \<Rightarrow> (u8 \<times> ctl \<times> 'w) result" where
  "send_decode E worker irp g w =
     rbind (i2c_readReg E MB85RC_DEFAULT_ADDRESS (ucast irp) (drop 1 (out_buffer g)) 1 w) (\<lambda>(_, tail, w).
     let ob = take 1 (out_buffer g) @ tail;
         irp = irp + 1 in
     rbind (aget ob 1) (\<lambda>n.
     rbind (i2c_readReg E MB85RC_DEFAULT_ADDRESS (ucast irp) (drop 2 ob) (ucast n) w) (\<lambda>(_, tail, w).
     let g = g\<lparr>out_buffer := take 2 ob @ tail\<rparr>;
         irp = irp + n in
     rbind (i2c_writeReg E worker 0 (out_buffer g) (ucast n + 2) w) (\<lambda>(_, w).
     Ok (irp, g, w)))))"

definition worker_step ::
  "'w avr \<Rightarrow> u8 \<Rightarrow> u8 \<Rightarrow> u8 list \<Rightarrow> nat \<Rightarrow> u8 \<times> u8 \<times> ctl \<times> 'w \<Rightarrow> (u8 \<times> u8 \<times> ctl \<times> 'w) result" where
  "worker_step E job block_count workers i st =
     (case st of (block, irp, g, w) \<Rightarrow>
        rbind (aget workers i) (\<lambda>worker.
        rbind (collect_block E worker block_count block g w) (\<lambda>(block, g, w).
        rbind (aget (in_buffer g) 0) (\<lambda>status.
        if status AND I2C_READY \<noteq> 0 then
          rbind (aset (out_buffer g) 0 (push_bit 1 block OR job)) (\<lambda>ob.
          let g = g\<lparr>out_buffer := ob\<rparr> in
          rbind (if job = ENCODE then send_encode E worker irp g w else send_decode E worker irp g w) (\<lambda>(irp, g, w).
          Ok (block, irp, g, w)))
        else Ok (block, irp, g, w)))))"

fun process_loop ::
  "'w avr \<Rightarrow> nat \<Rightarrow> u8 \<Rightarrow> u8 \<Rightarrow> u8 list \<Rightarrow> u8 \<Rightarrow> u8 \<Rightarrow> u8 \<Rightarrow> ctl \<Rightarrow> 'w \<Rightarrow> (ctl \<times> 'w) result" where
  "process_loop E 0 job block_count workers worker_count block irp g w = Fail Diverge"
| "process_loop E (Suc n) job block_count workers worker_count block irp g w =
     (if block < block_count then
        rbind (rfold (worker_step E job block_count workers) [0..<unat worker_count] (block, irp, g, w))
          (\<lambda>(block, irp, g, w).
        process_loop E n job block_count workers worker_count block irp g w)
      else Ok (g, w))"

definition processData :: "'w avr \<Rightarrow> ctl \<Rightarrow> 'w \<Rightarrow> (ctl \<times> 'w) result" where
  "processData E g w =
     rbind (i2c_readReg E MB85RC_DEFAULT_ADDRESS (f_start (file_of Input g)) [0] 1 w) (\<lambda>(_, job, w).
     rbind (aget job 0) (\<lambda>job.
     rbind (if job = 42
            then rbind (i2c_writeReg E MB85RC_DEFAULT_ADDRESS (f_start (file_of Output g)) [35] 1 w) (\<lambda>(_, w).
                 Ok (ENCODE, set_end Output (f_end (file_of Output g) + 1) g, w))
            else Ok (DECODE, g, w)) (\<lambda>(job, g, w).
     rbind (scan_i2c E (replicate 10 0) w) (\<lambda>(workers, worker_count, w).
     rbind (if ENCODE = job then Ok (encode_block_count (file_of Input g), w)
            else
              rbind (i2c_readReg E MB85RC_DEFAULT_ADDRESS (f_end (file_of Input g) - 1) [0] 1 w) (\<lambda>(_, bc, w).
              rbind (aget bc 0) (\<lambda>block_count.
              rbind (sequence_blocks E (replicate (unat block_count) \<lparr>seq_start = 0, seq_size = 0\<rparr>) block_count w)
                (\<lambda>(seq, w). Ok (block_count, w))))) (\<lambda>(block_count, w).
     process_loop E (polls E) job block_count workers worker_count 0
       (ucast (f_start (file_of Input g) + 1)) g w)))))"

section \<open>Button polling\<close>

text \<open>Eleven rounds are enough: the hold counter ends the loop in the eleventh.\<close>

fun pollA_loop :: "'w avr \<Rightarrow> (ctl \<Rightarrow> 'w \<Rightarrow> (ctl \<times> 'w) result) \<Rightarrow> nat \<Rightarrow> ctl \<Rightarrow> 'w \<Rightarrow> (ctl \<times> 'w) result" where
  "pollA_loop E irq 0 g w = Fail Diverge"
| "pollA_loop E irq (Suc n) g w =
     (if button_status g AND A_PRESS \<noteq> 0 \<and> \<not> (button_status g AND A_RELEASE \<noteq> 0) then
        rbind (irq g (delay_ms E 500 (busy_light E w))) (\<lambda>(g, w).
        let g = g\<lparr>buttonHoldCount := buttonHoldCount g + 1\<rparr> in
        if buttonHoldCount g > 10 then
          let w = put E (str ''calling format_storage'' @ crlf) w in
          rbind (format_storage E MB85RC_DEFAULT_ADDRESS w) (\<lambda>w. Ok (g, ready_light E w))
        else if button_status g AND A_RELEASE \<noteq> 0 then
          rbind (input_datastream E Input g w) (\<lambda>(n, g, w).
          let g = g\<lparr>g_bytes_read := of_nat n\<rparr> in
          rbind (output_datastream E (file_of Input g) w) (\<lambda>(_, w). Ok (g, ready_light E w)))
        else pollA_loop E irq n g w)
      else Ok (g, w))"

definition pollButtonA :: "'w avr \<Rightarrow> (ctl \<Rightarrow> 'w \<Rightarrow> (ctl \<times> 'w) result) \<Rightarrow> ctl \<Rightarrow> 'w \<Rightarrow> (ctl \<times> 'w) result" where
  "pollButtonA E irq g w = pollA_loop E irq 12 (g\<lparr>buttonHoldCount := 0\<rparr>) w"

fun pollC_loop :: "'w avr \<Rightarrow> (ctl \<Rightarrow> 'w \<Rightarrow> (ctl \<times> 'w) result) \<Rightarrow> nat \<Rightarrow> ctl \<Rightarrow> 'w \<Rightarrow> (ctl \<times> 'w) result" where
  "pollC_loop E irq 0 g w = Fail Diverge"
| "pollC_loop E irq (Suc n) g w =
     (if button_status g AND C_PRESS \<noteq> 0 \<and> \<not> (button_status g AND C_RELEASE \<noteq> 0) then
        rbind (irq g (delay_ms E 500 (busy_light E w))) (\<lambda>(g, w).
        let g = g\<lparr>buttonHoldCount := buttonHoldCount g + 1\<rparr> in
        if buttonHoldCount g > 10 then
          rbind (processData E g w) (\<lambda>(g, w). Ok (g, ready_light E w))
        else if button_status g AND A_RELEASE \<noteq> 0 then
          rbind (output_datastream E (file_of Output g) w) (\<lambda>(_, w). Ok (g, ready_light E w))
        else pollC_loop E irq n g w)
      else Ok (g, w))"

definition pollButtonC :: "'w avr \<Rightarrow> (ctl \<Rightarrow> 'w \<Rightarrow> (ctl \<times> 'w) result) \<Rightarrow> ctl \<Rightarrow> 'w \<Rightarrow> (ctl \<times> 'w) result" where
  "pollButtonC E irq g w = pollC_loop E irq 12 (g\<lparr>buttonHoldCount := 0\<rparr>) w"

section \<open>Initialisation and the main loop\<close>

definition initialize_fs :: "'w avr \<Rightarrow> ctl \<Rightarrow> 'w \<Rightarrow> (ctl \<times> 'w) result" where
  "initialize_fs E g w =
     rbind (i2c_readReg E MB85RC_DEFAULT_ADDRESS 0 (replicate 8 0) 8 w) (\<lambda>(e, m, w).
     if e \<noteq> 0 then Fail Uninitialised \<comment> \<open>\<^verbatim>\<open>metadata\<close> has not been set\<close>
     else
     let md = map (\<lambda>i. of_le16 (m ! (2 * i)) (m ! (2 * i + 1))) [0..<4];
         w = put E (str ''start '' @ show_int16 (md ! 0) @ crlf) w;
         w = put E (str ''end '' @ show_int16 (md ! 1) @ crlf) w in
     Ok (g\<lparr>fs := \<lparr>fs_input = \<lparr>f_start = md ! 0, f_end = md ! 1\<rparr>,
                   fs_output = \<lparr>f_start = md ! 2, f_end = md ! 3\<rparr>\<rparr>\<rparr>, w))"

text \<open>\<open>setup\<close> is \<^verbatim>\<open>SetupHardware\<close> of the linked serial library.\<close>

definition initialize_system :: "'w avr \<Rightarrow> ('w \<Rightarrow> 'w) \<Rightarrow> ctl \<Rightarrow> 'w \<Rightarrow> (ctl \<times> 'w) result" where
  "initialize_system E setup g w =
     (let w = initialize_leds E w;
          w = flash_led E led_red_e False w;
          w = flash_led E led_red_e False w in
      rbind (initialize_fs E g w) (\<lambda>(g, w).
      let w = flash_led E led_red_e False w;
          w = setup w;
          w = flash_led E led_red_e False w;
          b = initialize_buttons EmptyFunction (btns g);
          (b, w) = SetUpButton E button_A b w;
          (b, w) = SetUpButton E button_C b w;
          b = SetUpButtonAction button_A False A_press_cb b;
          b = SetUpButtonAction button_A True A_release_cb b;
          b = SetUpButtonAction button_C False C_press_cb b;
          b = SetUpButtonAction button_C True C_release_cb b
      in Ok (g\<lparr>btns := b\<rparr>, light_show E w)))"

text \<open>One turn of the control loop of \<^verbatim>\<open>main\<close>; \<open>irq\<close> is what was pending when the turn began.\<close>

definition main_turn :: "'w avr \<Rightarrow> (ctl \<Rightarrow> 'w \<Rightarrow> (ctl \<times> 'w) result) \<Rightarrow> ctl \<times> 'w \<Rightarrow> (ctl \<times> 'w) result" where
  "main_turn E irq s =
     (case s of (g, w) \<Rightarrow>
        rbind (irq g w) (\<lambda>(g, w).
        rbind (pollButtonA E irq g w) (\<lambda>(g, w).
        rbind (pollButtonC E irq g w) (\<lambda>(g, w).
        Ok (g, mainloop E w)))))"

text \<open>\<^verbatim>\<open>main\<close> up to its \<open>n\<close>-th turn; \<^verbatim>\<open>sei\<close> sets the interrupt flag of the status register.\<close>

definition main_turns ::
  "'w avr \<Rightarrow> ('w \<Rightarrow> 'w) \<Rightarrow> (ctl \<Rightarrow> 'w \<Rightarrow> (ctl \<times> 'w) result) \<Rightarrow> nat \<Rightarrow> ctl \<Rightarrow> 'w \<Rightarrow> (ctl \<times> 'w) result" where
  "main_turns E setup irq n g w =
     rbind (initialize_system E setup g w) (\<lambda>(g, w).
     rfold (\<lambda>_. main_turn E irq) [0..<n] (g, or_reg E SREG (bv 7) w))"

end
