(* ===== verification/Controller_Files.thy ===== *)
theory Controller_Files
  imports Controller
begin

text \<open>
  Files of the controller: what \<^verbatim>\<open>input_datastream\<close> stores, what \<^verbatim>\<open>output_datastream\<close> prints, and how the
  directory gets from the chip into the globals. The hypothesis \<open>console\<close> states what the code relies on
  beside the bus: the characters of \<^verbatim>\<open>stdin\<close> arrive in order, \<^verbatim>\<open>stdout\<close> appends, and neither the lamps
  nor the serial library touch the bus or the console.
\<close>

section \<open>The console\<close>

record desk = bus +
  stdin :: "u8 list"
  stdout :: "u8 list"

definition lamps_apart :: "'w avr \<Rightarrow> ('w \<Rightarrow> 'a desk_scheme) \<Rightarrow> bool" where
  "lamps_apart E V \<longleftrightarrow>
     (\<forall>r \<in> {PORTB, PORTD}. \<forall>w. V (snd (rd E r w)) = V w) \<and>
     (\<forall>r \<in> {PORTB, PORTD}. \<forall>b w. V (wr E r b w) = V w) \<and> (\<forall>w. V (mainloop E w) = V w)"

definition console_out :: "'w avr \<Rightarrow> ('w \<Rightarrow> 'a desk_scheme) \<Rightarrow> bool" where
  "console_out E V \<longleftrightarrow> (\<forall>s w. V (put E s w) = (V w)\<lparr>stdout := stdout (V w) @ s\<rparr>)"

definition console_in :: "'w avr \<Rightarrow> ('w \<Rightarrow> 'a desk_scheme) \<Rightarrow> bool" where
  "console_in E V \<longleftrightarrow>
     (\<forall>w. (stdin (V w) = [] \<longrightarrow> fst (getc E w) = None \<and> V (snd (getc E w)) = V w) \<and>
          (\<forall>c cs. stdin (V w) = c # cs \<longrightarrow>
             fst (getc E w) = Some c \<and> V (snd (getc E w)) = (V w)\<lparr>stdin := cs\<rparr>))"

definition console :: "'w avr \<Rightarrow> ('w \<Rightarrow> 'a desk_scheme) \<Rightarrow> bool" where
  "console E V \<longleftrightarrow> lamps_apart E V \<and> console_out E V \<and> console_in E V"

lemma console_simps:
  assumes "console E V"
  shows "V (busy_light E w) = V w" "V (ready_light E w) = V w" "V (mainloop E w) = V w"
    "V (put E s w) = (V w)\<lparr>stdout := stdout (V w) @ s\<rparr>"
  using assms
  by (simp_all add: console_def lamps_apart_def console_out_def busy_light_def ready_light_def led_defs
      SET_BIT_def CLEAR_BIT_def or_reg_def and_reg_def case_prod_unfold)

text \<open>What one \<^verbatim>\<open>fgets\<close> takes from the input: at most \<open>n\<close> characters, at most one line.\<close>

fun chunk :: "nat \<Rightarrow> u8 list \<Rightarrow> u8 list \<times> u8 list" where
  "chunk (Suc n) (c # cs) = (if c = 10 then ([c], cs) else (c # fst (chunk n cs), snd (chunk n cs)))"
| "chunk n cs = ([], cs)"

lemma chunk_append: "fst (chunk n t) @ snd (chunk n t) = t"
  by (induction n t rule: chunk.induct) auto

lemma chunk_length: "length (fst (chunk n t)) \<le> n"
  by (induction n t rule: chunk.induct) auto

lemma chunk_Nil_iff: "fst (chunk n t) = [] \<longleftrightarrow> n = 0 \<or> t = []"
  by (cases "(n, t)" rule: chunk.cases) auto

lemma fgets_chars_console:
  assumes "console E V"
  shows "fst (fgets_chars E n w) = fst (chunk n (stdin (V w))) \<and>
    V (snd (fgets_chars E n w)) = (V w)\<lparr>stdin := snd (chunk n (stdin (V w)))\<rparr>"
proof (induction n arbitrary: w)
  case (Suc n)
  have I: "console_in E V" using assms by (simp add: console_def)
  show ?case
  proof (cases "stdin (V w)")
    case Nil
    then show ?thesis using I by (simp add: console_in_def case_prod_unfold)
  next
    case (Cons c cs)
    then obtain u where u: "getc E w = (Some c, u)" "V u = (V w)\<lparr>stdin := cs\<rparr>"
      using I unfolding console_in_def by (metis prod.collapse)
    then show ?thesis using Suc.IH [of u] Cons by (simp add: case_prod_unfold)
  qed
qed simp

section \<open>Reading a file from the console\<close>

lemma set_end_set_end [simp]: "set_end f a (set_end f b g) = set_end f a g"
  by (cases f) (simp_all add: set_end_def)

lemma set_end_same [simp]: "set_end f (f_end (file_of f g)) g = g"
  by (cases f) (simp_all add: set_end_def file_of_def)

lemma strlen_padded: "0 \<notin> set cs \<Longrightarrow> strlen (cs @ 0 # zs) = Ok (length cs)"
  by (rule strlen_at)

text \<open>The flag that the first line of a file gets.\<close>

definition raw_flag :: "file_t \<Rightarrow> u8 list \<Rightarrow> u8 list" where
  "raw_flag f cs = (if f_end f = f_start f \<and> hd cs \<noteq> 35 then [42] else [])"

lemma input_round_stores:
  assumes F: "fram_bus E V MB85RC_DEFAULT_ADDRESS cap" and K: "console E V"
    and cs: "cs \<noteq> []" "0 \<notin> set cs" "length cs < 65535"
    and fits: "unat (f_end (file_of f g)) + length (raw_flag (file_of f g) cs @ cs) \<le> cap"
      "unat (f_end (file_of f g)) + length (raw_flag (file_of f g) cs @ cs) < 65536"
  shows "\<exists>w' p b. input_round E f (cs @ 0 # zs) g w =
       Ok (length cs, set_end f (f_end (file_of f g) + of_nat (length (raw_flag (file_of f g) cs @ cs))) g, w') \<and>
     V w' = (V w)\<lparr>phase := p, bptr := b,
       cells := store (cells (V w)) (unat (f_end (file_of f g))) (raw_flag (file_of f g) cs @ cs)\<rparr>"
proof -
  let ?e = "f_end (file_of f g)" and ?r = "raw_flag (file_of f g) cs"
  let ?w = "mainloop E w"
  have a0: "aget (cs @ 0 # zs) 0 = Ok (hd cs)" using cs(1) by (cases cs) (simp_all add: aget_def)
  have n: "unat (of_nat (length cs) :: u16) = length cs" using cs(3) by (intro unat_of_nat_u16) simp
  have "\<exists>g1 w1 p b. (if ?e = f_start (file_of f g) \<and> hd cs \<noteq> 35
             then rbind (i2c_writeReg E MB85RC_DEFAULT_ADDRESS ?e [42] 1 ?w) (\<lambda>(_, w). Ok (set_end f (?e + 1) g, w))
             else Ok (g, ?w)) = Ok (g1, w1) \<and> g1 = set_end f (?e + of_nat (length ?r)) g \<and>
      V w1 = (V w)\<lparr>phase := p, bptr := b, cells := store (cells (V w)) (unat ?e) ?r\<rparr>"
  proof (cases "?e = f_start (file_of f g) \<and> hd cs \<noteq> 35")
    case True
    then have r: "?r = [42]" by (simp add: raw_flag_def)
    have "unat (1 :: u16) \<le> length [42 :: u8]" "unat ?e + unat (1 :: u16) \<le> cap" using fits r by simp_all
    from i2c_writeReg_view [OF F this, of ?w] obtain w1 where
      "i2c_writeReg E MB85RC_DEFAULT_ADDRESS ?e [42] 1 ?w = Ok (0, w1)"
      "V w1 = (V ?w)\<lparr>phase := Idle, bptr := unat ?e + unat (1 :: u16),
         cells := store (cells (V ?w)) (unat ?e) (take (unat (1 :: u16)) [42])\<rparr>" by blast
    then show ?thesis using True r console_simps(3) [OF K] by auto
  next
    case False
    then have r: "?r = []" by (auto simp: raw_flag_def)
    have "V ?w = (V w)\<lparr>phase := phase (V w), bptr := bptr (V w), cells := store (cells (V w)) (unat ?e) ?r\<rparr>"
      using r console_simps(3) [OF K] by simp
    then show ?thesis using False r by fastforce
  qed
  then obtain g1 w1 p b where 1: "(if ?e = f_start (file_of f g) \<and> hd cs \<noteq> 35
             then rbind (i2c_writeReg E MB85RC_DEFAULT_ADDRESS ?e [42] 1 ?w) (\<lambda>(_, w). Ok (set_end f (?e + 1) g, w))
             else Ok (g, ?w)) = Ok (g1, w1)" "g1 = set_end f (?e + of_nat (length ?r)) g"
      "V w1 = (V w)\<lparr>phase := p, bptr := b, cells := store (cells (V w)) (unat ?e) ?r\<rparr>" by blast
  have e1: "f_end (file_of f g1) = ?e + of_nat (length ?r)" using 1(2) by simp
  have "unat ?e + length ?r < 65536" using fits(2) by simp
  then have u: "unat (f_end (file_of f g1)) = unat ?e + length ?r"
    unfolding e1 unat_word_ariths(1) by (simp add: unat_of_nat_u16 raw_flag_def)
  have "unat (of_nat (length cs) :: u16) \<le> length (cs @ 0 # zs)"
    "unat (f_end (file_of f g1)) + unat (of_nat (length cs) :: u16) \<le> cap" using n u fits(1) by simp_all
  from i2c_writeReg_view [OF F this, of "mainloop E w1"] obtain w2 where
    2: "i2c_writeReg E MB85RC_DEFAULT_ADDRESS (f_end (file_of f g1)) (cs @ 0 # zs) (of_nat (length cs)) (mainloop E w1) = Ok (0, w2)"
    "V w2 = (V w1)\<lparr>phase := Idle, bptr := unat (f_end (file_of f g1)) + length cs,
       cells := store (cells (V w1)) (unat (f_end (file_of f g1))) cs\<rparr>"
    using console_simps(3) [OF K] n by auto
  have "input_round E f (cs @ 0 # zs) g w = Ok (length cs, set_end f (f_end (file_of f g1) + of_nat (length cs)) g1, w2)"
    unfolding input_round_def Let_def strlen_padded [OF cs(2)] rbind.simps a0 1(1) using 2(1) cs(1) by simp
  moreover have "set_end f (f_end (file_of f g1) + of_nat (length cs)) g1 = set_end f (?e + of_nat (length (?r @ cs))) g"
    using 1(2) e1 by (simp add: add.assoc)
  moreover have "V w2 = (V w)\<lparr>phase := Idle, bptr := unat (f_end (file_of f g1)) + length cs,
      cells := store (cells (V w)) (unat ?e) (?r @ cs)\<rparr>"
    using 2(2) 1(3) u by (simp add: store_append)
  ultimately show ?thesis by metis
qed

text \<open>What a file gains from a text: nothing from an empty one, a flag before the first line of an empty file.\<close>

definition gained :: "file_t \<Rightarrow> u8 list \<Rightarrow> u8 list" where
  "gained f t = (if t = [] then [] else raw_flag f t @ t)"

lemma gained_chunk:
  assumes "t \<noteq> []" and "n \<noteq> 0" and "unat (f_start f) \<le> unat (f_end f)"
    and "unat (f_end f) + length (gained f t) < 65536"
  defines "r \<equiv> raw_flag f (fst (chunk n t)) @ fst (chunk n t)"
  shows "gained f t = r @ gained (f\<lparr>f_end := f_end f + of_nat (length r)\<rparr>) (snd (chunk n t))"
    and "unat (f_end f + of_nat (length r)) = unat (f_end f) + length r"
proof -
  have hd: "hd (fst (chunk n t)) = hd t" and ne: "fst (chunk n t) \<noteq> []"
    using assms(1,2) chunk_append [of n t] chunk_Nil_iff [of n t] by (metis hd_append2, simp)
  have g: "gained f t = r @ snd (chunk n t)"
    using assms(1) hd chunk_append [of n t] by (simp add: gained_def r_def raw_flag_def)
  then have "length r \<le> length (gained f t)" by simp
  then have lr: "unat (f_end f) + length r < 65536" using assms(4) by linarith
  then show u: "unat (f_end f + of_nat (length r)) = unat (f_end f) + length r"
    unfolding unat_word_ariths(1) by (simp add: unat_of_nat_u16)
  have "0 < length r" using ne by (simp add: r_def)
  then have "f_end f + of_nat (length r) \<noteq> f_start f" using u assms(3) by auto
  then show "gained f t = r @ gained (f\<lparr>f_end := f_end f + of_nat (length r)\<rparr>) (snd (chunk n t))"
    using g by (simp add: gained_def raw_flag_def)
qed

lemma fgets_console:
  assumes "console E V"
  obtains w' where "V w' = (V w)\<lparr>stdin := snd (chunk 8 (stdin (V w)))\<rparr>"
    and "fgets E 9 w = (if stdin (V w) = [] then None else Some (fst (chunk 8 (stdin (V w))) @ [0]), w')"
proof -
  have c: "fst (fgets_chars E 8 w) = fst (chunk 8 (stdin (V w)))"
    "V (snd (fgets_chars E 8 w)) = (V w)\<lparr>stdin := snd (chunk 8 (stdin (V w)))\<rparr>"
    using fgets_chars_console [OF assms, of 8 w] by simp_all
  then show thesis
    by (intro that [OF c(2)]) (simp add: fgets_def case_prod_unfold chunk_Nil_iff)
qed

lemma input_loop_stores:
  assumes F: "fram_bus E V MB85RC_DEFAULT_ADDRESS cap" and K: "console E V"
  shows "0 \<notin> set (stdin (V w)) \<Longrightarrow> length (stdin (V w)) < n \<Longrightarrow>
    unat (f_start (file_of f g)) \<le> unat (f_end (file_of f g)) \<Longrightarrow>
    unat (f_end (file_of f g)) + length (gained (file_of f g) (stdin (V w))) \<le> cap \<Longrightarrow>
    unat (f_end (file_of f g)) + length (gained (file_of f g) (stdin (V w))) < 65536 \<Longrightarrow>
    \<exists>k' w' p b. input_loop E n f k g w =
        Ok (k', set_end f (f_end (file_of f g) + of_nat (length (gained (file_of f g) (stdin (V w))))) g, w') \<and>
      V w' = (V w)\<lparr>phase := p, bptr := b, stdin := [],
        cells := store (cells (V w)) (unat (f_end (file_of f g))) (gained (file_of f g) (stdin (V w)))\<rparr>"
proof (induction n arbitrary: k g w)
  case (Suc n)
  define t where "t = stdin (V w)"
  define c where "c = fst (chunk 8 t)"
  define t' where "t' = snd (chunk 8 t)"
  let ?f = "file_of f g"
  let ?r = "raw_flag ?f c @ c"
  obtain u where u: "V u = (V w)\<lparr>stdin := t'\<rparr>" "fgets E 9 w = (if t = [] then None else Some (c @ [0]), u)"
    using fgets_console [OF K, of w] unfolding t_def c_def t'_def by blast
  show ?case
  proof (cases "t = []")
    case True
    have "V u = (V w)\<lparr>phase := phase (V w), bptr := bptr (V w), stdin := [],
        cells := store (cells (V w)) (unat (f_end ?f)) (gained ?f t)\<rparr>"
      using u(1) True by (simp add: t'_def gained_def)
    moreover have "input_loop E (Suc n) f k g w = Ok (k, g, u)" using u(2) True by simp
    ultimately show ?thesis unfolding t_def [symmetric] using True by (fastforce simp: gained_def)
  next
    case False
    note prems = Suc.prems [folded t_def]
    have split: "c @ t' = t" and c: "c \<noteq> []" "length c \<le> 8"
      using False chunk_append [of 8 t] chunk_length [of 8 t] chunk_Nil_iff [of 8 t] by (simp_all add: c_def t'_def)
    have zero: "0 \<notin> set c" "0 \<notin> set t'" using prems(1) split by auto
    note gc = gained_chunk [where n = 8, OF False _ prems(3,5), folded c_def t'_def, simplified]
    let ?g = "set_end f (f_end ?f + of_nat (length ?r)) g"
    have "length (gained ?f t) = length ?r + length (gained (file_of f ?g) t')" using gc(1) by simp
    then have fits: "unat (f_end ?f) + length ?r \<le> cap" "unat (f_end ?f) + length ?r < 65536" using prems(4,5) by linarith+
    have short: "length c < 65535" using c(2) by simp
    from input_round_stores [OF F K c(1) zero(1) short fits, of "replicate (8 - length c) 0" u]
    obtain w1 p b where w1: "input_round E f (c @ 0 # replicate (8 - length c) 0) g u = Ok (length c, ?g, w1)"
      "V w1 = (V u)\<lparr>phase := p, bptr := b, cells := store (cells (V u)) (unat (f_end ?f)) ?r\<rparr>" by blast
    have in1: "stdin (V w1) = t'" using w1(2) u(1) by simp
    have e1: "unat (f_end (file_of f ?g)) = unat (f_end ?f) + length ?r" using gc(2) by simp
    have len: "length (gained ?f t) = length ?r + length (gained (file_of f ?g) t')" using gc(1) by simp
    have "length t' < n" using prems(2) split c(1) by (cases c) auto
    with Suc.IH [of w1 ?g "length c"] zero(2) prems(3-5) e1 len in1 obtain k' w' p' b' where
      w': "input_loop E n f (length c) ?g w1
          = Ok (k', set_end f (f_end (file_of f ?g) + of_nat (length (gained (file_of f ?g) t'))) ?g, w')"
      "V w' = (V w1)\<lparr>phase := p', bptr := b', stdin := [],
         cells := store (cells (V w1)) (unat (f_end (file_of f ?g))) (gained (file_of f ?g) t')\<rparr>" by fastforce
    have "c @ [0] @ replicate (9 - length (c @ [0])) 0 = c @ 0 # replicate (8 - length c) (0 :: u8)" using c(2) by simp
    moreover have "(c @ 0 # replicate (8 - length c) 0) ! (length c - 1) \<noteq> 0"
      using c(1) zero(1) by (simp add: nth_append) (metis last_conv_nth last_in_set One_nat_def)
    ultimately have "input_loop E (Suc n) f k g w = input_loop E n f (length c) ?g w1"
      using u(2) False w1(1) by simp
    moreover have "set_end f (f_end (file_of f ?g) + of_nat (length (gained (file_of f ?g) t'))) ?g
        = set_end f (f_end ?f + of_nat (length (gained ?f t))) g" using len by (simp add: add.assoc)
    moreover have "V w' = (V w)\<lparr>phase := p', bptr := b', stdin := [],
         cells := store (cells (V w)) (unat (f_end ?f)) (gained ?f t)\<rparr>"
      using w'(2) w1(2) u(1) e1 gc(1) by (simp add: store_append add.assoc)
    ultimately show ?thesis using w'(1) unfolding t_def [symmetric] by metis
  qed
qed simp

section \<open>Printing a file to the console\<close>

lemma takeWhile_padded: "0 \<notin> set s \<Longrightarrow> 0 < k \<Longrightarrow> takeWhile (\<lambda>c. c \<noteq> 0) (s @ replicate k 0) = (s :: u8 list)"
  by (cases k) (simp_all add: takeWhile_append takeWhile_eq_all_conv)

text \<open>The file as the loop sees it from address \<open>a\<close> on: printable, inside the chip, away from the wrap of the
  address.\<close>

definition printable :: "u8 list \<Rightarrow> bool" where
  "printable s \<longleftrightarrow> 0 \<notin> set s \<and> 37 \<notin> set s"

lemma printable_append [simp]: "printable (a @ b) \<longleftrightarrow> printable a \<and> printable b"
  by (auto simp: printable_def)

lemma output_loop_prints:
  assumes F: "fram_bus E V MB85RC_DEFAULT_ADDRESS cap" and K: "console E V"
    and f: "unat (f_end f) \<le> cap" "unat (f_end f) \<le> 65528"
  shows "unat (f_start f) \<le> unat a \<Longrightarrow> unat (f_end f) - unat a \<le> 8 * n \<Longrightarrow>
    printable (fetch (cells (V w)) (unat a) (unat (f_end f) - unat a)) \<Longrightarrow>
    \<exists>w' p b. output_loop E (Suc n) f a w = Ok w' \<and>
      V w' = (V w)\<lparr>phase := p, bptr := b,
        stdout := stdout (V w) @ fetch (cells (V w)) (unat a) (unat (f_end f) - unat a)\<rparr>"
proof (induction n arbitrary: a w)
  case 0
  then have "\<not> a < f_end f" "unat (f_end f) - unat a = 0" by (simp_all add: word_less_nat_alt)
  then show ?case
    by (intro exI [of _ w] exI [of _ "phase (V w)"] exI [of _ "bptr (V w)"]) simp
next
  case (Suc n)
  show ?case
  proof (cases "a < f_end f")
    case False
    then have "unat (f_end f) - unat a = 0" by (simp add: word_less_nat_alt)
    with False show ?thesis
      by (intro exI [of _ w] exI [of _ "phase (V w)"] exI [of _ "bptr (V w)"]) simp
  next
    case True
    let ?d = "unat (f_end f) - unat a"
    define k where "k = (if f_end f - a > 8 then 8 else f_end f - a)"
    define s where "s = fetch (cells (V w)) (unat a) (unat k)"
    have d: "unat (f_end f - a) = ?d" using True by (simp add: unat_sub word_less_nat_alt word_le_nat_alt)
    have k: "unat k = min 8 ?d" "0 < unat k" "k \<noteq> 0"
      using True d by (auto simp: k_def word_less_nat_alt word_gt_0 unat_gt_0)
    have a8: "unat (a + 8) = unat a + 8"
      using True f(2) unfolding unat_word_ariths(1) by (simp add: word_less_nat_alt)
    have "0 < k" "unat k \<le> length (replicate 9 (0 :: u8))" "unat a + unat k \<le> cap"
      using k f(1) True by (simp_all add: word_gt_0 word_less_nat_alt)
    from i2c_readReg_view [OF F this, of w] obtain w1 where
      w1: "i2c_readReg E MB85RC_DEFAULT_ADDRESS a (replicate 9 0) k w = Ok (0, s @ replicate (9 - unat k) 0, w1)"
      "V w1 = (V w)\<lparr>phase := Idle, bptr := unat a + unat k\<rparr>" unfolding s_def by auto
    let ?w = "mainloop E (put E s w1)"
    have rest: "fetch (cells (V w)) (unat a) ?d = s @ fetch (cells (V w)) (unat (a + 8)) (unat (f_end f) - unat (a + 8))"
    proof (cases "?d \<le> 8")
      case False
      then have d8: "?d = 8 + (unat (f_end f) - unat (a + 8))" and k8: "unat k = 8" using k(1) a8 by simp_all
      show ?thesis unfolding s_def k8 d8 fetch_append a8 ..
    qed (use k(1) a8 in \<open>simp add: s_def\<close>)
    with Suc.prems(3) have s: "printable s"
      "printable (fetch (cells (V w)) (unat (a + 8)) (unat (f_end f) - unat (a + 8)))" by simp_all
    have Vw: "V ?w = (V w)\<lparr>phase := Idle, bptr := unat a + unat k, stdout := stdout (V w) @ s\<rparr>"
      using w1(2) console_simps(3,4) [OF K] by simp
    have "output_loop E (Suc (Suc n)) f a w = output_loop E (Suc n) f (a + 8) ?w"
    proof -
      have ne: "a + 8 \<noteq> f_start f" using Suc.prems(1) a8 by auto
      have b0: "\<exists>b. aget (s @ replicate (9 - unat k) 0) 0 = Ok b" using k by (simp add: aget_def s_def)
      have "takeWhile (\<lambda>c. c \<noteq> 0) (s @ replicate (9 - unat k) 0) = s" "printf_data s = Ok s"
        using s(1) k(1) by (auto simp: printable_def printf_data_plain intro: takeWhile_padded)
      then show ?thesis using True w1(1) b0 ne k(3)
        by (subst output_loop.simps) (auto simp: k_def [symmetric] Let_def simp del: output_loop.simps)
    qed
    moreover have "unat (f_start f) \<le> unat (a + 8)" "unat (f_end f) - unat (a + 8) \<le> 8 * n"
      using Suc.prems(1,2) a8 by simp_all
    from Suc.IH [OF this, of ?w] obtain w' p b where "output_loop E (Suc n) f (a + 8) ?w = Ok w'"
      "V w' = (V ?w)\<lparr>phase := p, bptr := b,
        stdout := stdout (V ?w) @ fetch (cells (V ?w)) (unat (a + 8)) (unat (f_end f) - unat (a + 8))\<rparr>"
      using s(2) Vw by auto
    ultimately show ?thesis using Vw rest by auto
  qed
qed

text \<open>The two streams end to end.\<close>

lemma input_datastream_stores:
  assumes F: "fram_bus E V MB85RC_DEFAULT_ADDRESS cap" and K: "console E V"
    and inp: "0 \<notin> set (stdin (V w))" "length (stdin (V w)) < polls E"
    and f: "4 \<le> cap" "unat (f_start (file_of f g)) \<le> unat (f_end (file_of f g))"
      "unat (f_end (file_of f g)) + length (gained (file_of f g) (stdin (V w))) \<le> cap"
      "unat (f_end (file_of f g)) + length (gained (file_of f g) (stdin (V w))) < 65536"
  defines "e \<equiv> f_end (file_of f g) + of_nat (length (gained (file_of f g) (stdin (V w))))"
  shows "\<exists>k w'. input_datastream E f g w = Ok (k, set_end f e g, w') \<and>
    cells (V w') = store (store (cells (V w)) (unat (f_end (file_of f g))) (gained (file_of f g) (stdin (V w)))) 2 (le16 e)"
proof -
  let ?w = "busy_light E (put E (str ''calling input_data'' @ crlf) w)"
  have Vw: "V ?w = (V w)\<lparr>stdout := stdout (V w) @ str ''calling input_data'' @ crlf\<rparr>"
    using console_simps [OF K] by simp
  from input_loop_stores [OF F K, of ?w "polls E" f g 0] inp f(2-4) Vw obtain k w1 p b where
    w1: "input_loop E (polls E) f 0 g ?w = Ok (k, set_end f e g, w1)"
    "V w1 = (V ?w)\<lparr>phase := p, bptr := b, stdin := [],
       cells := store (cells (V w)) (unat (f_end (file_of f g))) (gained (file_of f g) (stdin (V w)))\<rparr>"
    unfolding e_def by auto
  have fits: "unat (2 :: u16) \<le> length (le16 e)" "unat (2 :: u16) + unat (2 :: u16) \<le> cap"
    using f(1) by simp_all
  obtain w2 where w2: "i2c_writeReg E MB85RC_DEFAULT_ADDRESS 2 (le16 e) 2 w1 = Ok (0, w2)"
    "cells (V w2) = store (cells (V w1)) (unat (2 :: u16)) (take (unat (2 :: u16)) (le16 e))"
    by (rule i2c_writeReg_fram [OF F fits])
  have "input_datastream E f g w = Ok (k, set_end f e g, ready_light E w2)"
    unfolding input_datastream_def Let_def w1(1) using w2(1) by simp
  moreover have "cells (V (ready_light E w2)) = store (store (cells (V w)) (unat (f_end (file_of f g)))
      (gained (file_of f g) (stdin (V w)))) 2 (le16 e)"
    using w2(2) w1(2) console_simps(2) [OF K] by simp
  ultimately show ?thesis by blast
qed

definition output_header :: "file_t \<Rightarrow> u8 list" where
  "output_header f = crlf @ str ''output_data'' @ crlf @ str ''file size: '' @ show_int16 (f_end f - f_start f) @ crlf"

lemma output_datastream_prints:
  assumes F: "fram_bus E V MB85RC_DEFAULT_ADDRESS cap" and K: "console E V"
    and f: "unat (f_end f) \<le> cap" "unat (f_end f) \<le> 65528"
    and p: "printable (fetch (cells (V w)) (unat (f_start f)) (unat (f_end f) - unat (f_start f)))"
  shows "\<exists>w'. output_datastream E f w = Ok (f_end f - f_start f, w') \<and>
    stdout (V w') = stdout (V w) @ output_header f @
      fetch (cells (V w)) (unat (f_start f)) (unat (f_end f) - unat (f_start f))"
proof -
  let ?w = "busy_light E (put E (str ''file size: '' @ show_int16 (f_end f - f_start f) @ crlf)
    (put E (crlf @ str ''output_data'' @ crlf) w))"
  have Vw: "V ?w = (V w)\<lparr>stdout := stdout (V w) @ output_header f\<rparr>"
    using console_simps [OF K] by (simp add: output_header_def)
  have "unat (f_end f) - unat (f_start f) \<le> 8 * 8192" using f(2) by simp
  from output_loop_prints [OF F K f order.refl this, of ?w] p Vw obtain w1 p b where
    w1: "output_loop E (Suc 8192) f (f_start f) ?w = Ok w1"
    "V w1 = (V w)\<lparr>stdout := stdout (V w) @ output_header f, phase := p, bptr := b,
        stdout := (stdout (V w) @ output_header f) @
          fetch (cells (V w)) (unat (f_start f)) (unat (f_end f) - unat (f_start f))\<rparr>" by auto
  have "(8193 :: nat) = Suc 8192" by simp
  then have "output_datastream E f w = Ok (f_end f - f_start f, ready_light E w1)"
    unfolding output_datastream_def Let_def using w1(1) by (simp only: rbind.simps)
  then show ?thesis using w1(2) console_simps(2) [OF K] by simp
qed

lemma initialize_fs_reads:
  assumes "i2c_readReg E MB85RC_DEFAULT_ADDRESS 0 (replicate 8 0) 8 w = Ok (0, m, w')"
    and "map (\<lambda>i. of_le16 (m ! (2 * i)) (m ! (2 * i + 1))) [0..<4] = [a, b, c, d]"
  shows "\<exists>w''. initialize_fs E g w =
    Ok (g\<lparr>fs := \<lparr>fs_input = \<lparr>f_start = a, f_end = b\<rparr>, fs_output = \<lparr>f_start = c, f_end = d\<rparr>\<rparr>\<rparr>, w'')"
  unfolding initialize_fs_def Let_def assms(1) rbind.simps case_prod_conv assms(2) by simp

section \<open>A machine with a console\<close>

definition sim_desk :: "sim \<Rightarrow> desk" where
  "sim_desk w = \<lparr>phase = phase (sim_bus w), bptr = bptr (sim_bus w), cells = cells (sim_bus w),
     stdin = sim_in w, stdout = sim_out w\<rparr>"

lemma sim_desk_bus: "fram_bus (sim_avr dev) sim_desk dev cap"
proof -
  have "push_bit 1 dev OR 1 \<noteq> push_bit 1 dev"
  proof
    assume "push_bit 1 dev OR 1 = push_bit 1 dev"
    then have "bit (push_bit 1 dev OR 1) 0 = bit (push_bit 1 dev) 0" by simp
    then show False unfolding bit_or_iff bit_push_bit_iff by simp
  qed
  then show ?thesis
    unfolding fram_bus_def quiet_reads_def start_sent_def address_acked_def flag_kept_def byte_written_def byte_read_def stop_sent_def
    by (auto simp: sim_desk_def sim_rd_def sim_wr_def sim_byte_def can_write_def twi_consts bus_write_def Let_def split: phase.splits)
qed

lemma sim_console: "console (sim_avr dev) sim_desk"
  unfolding console_def lamps_apart_def console_out_def console_in_def
  by (auto simp: sim_avr_def sim_desk_def sim_rd_def sim_wr_def)

definition ctl0 :: ctl where
  "ctl0 = \<lparr>fs = \<lparr>fs_input = \<lparr>f_start = 8, f_end = 8\<rparr>, fs_output = \<lparr>f_start = 16004, f_end = 16004\<rparr>\<rparr>,
     g_bytes_read = 0, buttonHoldCount = 0, button_status = 0, in_buffer = replicate 256 0, out_buffer = replicate 256 0,
     btns = \<lparr>fn_release_A = EmptyFunction, fn_press_A = EmptyFunction, fn_release_C = EmptyFunction,
             fn_press_C = EmptyFunction, pinb_previous = 0\<rparr>\<rparr>"

section \<open>Properties\<close>

text \<open>C4: a text typed into an empty input file is stored behind the flag \<^verbatim>\<open>*\<close>, the directory on the chip gets
  the new end of the file, and printing the file afterwards gives the text back with the flag still in
  front of it.\<close>

theorem typed_text_comes_back:
  assumes "fram_bus E V MB85RC_DEFAULT_ADDRESS cap" and "console E V"
    and "stdin (V w) = txt" and "txt \<noteq> []" and "printable txt" and "hd txt \<noteq> 35" and "length txt < polls E"
    and "file_of Input g = \<lparr>f_start = a, f_end = a\<rparr>" and "8 \<le> unat a"
    and "unat a + Suc (length txt) \<le> cap" and "unat a + Suc (length txt) \<le> 65528"
  shows "\<exists>k g' w' w''. input_datastream E Input g w = Ok (k, g', w') \<and>
    file_of Input g' = \<lparr>f_start = a, f_end = a + of_nat (Suc (length txt))\<rparr> \<and>
    fetch (cells (V w')) 2 2 = le16 (a + of_nat (Suc (length txt))) \<and>
    fetch (cells (V w')) (unat a) (Suc (length txt)) = 42 # txt \<and>
    output_datastream E (file_of Input g') w' = Ok (of_nat (Suc (length txt)), w'') \<and>
    stdout (V w'') = stdout (V w') @ output_header (file_of Input g') @ 42 # txt"
proof -
  let ?e = "a + of_nat (Suc (length txt))"
  have gain: "gained (file_of Input g) txt = 42 # txt"
    using assms(4,6,8) by (simp add: gained_def raw_flag_def)
  have e: "unat ?e = unat a + Suc (length txt)"
    using assms(11) unfolding unat_word_ariths(1) by (simp add: unat_of_nat_u16 del: of_nat_Suc)
  have "0 \<notin> set (stdin (V w))" "4 \<le> cap" using assms(3,5,9,10) by (auto simp: printable_def)
  from input_datastream_stores [OF assms(1,2) this(1) _ this(2), of Input g] obtain k w' where
    w': "input_datastream E Input g w = Ok (k, set_end Input ?e g, w')"
    "cells (V w') = store (store (cells (V w)) (unat a) (42 # txt)) 2 (le16 ?e)"
    using assms(3,7,8,10,11) gain by (auto simp del: of_nat_Suc)
  let ?g = "set_end Input ?e g"
  have f: "file_of Input ?g = \<lparr>f_start = a, f_end = ?e\<rparr>" using assms(8) by simp
  have dir: "fetch (cells (V w')) 2 2 = le16 ?e"
    unfolding w'(2) using fetch_store [of _ 2 "le16 ?e"] by simp
  have body: "fetch (cells (V w')) (unat a) (Suc (length txt)) = 42 # txt"
    unfolding w'(2) using assms(9) fetch_store [of _ "unat a" "42 # txt"] by (simp add: fetch_store_other)
  let ?f = "\<lparr>f_start = a, f_end = ?e\<rparr>"
  have "unat (f_end ?f) \<le> cap" "unat (f_end ?f) \<le> 65528" "unat (f_end ?f) - unat (f_start ?f) = Suc (length txt)"
    using e assms(10,11) by simp_all
  moreover have "printable (42 # txt)" using assms(5) by (simp add: printable_def)
  ultimately obtain w'' where "output_datastream E ?f w' = Ok (?e - a, w'')"
    "stdout (V w'') = stdout (V w') @ output_header ?f @ 42 # txt"
    using output_datastream_prints [OF assms(1,2), of ?f w'] body by auto
  then show ?thesis using w'(1) f dir body by auto
qed

theorem typed_text_comes_back_witness:
  "\<exists>k g' w' w''. input_datastream (sim_avr MB85RC_DEFAULT_ADDRESS) Input ctl0 (sim_start [104, 105]) = Ok (k, g', w') \<and>
     fetch (cells (sim_desk w')) 2 2 = [11, 0] \<and> fetch (cells (sim_desk w')) 8 3 = [42, 104, 105] \<and>
     output_datastream (sim_avr MB85RC_DEFAULT_ADDRESS) (file_of Input g') w' = Ok (3, w'')"
proof -
  have "stdin (sim_desk (sim_start [104, 105])) = [104, 105]" "[104, 105 :: u8] \<noteq> []" "printable [104, 105]"
    "hd [104, 105 :: u8] \<noteq> 35" "length [104, 105 :: u8] < polls (sim_avr MB85RC_DEFAULT_ADDRESS)"
    "file_of Input ctl0 = \<lparr>f_start = 8, f_end = 8\<rparr>" "8 \<le> unat (8 :: u16)"
    "unat (8 :: u16) + Suc (length [104, 105 :: u8]) \<le> 32768" "unat (8 :: u16) + Suc (length [104, 105 :: u8]) \<le> 65528"
    by (simp_all add: sim_desk_def sim_start_def printable_def sim_avr_def ctl0_def file_of_def)
  from typed_text_comes_back [OF sim_desk_bus sim_console this]
  obtain k g' w' w'' where r: "input_datastream (sim_avr MB85RC_DEFAULT_ADDRESS) Input ctl0 (sim_start [104, 105]) = Ok (k, g', w')"
    "fetch (cells (sim_desk w')) 2 2 = le16 (8 + of_nat (Suc (length [104, 105 :: u8])))"
    "fetch (cells (sim_desk w')) (unat (8 :: u16)) (Suc (length [104, 105 :: u8])) = 42 # [104, 105]"
    "output_datastream (sim_avr MB85RC_DEFAULT_ADDRESS) (file_of Input g') w' = Ok (of_nat (Suc (length [104, 105 :: u8])), w'')"
    by blast
  have "fetch (cells (sim_desk w')) 2 2 = [11, 0]" unfolding r(2) by code_simp
  moreover have "fetch (cells (sim_desk w')) 8 3 = [42, 104, 105]" using r(3) by (simp add: numeral_3_eq_3)
  moreover have "output_datastream (sim_avr MB85RC_DEFAULT_ADDRESS) (file_of Input g') w' = Ok (3, w'')" using r(4) by simp
  ultimately show ?thesis using r(1) by blast
qed

text \<open>The bytes of a file are used as the format of \<^verbatim>\<open>printf\<close>: a file that begins with a percent sign
  followed by another character cannot be printed.\<close>

theorem output_percent_fails:
  assumes "fram_bus E V MB85RC_DEFAULT_ADDRESS cap" and "console E V"
    and "unat (f_start f) + 8 \<le> unat (f_end f)" and "unat (f_end f) \<le> cap"
    and "cells (V w) (unat (f_start f)) = 37"
    and "cells (V w) (Suc (unat (f_start f))) \<noteq> 37"
  shows "output_datastream E f w = Fail Bad_Format"
proof -
  let ?w = "busy_light E (put E (str ''file size: '' @ show_int16 (f_end f - f_start f) @ crlf)
    (put E (crlf @ str ''output_data'' @ crlf) w))"
  define k where "k = (if f_end f - f_start f > 8 then 8 else f_end f - f_start f)"
  have lt: "f_start f < f_end f" using assms(3) by (simp add: word_less_nat_alt)
  have "unat (f_end f - f_start f) = unat (f_end f) - unat (f_start f)"
    using lt by (simp add: unat_sub word_less_nat_alt word_le_nat_alt)
  then have k: "unat k = 8" using assms(3) by (auto simp: k_def word_less_nat_alt)
  then have "0 < k" "unat k \<le> length (replicate 9 (0 :: u8))" "unat (f_start f) + unat k \<le> cap"
    using assms(3,4) by (simp_all add: word_gt_0 word_less_nat_alt)
  from i2c_readReg_view [OF assms(1) this, of ?w] obtain w1 where
    w1: "i2c_readReg E MB85RC_DEFAULT_ADDRESS (f_start f) (replicate 9 0) k ?w
      = Ok (0, fetch (cells (V ?w)) (unat (f_start f)) 8 @ [0], w1)" using k by auto
  have "cells (V ?w) = cells (V w)" using console_simps [OF assms(2)] by simp
  then obtain d ds where buf: "fetch (cells (V ?w)) (unat (f_start f)) 8 @ [0] = 37 # d # ds" "d \<noteq> 37"
    using assms(5,6) by (simp add: fetch_def upt_rec)
  have "printf_data (takeWhile (\<lambda>c. c \<noteq> 0) (37 # d # ds)) = Fail Bad_Format"
    using buf(2) by (simp split: list.splits)
  then have "output_loop E (Suc 8192) f (f_start f) ?w = Fail Bad_Format"
    using lt w1 k buf(1)
    by (subst output_loop.simps) (auto simp: k_def [symmetric] Let_def aget_def simp del: output_loop.simps)
  moreover have "(8193 :: nat) = Suc 8192" by simp
  ultimately show ?thesis
    unfolding output_datastream_def Let_def by (simp only: rbind.simps)
qed

theorem output_percent_fails_witness:
  "output_datastream (sim_avr MB85RC_DEFAULT_ADDRESS) \<lparr>f_start = 8, f_end = 20\<rparr>
     (sim_start []\<lparr>sim_bus := \<lparr>phase = Idle, bptr = 0, cells = (\<lambda>_. 0)(8 := 37, 9 := 100)\<rparr>\<rparr>) = Fail Bad_Format"
  by (rule output_percent_fails [OF sim_desk_bus [of MB85RC_DEFAULT_ADDRESS 32768] sim_console])
    (simp_all add: sim_desk_def)

text \<open>After formatting, the directory that \<^verbatim>\<open>initialize_fs\<close> reads back names two empty files, at 8 and
  at 16004; nothing else of the globals changes.\<close>

theorem initialize_fs_formatted:
  assumes "fram_bus E V MB85RC_DEFAULT_ADDRESS cap" and "32000 \<le> cap"
  shows "\<exists>w1 w2. format_storage E MB85RC_DEFAULT_ADDRESS w = Ok w1 \<and>
    initialize_fs E g w1 = Ok (g\<lparr>fs := \<lparr>fs_input = \<lparr>f_start = 8, f_end = 8\<rparr>,
      fs_output = \<lparr>f_start = 16004, f_end = 16004\<rparr>\<rparr>\<rparr>, w2)"
proof -
  let ?d = "concat (map le16 [8, 8, 16004, 16004])"
  have d: "?d = [8, 0, 8, 0, 0x84, 0x3E, 0x84, 0x3E]" by code_simp
  obtain w1 where w1: "format_with E [8, 8, 16004, 16004] MB85RC_DEFAULT_ADDRESS w = Ok w1"
    "cells (V w1) = store (store (cells (V w)) 0 (replicate 32000 0)) 0 ?d"
    by (rule format_with_fram [OF assms, of "[8, 8, 16004, 16004]" w]) simp_all
  have "length ?d = 8" unfolding d by simp
  then have f: "fetch (cells (V w1)) 0 8 = ?d" using fetch_store [of _ 0 ?d] unfolding w1(2) by metis
  have fits: "(0 :: u16) < 8" "unat (8 :: u16) \<le> length (replicate 8 (0 :: u8))" "unat (0 :: u16) + unat (8 :: u16) \<le> cap"
    using assms(2) by simp_all
  obtain w2 where w2: "i2c_readReg E MB85RC_DEFAULT_ADDRESS 0 (replicate 8 0) 8 w1
      = Ok (0, fetch (cells (V w1)) (unat (0 :: u16)) (unat (8 :: u16)) @ drop (unat (8 :: u16)) (replicate 8 0), w2)"
    by (rule i2c_readReg_fram [OF assms(1) fits])
  then have r: "i2c_readReg E MB85RC_DEFAULT_ADDRESS 0 (replicate 8 0) 8 w1 = Ok (0, [8, 0, 8, 0, 0x84, 0x3E, 0x84, 0x3E], w2)"
    using f d by simp
  have "map (\<lambda>i. of_le16 ([8, 0, 8, 0, 0x84, 0x3E, 0x84, 0x3E] ! (2 * i)) ([8, 0, 8, 0, 0x84, 0x3E, 0x84, 0x3E] ! (2 * i + 1))) [0..<4]
      = [8, 8, 16004, 16004]" by code_simp
  from initialize_fs_reads [OF r this] show ?thesis
    using w1(1) unfolding format_storage_def by blast
qed

theorem initialize_fs_formatted_witness:
  "\<exists>w1 w2. format_storage (sim_avr MB85RC_DEFAULT_ADDRESS) MB85RC_DEFAULT_ADDRESS (sim_start []) = Ok w1 \<and>
     initialize_fs (sim_avr MB85RC_DEFAULT_ADDRESS) ctl0 w1 = Ok (ctl0, w2)"
  using initialize_fs_formatted [OF sim_fram_bus [of MB85RC_DEFAULT_ADDRESS 32768], of "sim_start []" ctl0]
  by (simp add: ctl0_def)

end
