(* ===== verification/Controller_Correct.thy ===== *)
theory Controller_Correct
  imports Controller_Files
begin

text \<open>
  Properties of the control flow of the controller: what the button flags let through, the
  five-second hold, and how many blocks a job is cut into and when the dispatch ends.
\<close>

section \<open>Button flags\<close>

lemma twelve: "(12 :: nat) = Suc 11"
  by simp

lemma poll_idle:
  "\<not> (button_status g AND A_PRESS \<noteq> 0 \<and> \<not> (button_status g AND A_RELEASE \<noteq> 0)) \<Longrightarrow>
     pollButtonA E irq g w = Ok (g\<lparr>buttonHoldCount := 0\<rparr>, w)"
  unfolding pollButtonA_def twelve pollA_loop.simps by auto

lemma and_flag: "(x AND push_bit n 1 = 0) \<longleftrightarrow> (n < 8 \<longrightarrow> \<not> bit (x :: u8) n)"
  using and_bv [of x n] by (simp add: bv_def)

lemma flags_bv: "A_PRESS = bv 0" "A_RELEASE = bv 1" "C_PRESS = bv 2" "C_RELEASE = bv 3"
  by (simp_all add: ctl_consts bv_def)

lemmas flag_simps = flags_bv and_bv bit_or_iff bit_xor_iff bit_bv

section \<open>Holding a button\<close>

text \<open>One round of a polling loop in which no button changes: lamp on, half a second, \<open>q\<close> for the rest of
  the world.\<close>

definition held_round :: "'w avr \<Rightarrow> ('w \<Rightarrow> 'w) \<Rightarrow> 'w \<Rightarrow> 'w" where
  "held_round E q w = q (delay_ms E 500 (busy_light E w))"


section \<open>Blocks\<close>

lemma encode_block_count_cases: "encode_block_count f = (if f_end f - f_start f = 0 then 0 else 1)"
proof -
  let ?n = "unat (f_end f - f_start f)"
  have "?n div 128 + ?n mod 128 < 65536" using unsigned_less [of "f_end f - f_start f", where ?'a = nat] by simp
  then have "unat ((f_end f - f_start f) div 128 + (f_end f - f_start f) mod 128) = ?n div 128 + ?n mod 128"
    unfolding unat_word_ariths(1) unat_div unat_mod by simp
  then have "(f_end f - f_start f) div 128 + (f_end f - f_start f) mod 128 = 0 \<longleftrightarrow> ?n = 0"
    unfolding unat_eq_0 [symmetric] by (auto simp: div_eq_0_iff)
  then show ?thesis unfolding encode_block_count_def BLOCK_SIZE_def by (simp add: unat_eq_0)
qed

text \<open>A job with no worker: every round changes nothing.\<close>

lemma process_loop_no_workers: "block < block_count \<Longrightarrow>
    process_loop E n job block_count workers 0 block irp g w = Fail Diverge"
  by (induction n) simp_all

lemma scan_none:
  assumes "i2c_start_timeout E (push_bit 1 I2C_SLAVE_BASE_ID OR I2C_READ) 10 w = Ok (1, w')"
  shows "scan_i2c E workers w = Ok (workers, 0, w')"
  unfolding scan_i2c_def scan_loop.simps assms by simp

lemma file_of_set_end_other [simp]: "file_of Input (set_end Output e g) = file_of Input g"
  by (simp add: file_of_def set_end_def)

section \<open>Properties\<close>

text \<open>The flags toggle where they should be cleared. From a status without flags the first press of A
  sets both flags of the button, so polling ignores it; only after a release does a press count.\<close>

theorem first_press_ignored:
  assumes "\<not> bit (button_status g) 0" and "\<not> bit (button_status g) 1"
    and "A_press E g w = (g1, w1)" and "A_release E g1 w1 = (g2, w2)" and "A_press E g2 w2 = (g3, w3)"
  shows "pollButtonA E irq g1 w1 = Ok (g1\<lparr>buttonHoldCount := 0\<rparr>, w1) \<and>
    button_status g3 AND A_PRESS \<noteq> 0 \<and> button_status g3 AND A_RELEASE = 0"
proof -
  have "bit (button_status g1) 1" using assms(1-3) by (auto simp: A_press_def flag_simps)
  then have "pollButtonA E irq g1 w1 = Ok (g1\<lparr>buttonHoldCount := 0\<rparr>, w1)"
    by (intro poll_idle) (simp add: flag_simps)
  moreover have "bit (button_status g3) 0 \<and> \<not> bit (button_status g3) 1"
    using assms by (auto simp: A_press_def A_release_def flag_simps)
  ultimately show ?thesis by (simp add: flag_simps)
qed

theorem first_press_ignored_witness:
  "case A_press (sim_avr 0x50) ctl0 (sim_start []) of (g1, w1) \<Rightarrow>
     pollButtonA (sim_avr 0x50) (\<lambda>g w. Ok (g, w)) g1 w1 = Ok (g1\<lparr>buttonHoldCount := 0\<rparr>, w1)"
proof -
  obtain g1 w1 where 1: "A_press (sim_avr 0x50) ctl0 (sim_start []) = (g1, w1)" by fastforce
  obtain g2 w2 where 2: "A_release (sim_avr 0x50) g1 w1 = (g2, w2)" by fastforce
  obtain g3 w3 where 3: "A_press (sim_avr 0x50) g2 w2 = (g3, w3)" by fastforce
  have "\<not> bit (button_status ctl0) 0" "\<not> bit (button_status ctl0) 1" by (simp_all add: ctl0_def)
  from first_press_ignored [OF this 1 2 3] show ?thesis unfolding 1 by simp
qed



text \<open>Once A has been released, a button C that stays pressed prints the output file after the first
  sleep and never processes any data: the loop tests the flag of the other button.\<close>

theorem hold_C_prints:
  assumes "\<And>g w. irq g w = Ok (g, q w)"
    and "button_status g AND C_PRESS \<noteq> 0" and "button_status g AND C_RELEASE = 0"
    and "button_status g AND A_RELEASE \<noteq> 0"
  shows "pollButtonC E irq g w =
    rbind (output_datastream E (file_of Output g) (held_round E q w))
      (\<lambda>(_, w). Ok (g\<lparr>buttonHoldCount := 1\<rparr>, ready_light E w))"
proof -
  have "file_of Output (g\<lparr>buttonHoldCount := h\<rparr>) = file_of Output g" for h by (simp add: file_of_def)
  then show ?thesis using assms unfolding pollButtonC_def twelve pollC_loop.simps by (simp add: Let_def held_round_def)
qed

theorem hold_C_prints_witness:
  "pollButtonC (sim_avr 0x50) (\<lambda>g w. Ok (g, w)) (ctl0\<lparr>button_status := 6\<rparr>) (sim_start []) =
    rbind (output_datastream (sim_avr 0x50) (file_of Output ctl0) (held_round (sim_avr 0x50) (\<lambda>w. w) (sim_start [])))
      (\<lambda>(_, w). Ok (ctl0\<lparr>button_status := 6, buttonHoldCount := 1\<rparr>, ready_light (sim_avr 0x50) w))"
  using hold_C_prints [of "\<lambda>g w. Ok (g, w)" "\<lambda>w. w" "ctl0\<lparr>button_status := 6\<rparr>" "sim_avr 0x50" "sim_start []"]
  by (simp add: ctl_consts file_of_def)

text \<open>C33: the number of blocks of a file to compress is 0 or 1, so that only files of at most one block are
  processed in full.\<close>

theorem encode_block_count_one:
  assumes "unat (f_end f - f_start f) < 32640"
  shows "encode_block_count f = of_nat ((unat (f_end f - f_start f) + BLOCK_SIZE - 1) div BLOCK_SIZE)
    \<longleftrightarrow> unat (f_end f - f_start f) \<le> BLOCK_SIZE"
proof -
  define n where "n = unat (f_end f - f_start f)"
  define k where "k = (n + BLOCK_SIZE - 1) div BLOCK_SIZE"
  have k: "k < 256" using assms by (simp add: k_def n_def BLOCK_SIZE_def)
  have "encode_block_count f = (if n = 0 then 0 else 1)"
    using encode_block_count_cases [of f] by (simp add: n_def unat_eq_0)
  moreover have "(of_nat k :: u8) = 0 \<longleftrightarrow> k = 0" "(of_nat k :: u8) = 1 \<longleftrightarrow> k = 1"
    using unat_of_nat_u8 [OF k] by (auto simp: unat_eq_0 [symmetric] word_unat_eq_iff)
  moreover have "k = 0 \<longleftrightarrow> n = 0" "k = 1 \<longleftrightarrow> 0 < n \<and> n \<le> 128"
    by (auto simp: k_def BLOCK_SIZE_def div_eq_0_iff)
  ultimately show ?thesis
    unfolding n_def [symmetric] k_def [symmetric] by (auto simp: BLOCK_SIZE_def)
qed

theorem encode_block_count_one_witness:
  "encode_block_count \<lparr>f_start = 8, f_end = 308\<rparr> \<noteq> 3"
  using encode_block_count_one [of "\<lparr>f_start = 8, f_end = 308\<rparr>"] by (simp add: BLOCK_SIZE_def)

text \<open>C34: with a text to compress on the chip and no worker on the bus, \<^verbatim>\<open>processData\<close> never returns.\<close>

theorem processData_no_workers:
  assumes "fram_bus E V MB85RC_DEFAULT_ADDRESS cap"
    and "\<And>w. \<exists>w'. i2c_start_timeout E (push_bit 1 I2C_SLAVE_BASE_ID OR I2C_READ) 10 w = Ok (1, w')"
    and "cells (V w) (unat (f_start (file_of Input g))) = 42" and "f_end (file_of Input g) \<noteq> f_start (file_of Input g)"
    and "unat (f_start (file_of Input g)) < cap" and "unat (f_start (file_of Output g)) < cap"
  shows "processData E g w = Fail Diverge"
proof -
  have r: "(0 :: u16) < 1" "unat (1 :: u16) \<le> length [0 :: u8]" "unat (f_start (file_of Input g)) + unat (1 :: u16) \<le> cap"
    using assms(5) by simp_all
  obtain w1 where w1: "i2c_readReg E MB85RC_DEFAULT_ADDRESS (f_start (file_of Input g)) [0] 1 w
      = Ok (0, fetch (cells (V w)) (unat (f_start (file_of Input g))) (unat (1 :: u16)) @ drop (unat (1 :: u16)) [0], w1)"
    by (rule i2c_readReg_fram [OF assms(1) r])
  have job: "fetch (cells (V w)) (unat (f_start (file_of Input g))) (unat (1 :: u16)) @ drop (unat (1 :: u16)) [0] = [42]"
    using assms(3) by (simp add: fetch_def)
  have o: "unat (1 :: u16) \<le> length [35 :: u8]" "unat (f_start (file_of Output g)) + unat (1 :: u16) \<le> cap"
    using assms(6) by simp_all
  obtain w2 where w2: "i2c_writeReg E MB85RC_DEFAULT_ADDRESS (f_start (file_of Output g)) [35] 1 w1 = Ok (0, w2)"
    by (rule i2c_writeReg_fram [OF assms(1) o])
  obtain w3 where w3: "i2c_start_timeout E (push_bit 1 I2C_SLAVE_BASE_ID OR I2C_READ) 10 w2 = Ok (1, w3)"
    using assms(2) by blast
  have "encode_block_count (file_of Input g) = 1" using assms(4) by (simp add: encode_block_count_cases)
  then show ?thesis
    unfolding processData_def w1 job using w2 scan_none [OF w3]
    by (simp add: aget_def process_loop_no_workers)
qed

lemma sim_no_worker: "\<exists>w'. i2c_start_timeout (sim_avr MB85RC_DEFAULT_ADDRESS) (push_bit 1 I2C_SLAVE_BASE_ID OR I2C_READ) 10 w = Ok (1, w')"
proof -
  let ?E = "sim_avr MB85RC_DEFAULT_ADDRESS"
  have d: "(delay_ms ?E 1 ^^ k) u = u" for k u by (induction k) (simp_all add: sim_avr_def)
  have "timeout_loop ?E 1000 10 u = Ok u" for u
    using timeout_loop_waits [of "\<lambda>_. True" ?E u 10 1000] d by (simp add: sim_rd_def twi_consts)
  moreover have "polls ?E = 1000" by (simp add: sim_avr_def)
  ultimately show ?thesis
    by (simp add: i2c_start_timeout_def Let_def sim_wr_def sim_byte_def twi_consts ctl_consts)
qed

theorem processData_no_workers_witness:
  "processData (sim_avr MB85RC_DEFAULT_ADDRESS)
     (ctl0\<lparr>fs := \<lparr>fs_input = \<lparr>f_start = 8, f_end = 12\<rparr>, fs_output = \<lparr>f_start = 16004, f_end = 16004\<rparr>\<rparr>\<rparr>)
     (sim_start []\<lparr>sim_bus := \<lparr>phase = Idle, bptr = 0, cells = (\<lambda>_. 0)(8 := 42)\<rparr>\<rparr>) = Fail Diverge"
  by (rule processData_no_workers [OF sim_fram_bus [of MB85RC_DEFAULT_ADDRESS 32768] sim_no_worker])
    (simp_all add: file_of_def)

end
