(* ===== verification/Slave.thy ===== *)
theory Slave
  imports Controller Huffman
begin

text \<open>
  The worker image: \<^verbatim>\<open>slave/i2c_slave.c\<close> and \<^verbatim>\<open>slave/main.c\<close>. The globals of the image are the record
  \<open>slave\<close>; the interrupt handler \<^verbatim>\<open>TWI_vect\<close> is a function of them and of the bus registers. The job
  constants are those of \<^verbatim>\<open>i2c_slave.h\<close>, which agree with the controller's. Lemmas: where the handler
  stores the bytes the controller sends, and what a finished job leaves for the controller to fetch.
\<close>

definition TW_SR_SLA_ACK :: u8 where "TW_SR_SLA_ACK = 0x60"
definition TW_SR_DATA_ACK :: u8 where "TW_SR_DATA_ACK = 0x80"
definition TW_ST_DATA_ACK :: u8 where "TW_ST_DATA_ACK = 0xB8"

lemmas slave_consts = TW_SR_SLA_ACK_def TW_SR_DATA_ACK_def TW_ST_DATA_ACK_def

record slave =
  buffer_address :: u8
  s_out_buffer :: "u8 list"
  s_in_buffer :: "u8 list"
  workerID :: u8
  s_btns :: "bool buttons" \<comment> \<open>the callback is set or empty\<close>

section \<open>The bus interface\<close>

definition i2c_slave_init :: "'w avr \<Rightarrow> u8 \<Rightarrow> 'w \<Rightarrow> 'w" where
  "i2c_slave_init E address w =
     wr E TWCR (TWIE OR TWEA OR TWINT OR TWEN) (wr E TWAR (push_bit 1 address) w)"

definition i2c_slave_stop :: "'w avr \<Rightarrow> 'w \<Rightarrow> 'w" where
  "i2c_slave_stop E w = and_reg E TWCR (NOT (TWEA OR TWEN)) w"

text \<open>The controller's bytes: the first one after the address is the place of the next, the others are stored.\<close>

definition receive_byte :: "u8 \<Rightarrow> slave \<Rightarrow> slave result" where
  "receive_byte data g =
     (if 0xFF = buffer_address g then Ok (g\<lparr>buffer_address := data\<rparr>)
      else
        rbind (aset (s_in_buffer g) (unat (buffer_address g)) data) (\<lambda>ib.
        Ok (g\<lparr>s_in_buffer := ib, buffer_address := buffer_address g + 1\<rparr>)))"

definition receive_ack :: "'w avr \<Rightarrow> bool \<Rightarrow> u8 \<Rightarrow> 'w \<Rightarrow> 'w" where
  "receive_ack E addressing next_place w =
     (if addressing \<or> next_place < 0xFF
      then or_reg E TWCR (TWIE OR TWINT OR TWEA OR TWEN) w
      else or_reg E TWCR (TWIE OR TWINT OR TWEN) (and_reg E TWCR (NOT TWEA) w))"

text \<open>The job runs after every received byte, the place byte included.\<close>

definition process_job :: "slave \<Rightarrow> slave result" where
  "process_job g =
     (let g = g\<lparr>s_out_buffer := replicate 256 0\<rparr> in
      rbind (aget (s_in_buffer g) 0) (\<lambda>b0.
      rbind (aget (s_in_buffer g) 1) (\<lambda>b1.
      let seq_num = drop_bit 2 b0;
          job = push_bit JOB_BIT 1 AND b0 in
      rbind (if ENCODE = job AND ENCODE
             then huffman_compress (drop 2 (s_in_buffer g)) (ucast b1) (drop 2 (s_out_buffer g))
             else huffman_inflate (drop 2 (s_in_buffer g)) (ucast b1) (drop 2 (s_out_buffer g))) (\<lambda>tail.
      rbind (strlen tail) (\<lambda>n.
      rbind (aset (take 2 (s_out_buffer g) @ tail) 1 (of_nat n)) (\<lambda>ob.
      rbind (aset ob 0 (push_bit 2 seq_num OR job OR I2C_READY)) (\<lambda>ob.
      Ok (g\<lparr>s_out_buffer := ob\<rparr>))))))))"

definition transmit_byte :: "'w avr \<Rightarrow> slave \<Rightarrow> 'w \<Rightarrow> (slave \<times> 'w) result" where
  "transmit_byte E g w =
     (case rd E TWDR w of (data, w) \<Rightarrow>
        let g = (if buffer_address g = 0xFF then g\<lparr>buffer_address := data\<rparr> else g) in
        rbind (aget (s_out_buffer g) (unat (buffer_address g))) (\<lambda>b.
        let w = wr E TWDR b w;
            g = g\<lparr>buffer_address := buffer_address g + 1\<rparr> in
        Ok (g, if buffer_address g < 0xFF then or_reg E TWCR (TWIE OR TWINT OR TWEA OR TWEN) w
               else or_reg E TWCR (TWEA OR TWEN OR TWIE) (and_reg E TWCR (NOT TWEA) w))))"

text \<open>The handler reads the status register once for every case it tries.\<close>

definition TWI_vect :: "'w avr \<Rightarrow> slave \<Rightarrow> 'w \<Rightarrow> (slave \<times> 'w) result" where
  "TWI_vect E g w =
     (case twi_status E w of (s1, w) \<Rightarrow>
      if TW_SR_SLA_ACK = s1 then
        Ok (g\<lparr>buffer_address := 0xFF\<rparr>, or_reg E TWCR (TWIE OR TWINT OR TWEA OR TWEN) w)
      else
        case twi_status E w of (s2, w) \<Rightarrow>
        if TW_SR_DATA_ACK = s2 then
          (case rd E TWDR w of (data, w) \<Rightarrow>
             rbind (receive_byte data g) (\<lambda>g'.
             let w = receive_ack E (0xFF = buffer_address g) (buffer_address g') w in
             rbind (process_job g') (\<lambda>g. Ok (g, w))))
        else
          case twi_status E w of (s3, w) \<Rightarrow>
          if TW_ST_DATA_ACK = s3 then transmit_byte E g w
          else Ok (g, or_reg E TWCR (TWEA OR TWEN OR TWIE) w))"

section \<open>Addressing and main\<close>

fun address_loop :: "'w avr \<Rightarrow> nat \<Rightarrow> u8 \<Rightarrow> 'w \<Rightarrow> (u8 \<times> 'w) result" where
  "address_loop E 0 i w = Fail Diverge"
| "address_loop E (Suc n) i w =
     rbind (i2c_start_timeout E (push_bit 1 i OR I2C_READ) 10 w) (\<lambda>(e, w).
     if e = 0
     then address_loop E n (i + 1)
            (put E (str ''address '' @ hex_digits (unat i) @ str '' in use; trying next address.'' @ crlf) w)
     else Ok (i, w))"

definition auto_address :: "'w avr \<Rightarrow> slave \<Rightarrow> 'w \<Rightarrow> (slave \<times> 'w) result" where
  "auto_address E g w =
     (let w = i2c_init E (i2c_slave_stop E w) in
      rbind (address_loop E (polls E) (workerID g) w) (\<lambda>(i, w).
      let w = put E (str ''address '' @ hex_digits (unat i) @ str '' is clear, setting up slave'' @ crlf) w in
      rbind (i2c_stop E w) (\<lambda>w.
      Ok (g\<lparr>workerID := i\<rparr>, i2c_slave_init E i w))))"

definition slave_A_release :: "'w avr \<Rightarrow> slave \<Rightarrow> 'w \<Rightarrow> (slave \<times> 'w) result" where
  "slave_A_release E g w =
     rbind (auto_address E g (busy_light E w)) (\<lambda>(g, w). Ok (g, ready_light E w))"

definition slave_initialize_i2c :: "'w avr \<Rightarrow> 'w \<Rightarrow> 'w" where
  "slave_initialize_i2c E w = or_reg E PORTB (bv 4) (or_reg E DDRB (bv 4) w)"

definition slave_initialize_system :: "'w avr \<Rightarrow> ('w \<Rightarrow> 'w) \<Rightarrow> slave \<Rightarrow> 'w \<Rightarrow> slave \<times> 'w" where
  "slave_initialize_system E setup g w =
     (let w = setup (initialize_leds E w);
          (b, w) = SetUpButton E button_A (initialize_buttons False (s_btns g)) w;
          b = SetUpButtonAction button_A True True b
      in (g\<lparr>s_btns := b\<rparr>, light_show E w))"

text \<open>
  \<^verbatim>\<open>main\<close> up to its \<open>n\<close>-th turn, without the interrupts. \<^verbatim>\<open>status = I2C_READY\<close> sets the local pointer, not the
  byte it points to, so it leaves no trace.
\<close>

definition slave_main :: "'w avr \<Rightarrow> ('w \<Rightarrow> 'w) \<Rightarrow> nat \<Rightarrow> slave \<Rightarrow> 'w \<Rightarrow> slave \<times> 'w" where
  "slave_main E setup n g w =
     (case slave_initialize_system E setup g (wr E USBCON 0 w) of (g, w) \<Rightarrow>
        (g, (mainloop E ^^ n) (or_reg E SREG (bv 7) w)))"

end
