(* ===== verification/Slave_Correct.thy ===== *)
theory Slave_Correct
  imports Slave Huff_Correct
begin

text \<open>
  Properties of the worker image: its buffers keep their size, the bytes of a job arrive one place
  too far, the job code is therefore lost, the first byte after reset already runs a job, and the
  reply of a compressed block is announced with the length of the string that starts it.
\<close>

section \<open>Sizes of the buffers\<close>













section \<open>Jobs\<close>

lemma inflate_zeros: "huffman_inflate (replicate 254 0) n out = Fail Out_Of_Bounds"
proof -
  have "deserialize_tree_node (Suc k) (huffman_memory 0 0) xs 0 = Fail Out_Of_Bounds" if "aget xs 0 = Ok 0" for k xs
    using that by (simp add: chr_null_def chr_node_def tree_alloc_def huffman_memory_def cell_set_def)
  then have "deserialize_tree (huffman_memory 0 0) (replicate 251 0) = Fail Out_Of_Bounds"
    unfolding deserialize_tree_def by (simp del: deserialize_tree_node.simps length_replicate)
  then show ?thesis by (simp add: huffman_inflate_def)
qed

lemma receive_bytes:
  assumes "unat (buffer_address g) + length bs < 256" and "length (s_in_buffer g) = 256"
  shows "\<exists>g'. rfold receive_byte bs g = Ok g' \<and>
    s_in_buffer g' = overlay (s_in_buffer g) (unat (buffer_address g)) bs"
  using assms
proof (induction bs arbitrary: g)
  case Nil
  then show ?case by (simp add: overlay_def)
next
  case (Cons b bs)
  let ?a = "unat (buffer_address g)"
  let ?g = "g\<lparr>s_in_buffer := (s_in_buffer g)[?a := b], buffer_address := buffer_address g + 1\<rparr>"
  have a: "?a < 255" using Cons.prems by simp
  then have ne: "buffer_address g \<noteq> 0xFF" by auto
  have a1: "unat (buffer_address g + 1) = Suc ?a" using a unfolding unat_word_ariths(1) by simp
  have "receive_byte b g = Ok ?g" using ne a Cons.prems(2) by (simp add: receive_byte_def)
  moreover obtain g' where "rfold receive_byte bs ?g = Ok g'" "s_in_buffer g' = overlay (s_in_buffer ?g) (Suc ?a) bs"
    using Cons.IH [of ?g] Cons.prems a1 by auto
  moreover have "overlay ((s_in_buffer g)[?a := b]) (Suc ?a) bs = overlay (s_in_buffer g) ?a (b # bs)"
    using Cons.prems by (simp add: overlay_def take_Suc_conv_app_nth)
  ultimately show ?case by simp
qed

section \<open>Properties\<close>

text \<open>The image after reset: cleared buffers, waiting for a place byte.\<close>

definition slave0 :: slave where
  "slave0 = \<lparr>buffer_address = 0xFF, s_out_buffer = replicate 256 0, s_in_buffer = replicate 256 0, workerID = 0x20,
     s_btns = \<lparr>fn_release_A = False, fn_press_A = False, fn_release_C = False, fn_press_C = False, pinb_previous = 0\<rparr>\<rparr>"



text \<open>C35: the first byte that reaches a worker with cleared buffers runs a job on nothing: the handler inflates a
  block of zeros, whose tree has no nodes, and writes outside the memory of the tree.\<close>

theorem worker_first_byte_faults:
  assumes "s_in_buffer g = replicate 256 0" and "buffer_address g = 0xFF"
    and "twi_status E w = (TW_SR_DATA_ACK, w1)" and "twi_status E w1 = (TW_SR_DATA_ACK, w2)"
  shows "TWI_vect E g w = Fail Out_Of_Bounds"
proof -
  obtain b w3 where b: "rd E TWDR w2 = (b, w3)" by fastforce
  have "process_job (g\<lparr>buffer_address := b\<rparr>) = Fail Out_Of_Bounds"
    using assms(1) inflate_zeros by (simp add: process_job_def Let_def ctl_consts)
  then show ?thesis
    unfolding TWI_vect_def using assms b by (simp add: receive_byte_def slave_consts)
qed

theorem worker_first_byte_faults_witness:
  "TWI_vect (sim_avr 0x50) slave0 (sim_start []\<lparr>sim_sr := TW_SR_DATA_ACK\<rparr>) = Fail Out_Of_Bounds"
  by (rule worker_first_byte_faults [where ?w1.0 = "sim_start []\<lparr>sim_sr := TW_SR_DATA_ACK\<rparr>"
        and ?w2.0 = "sim_start []\<lparr>sim_sr := TW_SR_DATA_ACK\<rparr>"])
    (simp_all add: slave0_def slave_consts)

text \<open>The controller sends a block to place 0 with a two-byte offset, the worker takes one byte for the
  place: the second offset byte becomes the job byte, whose job bit is then always that of inflating,
  and the block lies one place too far.\<close>

theorem worker_loses_job_code:
  assumes "buffer_address g = 0xFF" and "length (s_in_buffer g) = 256" and "length bs < 255"
  shows "\<exists>g'. rfold receive_byte (0 # 0 # bs) g = Ok g' \<and>
    s_in_buffer g' = overlay (s_in_buffer g) 0 (0 # bs) \<and> push_bit JOB_BIT 1 AND (s_in_buffer g' ! 0) = DECODE"
proof -
  have 1: "receive_byte 0 g = Ok (g\<lparr>buffer_address := 0\<rparr>)" using assms(1) by (simp add: receive_byte_def)
  obtain g' where "rfold receive_byte (0 # bs) (g\<lparr>buffer_address := 0\<rparr>) = Ok g'"
    "s_in_buffer g' = overlay (s_in_buffer g) 0 (0 # bs)"
    using receive_bytes [of "g\<lparr>buffer_address := 0\<rparr>" "0 # bs"] assms(2,3) by auto
  then show ?thesis using 1 by (simp add: overlay_def ctl_consts)
qed

theorem worker_loses_job_code_witness:
  "\<exists>g'. rfold receive_byte (0 # 0 # [2, 1, 65]) slave0 = Ok g' \<and> take 4 (s_in_buffer g') = [0, 2, 1, 65]"
  using worker_loses_job_code [of slave0 "[2, 1, 65]"] by (auto simp: slave0_def overlay_def)

text \<open>The reply to a compression job announces one byte, whatever the block: its length is taken with
  \<^verbatim>\<open>strlen\<close> of the block, whose second byte is the high half of a bit count below 256.\<close>

theorem reply_length_one:
  assumes "s_in_buffer g = b0 # of_nat (length data) # data @ rest" and "length (s_in_buffer g) = 256"
    and "bit b0 1" and "data \<noteq> []" and "0 \<notin> set data" and "card (set data) \<le> 30" and "height (huff_tree data) \<le> 9"
    and "2 + 2 * card (set data) + length data \<le> 254"
    and "length (concat (map (code (huff_tree data)) data)) < 256"
  shows "\<exists>g'. process_job g = Ok g' \<and> s_out_buffer g' ! 1 = 1 \<and>
    block_ok data (huff_tree data) (drop 2 (s_out_buffer g'))"
proof -
  let ?t = "huff_tree data" and ?n = "ucast (of_nat (length data) :: u8) :: u16"
  let ?nb = "of_nat (length (concat (map (code ?t) data))) :: u16"
  have small: "length data < 256" using assms(8) by simp
  have n: "unat ?n = length data"
    using unat_of_nat_u8 [OF small] small by (simp add: unsigned_ucast_eq take_bit_nat_eq_self)
  obtain z where z: "huffman_compress data ?n (replicate 254 0) = Ok z" "length z = 254" "block_ok data ?t z"
    by (rule compress_block [OF n assms(4-7) _ round_trip_room(1) [OF assms(4,5,7,8)]]) simp
  have full: "Suc (nodes ?t) = 2 * card (set data)"
    using full_nodes [OF huff_tree_full [OF assms(4,5)]] huff_tree_leaves(3) [OF assms(5)] by simp
  have card: "0 < card (set data)" using assms(4) by (simp add: card_gt_0_iff)
  have "unat ?nb < 256" using assms(9) by (simp add: unat_of_nat_u16)
  then have "drop_bit 8 ?nb = 0" by (simp add: drop_bit_eq_div unat_eq_0 [symmetric] unat_div)
  then have z1: "z ! 1 = 0" using z(3) by (simp add: block_ok_def Let_def)
  have "unat (z ! 0) = nodes ?t"
    using z(3) full assms(6) by (simp add: block_ok_def Let_def unat_of_nat_u8)
  then have z0: "z ! 0 \<noteq> 0" using full card by auto
  have "strlen z = Ok 1"
    unfolding strlen_Ok_iff using z(2) z0 z1 by (auto simp: take_Suc_conv_app_nth)
  moreover have "ENCODE = (push_bit JOB_BIT 1 AND b0) AND ENCODE"
  proof (rule bit_word_eqI)
    fix n
    have e: "ENCODE = bv 1" and j: "push_bit JOB_BIT 1 = bv 1" by (simp_all add: ctl_consts bv_def)
    show "bit ENCODE n = bit ((push_bit JOB_BIT 1 AND b0) AND ENCODE) n"
      unfolding e j bit_and_iff bit_bv using assms(3) by auto
  qed
  moreover have "huffman_compress (data @ rest) ?n (replicate 254 0) = Ok z"
    using compress_prefix [OF n] z(1) by simp
  ultimately show ?thesis
    using assms(1) z(2,3) full card by (simp add: process_job_def Let_def)
qed

theorem reply_length_one_witness:
  "\<exists>g'. process_job (slave0\<lparr>s_in_buffer := 2 # 3 # [65, 66, 65] @ replicate 251 0\<rparr>) = Ok g' \<and> s_out_buffer g' ! 1 = 1"
proof -
  let ?d = "[65, 66, 65] :: u8 list"
  have card: "card (set ?d) = 2" by (simp add: card_insert_if)
  then have h: "height (huff_tree ?d) \<le> 9" by (intro few_symbols_depth) simp_all
  moreover have "length (concat (map (code (huff_tree ?d)) ?d)) \<le> 8 * length ?d"
    by (rule round_trip_room(2) [OF _ _ h, of 254]) (use card in simp_all)
  ultimately show ?thesis
    using reply_length_one [of "slave0\<lparr>s_in_buffer := 2 # 3 # ?d @ replicate 251 0\<rparr>" 2 ?d "replicate 251 0"]
    card by (auto simp: bit_numeral_rec)
qed

end
