(* ===== verification/Console.thy ===== *)
theory Console
  imports Controller_Files Huffman
begin

text \<open>
  The command line of the controller, \<^verbatim>\<open>main/lufa.c\<close>: reading a line, the commands, and the handler
  pointer that sends the next line either to the commands or to the address prompt. A plain
  \<^verbatim>\<open>char\<close> is signed, so the byte 255 reads as \<^verbatim>\<open>EOF\<close>. Contents of locals that the code does not
  set are parameters named \<open>junk\<close>.
\<close>

datatype input_handler = Handle_Command | Handle_Memory_Location

record ui =
  handler :: input_handler
  mem_location :: u16

section \<open>Reading\<close>

text \<open>\<^verbatim>\<open>while (c == EOF) { USB_Mainloop_Handler(); c = fgetc(stdin); }\<close>\<close>

fun wait_char :: "'w avr \<Rightarrow> nat \<Rightarrow> 'w \<Rightarrow> (u8 \<times> 'w) result" where
  "wait_char E 0 w = Fail Diverge"
| "wait_char E (Suc n) w =
     (case getc E (mainloop E w) of
        (None, w) \<Rightarrow> wait_char E n w
      | (Some c, w) \<Rightarrow> if c = 255 then wait_char E n w else Ok (c, w))"

fun read_line_loop :: "'w avr \<Rightarrow> nat \<Rightarrow> u8 list \<Rightarrow> nat \<Rightarrow> nat \<Rightarrow> 'w \<Rightarrow> (u8 list \<times> nat \<times> 'w) result" where
  "read_line_loop E 0 line max_len i w = Fail Diverge"
| "read_line_loop E (Suc n) line max_len i w =
     (if i < max_len then
        rbind (wait_char E (polls E) w) (\<lambda>(c, w).
        if c = 10 then read_line_loop E n line max_len i w
        else if c = 13 then Ok (line, i, w)
        else
          let w = mainloop E (put E [c] w) in
          rbind (aset line i c) (\<lambda>line. read_line_loop E n line max_len (Suc i) w))
      else Ok (line, i, w))"

definition read_line :: "'w avr \<Rightarrow> u8 list \<Rightarrow> nat \<Rightarrow> 'w \<Rightarrow> (nat \<times> u8 list \<times> 'w) result" where
  "read_line E line max_len w =
     rbind (read_line_loop E (polls E) line max_len 0 w) (\<lambda>(line, i, w).
     rbind (aset line i 0) (\<lambda>line. Ok (i, line, w)))"

definition read_chars :: "'w avr \<Rightarrow> u8 list \<Rightarrow> nat \<Rightarrow> 'w \<Rightarrow> (u8 list \<times> 'w) result" where
  "read_chars E line num_bytes w =
     rfold (\<lambda>i (line, w).
       rbind (wait_char E (polls E) w) (\<lambda>(c, w).
       rbind (aset line i c) (\<lambda>line. Ok (line, mainloop E w)))) [0..<num_bytes] (line, w)"

section \<open>Commands\<close>

definition test_huffman :: "'w avr \<Rightarrow> u8 list \<Rightarrow> u8 list \<Rightarrow> 'w \<Rightarrow> 'w result" where
  "test_huffman E junk_data junk_out w =
     rbind (read_line E (take 128 junk_data) 128 w) (\<lambda>(_, data, w).
     rbind (strlen data) (\<lambda>data_size.
     rbind (huffman_compress data (of_nat data_size) (take 128 junk_out)) (\<lambda>out_data.
     rbind (aget out_data 1) (\<lambda>hi.
     rbind (aget out_data 2) (\<lambda>lo.
     let num_bits = (push_bit 8 (ucast hi) OR ucast lo :: u16) + 24;
         w = put E ([10] @ str ''orignal size: '' @ show_int16 (of_nat data_size * 8) @ str '' bits, '' @
               show_int16 (of_nat data_size) @ str '' bytes'' @ crlf) w;
         w = put E ([10] @ str ''comppressed size: '' @ show_int16 num_bits @ str '' bits, '' @
               show_int16 (num_bits div 8) @ str '' bytes'' @ crlf) w
     in Ok w)))))"

text \<open>
  \<^verbatim>\<open>atoi\<close>: white space, a sign, decimal digits up to the first other character. A value that does not fit
  into an \<^verbatim>\<open>int\<close> of 16 bits is undefined.
\<close>

fun digits_value :: "u8 list \<Rightarrow> int \<Rightarrow> int" where
  "digits_value (c # cs) acc = (if 48 \<le> c \<and> c \<le> 57 then digits_value cs (10 * acc + int (unat (c - 48))) else acc)"
| "digits_value [] acc = acc"

definition atoi :: "u8 list \<Rightarrow> u16 result" where
  "atoi s =
     (let s = dropWhile (\<lambda>c. c = 32 \<or> 9 \<le> c \<and> c \<le> 13) s;
          v = (case s of
                 [] \<Rightarrow> 0
               | c # cs \<Rightarrow> if c = 45 then - digits_value cs 0 else if c = 43 then digits_value cs 0 else digits_value s 0)
      in if -32768 \<le> v \<and> v \<le> 32767 then Ok (of_int v) else Fail Bad_Format)"

definition handle_memory_location :: "'w avr \<Rightarrow> u8 list \<Rightarrow> ui \<Rightarrow> 'w \<Rightarrow> (ui \<times> 'w) result" where
  "handle_memory_location E location u w =
     rbind (atoi location) (\<lambda>a.
     Ok (u\<lparr>mem_location := a, handler := Handle_Command\<rparr>,
         put E (str ''new address is '' @ show_int16 a @ crlf @ [10]) w))"

text \<open>\<^verbatim>\<open>(buff[1] << 8) | buff[0]\<close> on signed characters: the sign of the low byte fills the high one.\<close>

definition pagewrite_size :: "u8 \<Rightarrow> u8 \<Rightarrow> u16" where
  "pagewrite_size b0 b1 = push_bit 8 (scast b1) OR scast b0"

fun pagewrite_loop :: "'w avr \<Rightarrow> nat \<Rightarrow> u16 \<Rightarrow> u16 \<Rightarrow> 'w \<Rightarrow> (u16 \<times> 'w) result" where
  "pagewrite_loop E 0 tot bytes_written w = Fail Diverge"
| "pagewrite_loop E (Suc n) tot bytes_written w =
     (if bytes_written < tot then
        rbind (read_chars E [0] 1 w) (\<lambda>(block, w).
        rbind (aget block 0) (\<lambda>b.
        rbind (i2c_write E b w) (\<lambda>(_, w).
        pagewrite_loop E n tot (bytes_written + 1) w)))
      else Ok (bytes_written, w))"

definition execute_pagewrite :: "'w avr \<Rightarrow> 'w \<Rightarrow> 'w result" where
  "execute_pagewrite E w =
     (let w = mainloop E (put E (str ''In execute_pagewrite'' @ [10]) w) in
      rbind (read_chars E [0, 0] 2 w) (\<lambda>(line, w).
      rbind (aget line 0) (\<lambda>b0.
      rbind (aget line 1) (\<lambda>b1.
      rbind (i2c_write_start E MB85RC_DEFAULT_ADDRESS 0 w) (\<lambda>(_, w).
      rbind (pagewrite_loop E 65536 (pagewrite_size b0 b1) 0 w) (\<lambda>(bytes_written, w).
      rbind (i2c_stop E w) (\<lambda>w.
      Ok (mainloop E (put E (str ''wrote '' @ show_int16 bytes_written @ str '' bytes successfully'' @ crlf) w)))))))))"

definition menuString :: "u8 list" where
  "menuString = str ''(r)ead // (w)rite // (s)et address // (p)agewrite // (h)uffman test'' @ crlf"

definition handleCommand :: "'w avr \<Rightarrow> u8 list \<Rightarrow> u8 list \<Rightarrow> u8 list \<Rightarrow> ui \<Rightarrow> 'w \<Rightarrow> (ui \<times> 'w) result" where
  "handleCommand E junk_data junk_out command u w =
     rbind (aget command 0) (\<lambda>c.
     rbind
       (if c \<in> set (str ''Rr'') then
          rbind (i2c_readReg E MB85RC_DEFAULT_ADDRESS (mem_location u) (replicate 16 0) 16 w) (\<lambda>(e, buffer, w).
          if e \<noteq> 0 then Ok (u, put E (str ''ERROR in read'' @ crlf) w)
          else Ok (u, put E (str ''addr 0x'' @ pad0 4 (hex_digits (unat (mem_location u))) @ [32] @
                   concat (map (\<lambda>b. [b, 32]) buffer) @ crlf) w))
        else if c \<in> set (str ''Ww'') then
          rbind (i2c_writeReg E MB85RC_DEFAULT_ADDRESS (mem_location u) (str ''hello world'' @ [0]) 11 w) (\<lambda>(e, w).
          Ok (u, if e \<noteq> 0 then put E (str ''ERROR in write'' @ crlf) w else w))
        else if c \<in> set (str ''Ss'') then
          Ok (u\<lparr>handler := Handle_Memory_Location\<rparr>, mainloop E (put E (str ''enter new address: '' @ crlf) w))
        else if c \<in> set (str ''pP'') then
          rbind (execute_pagewrite E (mainloop E (put E (str ''pagewrite mode, enter total size'' @ crlf) w))) (\<lambda>w. Ok (u, w))
        else if c \<in> set (str ''hH'') then
          rbind (test_huffman E junk_data junk_out (put E (str ''test huffman_compress'' @ [10]) w)) (\<lambda>w. Ok (u, w))
        else Ok (u, put E menuString w)) (\<lambda>(u, w).
     Ok (u, mainloop E w)))"

definition COMMAND_BUFF_LEN :: nat where
  "COMMAND_BUFF_LEN = 16"

definition handleInput ::
  "'w avr \<Rightarrow> u8 list \<Rightarrow> u8 list \<Rightarrow> u8 list \<Rightarrow> u8 \<Rightarrow> ui \<Rightarrow> 'w \<Rightarrow> (ui \<times> 'w) result" where
  "handleInput E junk junk_data junk_out c u w =
     (let w = put E [c] w in
      rbind (read_line E (take COMMAND_BUFF_LEN junk) COMMAND_BUFF_LEN w) (\<lambda>(_, line, w).
      let command = c # line;
          w = mainloop E (put E crlf w) in
      rbind (strlen command) (\<lambda>n.
      if n = 0 then Ok (u, w)
      else if n = COMMAND_BUFF_LEN then Ok (u, mainloop E (put E (str ''Buffer full'' @ crlf) w))
      else
        (case handler u of
           Handle_Command \<Rightarrow> handleCommand E junk_data junk_out command u w
         | Handle_Memory_Location \<Rightarrow> handle_memory_location E command u w))))"

section \<open>Lines\<close>

definition plain :: "u8 list \<Rightarrow> bool" where
  "plain cs \<longleftrightarrow> set cs \<inter> {10, 13, 255} = {}"

lemma wait_char_console:
  assumes "console E V" and "stdin (V w) = c # cs" and "c \<noteq> 255" and "0 < polls E"
  obtains w' where "wait_char E (polls E) w = Ok (c, w')" and "V w' = (V w)\<lparr>stdin := cs\<rparr>"
proof -
  have V: "V (mainloop E w) = V w" and I: "console_in E V"
    using console_simps(3) [OF assms(1)] assms(1) by (simp_all add: console_def)
  then obtain w' where w': "getc E (mainloop E w) = (Some c, w')" "V w' = (V w)\<lparr>stdin := cs\<rparr>"
    using assms(2) unfolding console_in_def by (metis prod.collapse)
  obtain n where "polls E = Suc n" using assms(4) gr0_implies_Suc by blast
  then show thesis using w' assms(3) by (intro that [of w']) simp_all
qed

lemma read_line_loop_plain:
  assumes K: "console E V" and p: "0 < polls E"
  shows "stdin (V w) = cs @ rest \<Longrightarrow> plain cs \<Longrightarrow> i + length cs \<le> max_len \<Longrightarrow> i + length cs \<le> length line \<Longrightarrow>
    \<exists>w'. read_line_loop E (length cs + n) line max_len i w =
        read_line_loop E n (overlay line i cs) max_len (i + length cs) w' \<and>
      stdin (V w') = rest \<and> stdout (V w') = stdout (V w) @ cs"
proof (induction cs arbitrary: w i line)
  case Nil
  then show ?case by (auto simp: overlay_def)
next
  case (Cons c cs)
  have c: "c \<noteq> 10" "c \<noteq> 13" "c \<noteq> 255" and cs: "plain cs" using Cons.prems(2) by (auto simp: plain_def)
  have "stdin (V w) = c # cs @ rest" using Cons.prems(1) by simp
  from wait_char_console [OF K this c(3) p] obtain w1 where
    w1: "wait_char E (polls E) w = Ok (c, w1)" "V w1 = (V w)\<lparr>stdin := cs @ rest\<rparr>" .
  let ?w = "mainloop E (put E [c] w1)"
  have V: "V ?w = (V w)\<lparr>stdin := cs @ rest, stdout := stdout (V w) @ [c]\<rparr>"
    using console_simps(3,4) [OF K] w1(2) by simp
  have "read_line_loop E (length (c # cs) + n) line max_len i w
      = read_line_loop E (length cs + n) (line[i := c]) max_len (Suc i) ?w"
    using w1(1) c Cons.prems(3,4) by simp
  moreover obtain w' where "read_line_loop E (length cs + n) (line[i := c]) max_len (Suc i) ?w =
        read_line_loop E n (overlay (line[i := c]) (Suc i) cs) max_len (Suc i + length cs) w'"
      "stdin (V w') = rest" "stdout (V w') = stdout (V ?w) @ cs"
    using Cons.IH [of ?w "Suc i" "line[i := c]"] V cs Cons.prems(3,4) by auto
  moreover have "overlay (line[i := c]) (Suc i) cs = overlay line i (c # cs)"
    using Cons.prems(4) by (simp add: overlay_def take_Suc_conv_app_nth)
  ultimately show ?case using V by auto
qed

section \<open>Properties\<close>

text \<open>C27: a line of printable characters that ends with a carriage return before the limit is stored in the
  buffer with a terminating zero, echoed, and taken from the input up to and including the return.\<close>

theorem read_line_reads:
  assumes "console E V" and "stdin (V w) = cs @ 13 # rest" and "plain cs"
    and "length cs < max_len" and "length cs < length line" and "length cs < polls E"
  shows "\<exists>w'. read_line E line max_len w = Ok (length cs, overlay line 0 (cs @ [0]), w') \<and>
    stdin (V w') = rest \<and> stdout (V w') = stdout (V w) @ cs"
proof -
  obtain n where n: "polls E = length cs + Suc n" using assms(6) less_iff_Suc_add by fastforce
  have p: "0 < polls E" using assms(6) by simp
  obtain w1 where w1: "read_line_loop E (polls E) line max_len 0 w = read_line_loop E (Suc n) (overlay line 0 cs) max_len (length cs) w1"
    "stdin (V w1) = 13 # rest" "stdout (V w1) = stdout (V w) @ cs"
    using read_line_loop_plain [OF assms(1) p assms(2,3), of 0 max_len line "Suc n"] assms(4,5) n by auto
  from wait_char_console [OF assms(1) w1(2) _ p] obtain w2 where
    w2: "wait_char E (polls E) w1 = Ok (13, w2)" "V w2 = (V w1)\<lparr>stdin := rest\<rparr>" by auto
  have "(overlay line 0 cs)[length cs := 0] = overlay line 0 (cs @ [0])"
    using assms(5) by (simp add: overlay_def list_update_append Cons_nth_drop_Suc [symmetric])
  then have "read_line E line max_len w = Ok (length cs, overlay line 0 (cs @ [0]), w2)"
    unfolding read_line_def w1(1) using w2(1) assms(4,5) by simp
  then show ?thesis using w1(3) w2(2) by simp
qed

theorem read_line_reads_witness:
  "\<exists>w'. read_line (sim_avr 0x50) [9, 9, 9, 9] 4 (sim_start [114, 49, 13, 65]) = Ok (2, [114, 49, 0, 9], w')"
  using read_line_reads [OF sim_console [of "0x50"], of "sim_start [114, 49, 13, 65]" "[114, 49]" "[65]" 4 "[9, 9, 9, 9]"]
  by (auto simp: sim_desk_def sim_start_def plain_def overlay_def sim_avr_def)

text \<open>C39: sixteen characters after the first one, without a return, make \<^verbatim>\<open>handleInput\<close> write the terminating zero
  behind its command buffer.\<close>

theorem handleInput_overflow:
  assumes "console E V" and "stdin (V w) = cs @ rest" and "plain cs" and "length cs = COMMAND_BUFF_LEN"
    and "COMMAND_BUFF_LEN \<le> length junk" and "COMMAND_BUFF_LEN < polls E"
  shows "handleInput E junk junk_data junk_out c u w = Fail Out_Of_Bounds"
proof -
  let ?w = "put E [c] w" and ?N = COMMAND_BUFF_LEN
  have inp: "stdin (V ?w) = cs @ rest" using assms(2) console_simps(4) [OF assms(1)] by simp
  obtain n where n: "polls E = length cs + Suc n" using assms(4,6) less_iff_Suc_add by fastforce
  have p: "0 < polls E" using assms(6) by simp
  obtain w1 where "read_line_loop E (polls E) (take ?N junk) ?N 0 ?w
      = read_line_loop E (Suc n) (overlay (take ?N junk) 0 cs) ?N ?N w1"
    using read_line_loop_plain [OF assms(1) p inp assms(3), of 0 ?N "take ?N junk" "Suc n"] assms(4,5) n by auto
  then have "read_line E (take ?N junk) ?N ?w = Fail Out_Of_Bounds"
    using assms(4,5) by (simp add: read_line_def aset_def overlay_def)
  then show ?thesis by (simp add: handleInput_def)
qed

theorem handleInput_overflow_witness:
  "handleInput (sim_avr 0x50) (replicate 16 0) [] [] 114 \<lparr>handler = Handle_Command, mem_location = 0\<rparr>
     (sim_start (replicate 16 65)) = Fail Out_Of_Bounds"
  by (rule handleInput_overflow [OF sim_console [of "0x50"], where cs = "replicate 16 65" and rest = "[]"])
    (simp_all add: sim_desk_def sim_start_def plain_def COMMAND_BUFF_LEN_def sim_avr_def)

text \<open>The size of a page write is what the two bytes say only if the low byte is below 128; otherwise its
  sign makes the size at least 65408.\<close>

theorem pagewrite_size_sign:
  "pagewrite_size b0 b1 = (if b0 < 128 then of_le16 b0 b1 else 0xFF00 OR ucast b0)"
proof (rule bit_word_eqI)
  fix n
  assume "n < LENGTH(16)"
  then have n: "n < 16" by simp
  have "bit b0 7 \<longleftrightarrow> bit (unat b0) 7" by (simp add: bit_unsigned_iff)
  also have "\<dots> \<longleftrightarrow> odd (unat b0 div 128)" by (simp add: bit_iff_odd)
  also have "\<dots> \<longleftrightarrow> \<not> unat b0 < 128"
  proof -
    have "unat b0 < 256" using unsigned_less [of b0, where ?'a = nat] by simp
    then have "unat b0 div 128 = (if unat b0 < 128 then 0 else 1)" by auto
    then show ?thesis by simp
  qed
  finally have s: "b0 < 128 \<longleftrightarrow> \<not> bit b0 7" by (simp add: word_less_nat_alt)
  have "(0xFF00 :: u16) = push_bit 8 (mask 8)" by (simp add: mask_eq_exp_minus_1)
  then have h: "bit (0xFF00 :: u16) n \<longleftrightarrow> 8 \<le> n" using n by (simp only: bit_push_bit_iff bit_mask_iff) auto
  have hi: "\<not> bit b0 n" if "8 \<le> n" using that by (simp add: impossible_bit)
  have m: "min 7 n = (if n < 8 then n else 7)" by simp
  show "bit (pagewrite_size b0 b1) n = bit (if b0 < 128 then of_le16 b0 b1 else 0xFF00 OR ucast b0) n"
    using n s h hi unfolding pagewrite_size_def of_le16_def
    by (cases "n < 8") (auto simp: bit_or_iff bit_push_bit_iff bit_signed_iff bit_ucast_iff m)
qed

end
