(* ===== verification/Ring_Buffer.thy ===== *)
theory Ring_Buffer
  imports C_Prelude
begin

text \<open>
  The byte queue of LUFA, \<^verbatim>\<open>Drivers/Misc/RingBuffer.h\<close>. Pointers into the storage array are offsets from its
  start. The accesses to the interrupt mask make each update of the count atomic and have no other
  effect, so they leave no trace here. The locale \<open>byte_queue\<close> is the contract of a bounded
  first-in-first-out queue; the ring buffer is an instance of it.
\<close>

section \<open>Operations\<close>

record RingBuffer_t =
  storage :: "u8 list"
  In :: nat
  Out :: nat
  Start :: nat
  End :: nat
  Size :: u16
  Count :: u16

definition RingBuffer_InitBuffer :: "u8 list \<Rightarrow> u16 \<Rightarrow> RingBuffer_t" where
  "RingBuffer_InitBuffer DataPtr sz =
     \<lparr>storage = DataPtr, In = 0, Out = 0, Start = 0, End = unat sz, Size = sz, Count = 0\<rparr>"

definition RingBuffer_GetCount :: "RingBuffer_t \<Rightarrow> u16" where
  "RingBuffer_GetCount b = Count b"

definition RingBuffer_GetFreeCount :: "RingBuffer_t \<Rightarrow> u16" where
  "RingBuffer_GetFreeCount b = Size b - RingBuffer_GetCount b"

definition RingBuffer_IsEmpty :: "RingBuffer_t \<Rightarrow> bool" where
  "RingBuffer_IsEmpty b \<longleftrightarrow> RingBuffer_GetCount b = 0"

definition RingBuffer_IsFull :: "RingBuffer_t \<Rightarrow> bool" where
  "RingBuffer_IsFull b \<longleftrightarrow> RingBuffer_GetCount b = Size b"

definition RingBuffer_Insert :: "RingBuffer_t \<Rightarrow> u8 \<Rightarrow> RingBuffer_t result" where
  "RingBuffer_Insert b d =
     rbind (aset (storage b) (In b) d) (\<lambda>s.
     Ok (b\<lparr>storage := s, In := (if Suc (In b) = End b then Start b else Suc (In b)), Count := Count b + 1\<rparr>))"

definition RingBuffer_Remove :: "RingBuffer_t \<Rightarrow> (u8 \<times> RingBuffer_t) result" where
  "RingBuffer_Remove b =
     rbind (aget (storage b) (Out b)) (\<lambda>d.
     Ok (d, b\<lparr>Out := (if Suc (Out b) = End b then Start b else Suc (Out b)), Count := Count b - 1\<rparr>))"

definition RingBuffer_Peek :: "RingBuffer_t \<Rightarrow> u8 result" where
  "RingBuffer_Peek b = aget (storage b) (Out b)"

section \<open>The contract of a queue\<close>

locale byte_queue =
  fixes ok :: "'q \<Rightarrow> bool"
    and elems :: "'q \<Rightarrow> u8 list"
    and cap :: "'q \<Rightarrow> nat"
    and ins :: "'q \<Rightarrow> u8 \<Rightarrow> 'q result"
    and del :: "'q \<Rightarrow> (u8 \<times> 'q) result"
  assumes ins_room: "ok q \<Longrightarrow> length (elems q) < cap q \<Longrightarrow>
      \<exists>q'. ins q x = Ok q' \<and> ok q' \<and> cap q' = cap q \<and> elems q' = elems q @ [x]"
    and del_some: "ok q \<Longrightarrow> elems q = x # xs \<Longrightarrow>
      \<exists>q'. del q = Ok (x, q') \<and> ok q' \<and> cap q' = cap q \<and> elems q' = xs"
begin

text \<open>What goes in comes out, in order.\<close>

lemma ins_all:
  "ok q \<Longrightarrow> length (elems q) + length xs \<le> cap q \<Longrightarrow>
     \<exists>q'. rfold (\<lambda>x q. ins q x) xs q = Ok q' \<and> ok q' \<and> cap q' = cap q \<and> elems q' = elems q @ xs"
proof (induction xs arbitrary: q)
  case (Cons x xs)
  obtain q1 where "ins q x = Ok q1" "ok q1" "cap q1 = cap q" "elems q1 = elems q @ [x]"
    using ins_room [OF Cons.prems(1), of x] Cons.prems(2) by auto
  with Cons.IH [of q1] Cons.prems(2) show ?case by auto
qed simp

lemma del_all:
  "ok q \<Longrightarrow> elems q = xs @ ys \<Longrightarrow>
     \<exists>q'. rfold (\<lambda>_ (out, q). rbind (del q) (\<lambda>(x, q). Ok (out @ [x], q))) [0..<length xs] (zs, q) = Ok (zs @ xs, q') \<and>
       ok q' \<and> elems q' = ys"
proof (induction xs arbitrary: ys rule: rev_induct)
  case (snoc x xs)
  then obtain q1 where "rfold (\<lambda>_ (out, q). rbind (del q) (\<lambda>(x, q). Ok (out @ [x], q))) [0..<length xs] (zs, q) = Ok (zs @ xs, q1)"
    "ok q1" "elems q1 = x # ys" by fastforce
  with del_some [of q1 x ys] show ?case by (auto simp: rfold_append)
qed simp

end

section \<open>The ring buffer keeps the contract\<close>

definition ring_ok :: "RingBuffer_t \<Rightarrow> bool" where
  "ring_ok b \<longleftrightarrow> 0 < unat (Size b) \<and> End b = unat (Size b) \<and> Start b = 0 \<and> unat (Size b) \<le> length (storage b) \<and>
     Out b < End b \<and> unat (Count b) \<le> unat (Size b) \<and> In b = (Out b + unat (Count b)) mod End b"

definition ring_elems :: "RingBuffer_t \<Rightarrow> u8 list" where
  "ring_elems b = map (\<lambda>i. storage b ! ((Out b + i) mod End b)) [0..<unat (Count b)]"

lemma length_ring_elems [simp]: "length (ring_elems b) = unat (Count b)"
  by (simp add: ring_elems_def)

lemma wrap_Suc: "a < n \<Longrightarrow> (if Suc a = n then 0 else Suc a) = Suc a mod n"
  by auto

lemma mod_shift_neq:
  assumes "i < c" and "c < n" and "a < n"
  shows "(a + i) mod n \<noteq> (a + c) mod (n :: nat)"
proof
  assume "(a + i) mod n = (a + c) mod n"
  then have "(a + c - (a + i)) mod n = 0" using assms by (metis add_le_cancel_left less_imp_le mod_eq_dvd_iff_nat dvd_imp_mod_0)
  with assms show False by simp
qed

lemma ring_insert:
  assumes "ring_ok b" and "unat (Count b) < unat (Size b)"
  shows "\<exists>b'. RingBuffer_Insert b x = Ok b' \<and> ring_ok b' \<and> Size b' = Size b \<and> ring_elems b' = ring_elems b @ [x]"
proof -
  let ?n = "unat (Size b)" and ?c = "unat (Count b)"
  have ok: "0 < ?n" "End b = ?n" "Start b = 0" "?n \<le> length (storage b)" "Out b < ?n" "In b = (Out b + ?c) mod ?n"
    using assms(1) by (simp_all add: ring_ok_def)
  have i: "In b < ?n" using ok by simp
  have c: "unat (Count b + 1) = Suc ?c"
    using assms(2) unsigned_less [of "Size b", where ?'a = nat] unfolding unat_word_ariths(1) by simp
  let ?b = "b\<lparr>storage := (storage b)[In b := x], In := Suc (In b) mod ?n, Count := Count b + 1\<rparr>"
  have "RingBuffer_Insert b x = Ok ?b" 
    unfolding RingBuffer_Insert_def ok(2,3) wrap_Suc [OF i] using i ok(4) by simp
  moreover have "ring_ok ?b" using ok c assms(2) by (simp add: ring_ok_def mod_Suc_eq)
  moreover have "ring_elems ?b = ring_elems b @ [x]"
  proof -
    have new: "(storage b)[In b := x] ! ((Out b + ?c) mod ?n) = x" using ok(4,6) i by simp
    have "(storage b)[In b := x] ! ((Out b + j) mod ?n) = storage b ! ((Out b + j) mod ?n)" if "j < ?c" for j
      using mod_shift_neq [OF that assms(2) ok(5)] ok(6) by simp
    then show ?thesis using new c ok(2) by (simp add: ring_elems_def)
  qed
  ultimately show ?thesis by auto
qed

lemma ring_remove:
  assumes "ring_ok b" and "ring_elems b = x # xs"
  shows "\<exists>b'. RingBuffer_Remove b = Ok (x, b') \<and> ring_ok b' \<and> Size b' = Size b \<and> ring_elems b' = xs"
proof -
  let ?n = "unat (Size b)" and ?c = "unat (Count b)"
  have ok: "0 < ?n" "End b = ?n" "Start b = 0" "?n \<le> length (storage b)" "Out b < ?n" "In b = (Out b + ?c) mod ?n" "?c \<le> ?n"
    using assms(1) by (simp_all add: ring_ok_def)
  have pos: "?c = Suc (length xs)" using assms(2) by (metis length_Cons length_ring_elems)
  then have c: "unat (Count b - 1) = length xs" by (simp add: unat_minus_one unat_gt_0 [symmetric])
  let ?b = "b\<lparr>Out := Suc (Out b) mod ?n, Count := Count b - 1\<rparr>"
  have x: "storage b ! Out b = x" and xs: "xs = map (\<lambda>i. storage b ! ((Out b + Suc i) mod ?n)) [0..<length xs]"
  proof -
    have "map (\<lambda>i. storage b ! ((Out b + i) mod ?n)) [0..<Suc (length xs)] = x # xs"
      using assms(2) ok(2) pos by (simp add: ring_elems_def del: upt_Suc)
    then show "storage b ! Out b = x" "xs = map (\<lambda>i. storage b ! ((Out b + Suc i) mod ?n)) [0..<length xs]"
      unfolding map_upt_Suc using ok(5) by simp_all
  qed
  have "RingBuffer_Remove b = Ok (x, ?b)" 
    unfolding RingBuffer_Remove_def ok(2,3) wrap_Suc [OF ok(5)] using ok(4,5) x by simp
  moreover have "ring_ok ?b" using ok c pos by (simp add: ring_ok_def mod_add_left_eq)
  moreover have "ring_elems ?b = xs" using xs c ok by (simp add: ring_elems_def mod_add_left_eq)
  ultimately show ?thesis by auto
qed

interpretation ring: byte_queue ring_ok ring_elems "\<lambda>b. unat (Size b)" RingBuffer_Insert RingBuffer_Remove
  by unfold_locales (use ring_insert ring_remove in \<open>fastforce+\<close>)

lemma ring_init: "0 < sz \<Longrightarrow> unat sz \<le> length data \<Longrightarrow> ring_ok (RingBuffer_InitBuffer data sz)"
  "ring_elems (RingBuffer_InitBuffer data sz) = []"
  by (simp_all add: ring_ok_def ring_elems_def RingBuffer_InitBuffer_def word_gt_0 unat_gt_0)

section \<open>Properties\<close>

text \<open>C14: whatever fits into an initialised ring buffer comes out of it again, in order, however often the
  buffer has been used before: bytes inserted behind \<open>xs\<close> leave after them.\<close>

theorem ring_buffer_fifo:
  assumes "ring_ok b" and "unat (RingBuffer_GetCount b) + length xs \<le> unat (Size b)"
  shows "\<exists>b1 b2. rfold (\<lambda>x b. RingBuffer_Insert b x) xs b = Ok b1 \<and> ring_ok b1 \<and>
    unat (RingBuffer_GetFreeCount b1) = unat (Size b) - unat (RingBuffer_GetCount b) - length xs \<and>
    rfold (\<lambda>_ (out, b). rbind (RingBuffer_Remove b) (\<lambda>(x, b). Ok (out @ [x], b)))
      [0..<unat (RingBuffer_GetCount b) + length xs] ([], b1) = Ok (ring_elems b @ xs, b2) \<and> RingBuffer_IsEmpty b2"
proof -
  obtain b1 where b1: "rfold (\<lambda>x b. RingBuffer_Insert b x) xs b = Ok b1" "ring_ok b1" "unat (Size b1) = unat (Size b)"
    "ring_elems b1 = ring_elems b @ xs"
    using ring.ins_all [OF assms(1), of xs] assms(2) by (auto simp: RingBuffer_GetCount_def)
  have c1: "unat (Count b1) = unat (Count b) + length xs"
    using b1(4) by (metis length_append length_ring_elems)
  then have free: "unat (RingBuffer_GetFreeCount b1) = unat (Size b) - unat (RingBuffer_GetCount b) - length xs"
    using b1(2,3) by (simp add: RingBuffer_GetFreeCount_def RingBuffer_GetCount_def ring_ok_def unat_sub word_le_nat_alt)
  from ring.del_all [OF b1(2), of "ring_elems b @ xs" "[]" "[]"] b1(4) obtain b2 where
    b2: "rfold (\<lambda>_ (out, b). rbind (RingBuffer_Remove b) (\<lambda>(x, b). Ok (out @ [x], b)))
      [0..<length (ring_elems b @ xs)] ([], b1) = Ok (ring_elems b @ xs, b2)" "ring_elems b2 = []" by auto
  have "unat (Count b2) = 0" using b2(2) by (metis length_ring_elems list.size(3))
  then have "RingBuffer_IsEmpty b2" by (simp add: RingBuffer_IsEmpty_def RingBuffer_GetCount_def unat_eq_0)
  then show ?thesis using b1(1,2) free b2(1) by (simp add: RingBuffer_GetCount_def)
qed

theorem ring_buffer_fifo_witness:
  "\<exists>b1 b2. rfold (\<lambda>x b. RingBuffer_Insert b x) [7, 8] (RingBuffer_InitBuffer [0, 0, 0] 3) = Ok b1 \<and>
     rfold (\<lambda>_ (out, b). rbind (RingBuffer_Remove b) (\<lambda>(x, b). Ok (out @ [x], b))) [0..<2] ([], b1) = Ok ([7, 8], b2)"
proof -
  let ?b = "RingBuffer_InitBuffer [0, 0, 0] 3"
  have c: "unat (RingBuffer_GetCount ?b) = 0" "unat (Size ?b) = 3"
    by (simp_all add: RingBuffer_GetCount_def RingBuffer_InitBuffer_def)
  have "0 + length [7, 8 :: u8] = 2" by simp
  with ring_buffer_fifo [OF ring_init(1) [of 3 "[0, 0, 0]"], of "[7, 8]"] show ?thesis
    unfolding c ring_init(2) append_Nil by (simp only:) auto
qed

end
