(* ===== verification/Config_Desc.thy ===== *)
theory Config_Desc
  imports C_Prelude
begin

text \<open>
  Walking a configuration descriptor: \<^verbatim>\<open>USB/Core/ConfigDescriptors.c\<close> and the inline step of its header. The
  descriptor is a byte list; the pair of \<^verbatim>\<open>*BytesRem\<close> and \<^verbatim>\<open>*CurrConfigLoc\<close> is a remaining count and
  an offset. Every sub-descriptor starts with its size and its type. A search makes at most as many
  rounds as there are bytes left, unless it stands on a descriptor of size 0; the fuel of the loops
  is one more than that.
\<close>

section \<open>Operations\<close>

type_synonym config_pos = "u16 \<times> nat"

definition DESCRIPTOR_TYPE :: "u8 list \<Rightarrow> nat \<Rightarrow> u8 result" where
  "DESCRIPTOR_TYPE d loc = aget d (loc + 1)"

definition DESCRIPTOR_SIZE :: "u8 list \<Rightarrow> nat \<Rightarrow> u8 result" where
  "DESCRIPTOR_SIZE d loc = aget d loc"

definition USB_GetNextDescriptor :: "u8 list \<Rightarrow> config_pos \<Rightarrow> config_pos result" where
  "USB_GetNextDescriptor d p =
     (case p of (BytesRem, loc) \<Rightarrow>
        rbind (DESCRIPTOR_SIZE d loc) (\<lambda>s.
        let n = (if BytesRem < ucast s then BytesRem else ucast s) in
        Ok (BytesRem - n, loc + unat n)))"

fun next_of_type :: "nat \<Rightarrow> u8 list \<Rightarrow> u8 \<Rightarrow> config_pos \<Rightarrow> config_pos result" where
  "next_of_type 0 d T p = Fail Diverge"
| "next_of_type (Suc n) d T p =
     (if fst p \<noteq> 0 then
        rbind (USB_GetNextDescriptor d p) (\<lambda>p.
        rbind (DESCRIPTOR_TYPE d (snd p)) (\<lambda>t.
        if t = T then Ok p else next_of_type n d T p))
      else Ok p)"

definition USB_GetNextDescriptorOfType :: "u8 list \<Rightarrow> u8 \<Rightarrow> config_pos \<Rightarrow> config_pos result" where
  "USB_GetNextDescriptorOfType d T p = next_of_type (Suc (unat (fst p))) d T p"

fun next_of_type_before :: "nat \<Rightarrow> u8 list \<Rightarrow> u8 \<Rightarrow> u8 \<Rightarrow> config_pos \<Rightarrow> config_pos result" where
  "next_of_type_before 0 d T B p = Fail Diverge"
| "next_of_type_before (Suc n) d T B p =
     (if fst p \<noteq> 0 then
        rbind (USB_GetNextDescriptor d p) (\<lambda>p.
        rbind (DESCRIPTOR_TYPE d (snd p)) (\<lambda>t.
        if t = T then Ok p
        else if t = B then Ok (0, snd p)
        else next_of_type_before n d T B p))
      else Ok p)"

definition USB_GetNextDescriptorOfTypeBefore :: "u8 list \<Rightarrow> u8 \<Rightarrow> u8 \<Rightarrow> config_pos \<Rightarrow> config_pos result" where
  "USB_GetNextDescriptorOfTypeBefore d T B p = next_of_type_before (Suc (unat (fst p))) d T B p"

definition USB_GetNextDescriptorOfTypeAfter :: "u8 list \<Rightarrow> u8 \<Rightarrow> u8 \<Rightarrow> config_pos \<Rightarrow> config_pos result" where
  "USB_GetNextDescriptorOfTypeAfter d T A p =
     rbind (USB_GetNextDescriptorOfType d A p) (\<lambda>p.
     if fst p \<noteq> 0 then USB_GetNextDescriptorOfType d T p else Ok p)"

text \<open>The comparator is a function of the caller: a verdict on the descriptor at an offset.\<close>

datatype search = Found | Failed | NotFound

datatype comp_code = COMP_Found | COMP_Fail | COMP_EndOfDescriptor

fun next_comp :: "nat \<Rightarrow> u8 list \<Rightarrow> (nat \<Rightarrow> search) \<Rightarrow> config_pos \<Rightarrow> (comp_code \<times> config_pos) result" where
  "next_comp 0 d cmp p = Fail Diverge"
| "next_comp (Suc n) d cmp p =
     (if fst p \<noteq> 0 then
        rbind (USB_GetNextDescriptor d p) (\<lambda>q.
        case cmp (snd q) of
          NotFound \<Rightarrow> next_comp n d cmp q
        | Failed \<Rightarrow> Ok (COMP_Fail, p)
        | Found \<Rightarrow> Ok (COMP_Found, q))
      else Ok (COMP_EndOfDescriptor, p))"

definition USB_GetNextDescriptorComp ::
  "u8 list \<Rightarrow> (nat \<Rightarrow> search) \<Rightarrow> config_pos \<Rightarrow> (comp_code \<times> config_pos) result" where
  "USB_GetNextDescriptorComp d cmp p = next_comp (Suc (unat (fst p))) d cmp p"

section \<open>Chains of descriptors\<close>

definition wf_desc :: "u8 list \<Rightarrow> bool" where
  "wf_desc x \<longleftrightarrow> 2 \<le> length x \<and> length x < 256 \<and> hd x = of_nat (length x)"

lemma unat_ucast_u8_u16 [simp]: "unat (ucast (b :: u8) :: u16) = unat b"
  using unsigned_less [of b, where ?'a = nat] by (simp add: unsigned_ucast_eq take_bit_nat_eq_self)

lemma get_next_step:
  assumes "wf_desc c" and "length c + r < 65536"
  shows "USB_GetNextDescriptor (pre @ c @ rest) (of_nat (length c + r), length pre) = Ok (of_nat r, length pre + length c)"
proof -
  have c: "c \<noteq> []" "unat (hd c) = length c"
    using assms(1) unat_of_nat_u8 [of "length c"] by (auto simp: wf_desc_def)
  then have s: "DESCRIPTOR_SIZE (pre @ c @ rest) (length pre) = Ok (hd c)"
    by (cases c) (simp_all add: DESCRIPTOR_SIZE_def aget_def)
  have "\<not> (of_nat (length c + r) :: u16) < ucast (hd c)"
    using assms(2) c(2) unat_of_nat_u16 [of "length c + r"] by (simp add: word_less_nat_alt del: of_nat_add)
  moreover have "(of_nat (length c + r) - ucast (hd c) :: u16) = of_nat r"
  proof -
    have "(ucast (hd c) :: u16) = of_nat (length c)" unfolding c(2) [symmetric] by simp
    then show ?thesis by simp
  qed
  ultimately show ?thesis using s c(2) by (simp add: USB_GetNextDescriptor_def Let_def del: of_nat_add)
qed

lemma wf_type: "wf_desc x \<Longrightarrow> DESCRIPTOR_TYPE (pre @ x @ rest) (length pre) = Ok (x ! 1)"
  by (auto simp: DESCRIPTOR_TYPE_def wf_desc_def aget_def nth_append)

lemma next_of_type_chain:
  "wf_desc c \<Longrightarrow> (\<forall>y \<in> set ds. wf_desc y \<and> y ! 1 \<noteq> T) \<Longrightarrow> wf_desc x \<Longrightarrow> x ! 1 = T \<Longrightarrow>
   length (concat (c # ds)) + r < 65536 \<Longrightarrow> length ds < n \<Longrightarrow>
   next_of_type n (pre @ concat (c # ds) @ x @ rest) T (of_nat (length (concat (c # ds)) + r), length pre)
     = Ok (of_nat r, length pre + length (concat (c # ds)))"
proof (induction ds arbitrary: c pre n)
  case Nil
  then obtain m where n: "n = Suc m" by (cases n) auto
  have ne: "(of_nat (length c + r) :: u16) \<noteq> 0"
    using Nil.prems(1,5) unat_of_nat_u16 [of "length c + r"] by (auto simp: wf_desc_def simp del: of_nat_add)
  show ?case
    using get_next_step [OF Nil.prems(1), of r pre "x @ rest"] wf_type [OF Nil.prems(3), of "pre @ c" rest] Nil.prems(4,5) n ne
    by (simp del: of_nat_add)
next
  case (Cons y ds)
  then obtain m where n: "n = Suc m" "length ds < m" by (cases n) auto
  let ?r = "length (concat (y # ds)) + r"
  have ne: "(of_nat (length c + ?r) :: u16) \<noteq> 0"
    using Cons.prems(1,5) unat_of_nat_u16 [of "length c + ?r"] by (auto simp: wf_desc_def simp del: of_nat_add)
  have "next_of_type m ((pre @ c) @ concat (y # ds) @ x @ rest) T (of_nat ?r, length (pre @ c))
      = Ok (of_nat r, length (pre @ c) + length (concat (y # ds)))"
    by (rule Cons.IH) (use Cons.prems n in simp_all)
  moreover have "DESCRIPTOR_TYPE ((pre @ c) @ y @ concat ds @ x @ rest) (length (pre @ c)) = Ok (y ! 1)"
    by (rule wf_type) (use Cons.prems(2) in simp)
  ultimately show ?case
    using get_next_step [OF Cons.prems(1), of ?r pre "concat (y # ds) @ x @ rest"] Cons.prems(2,5) n ne
    by (simp add: add.assoc del: of_nat_add)
qed

lemma length_le_concat: "\<forall>y \<in> set ds. wf_desc y \<Longrightarrow> length ds \<le> length (concat ds)"
  by (induction ds) (auto simp: wf_desc_def)

text \<open>A descriptor of size 0 that is not of the type searched for holds the search forever.\<close>

lemma next_of_type_zero:
  assumes "DESCRIPTOR_SIZE d loc = Ok 0" and "DESCRIPTOR_TYPE d loc = Ok t" and "t \<noteq> T" and "rem \<noteq> 0"
  shows "next_of_type n d T (rem, loc) = Fail Diverge"
  using assms by (induction n) (simp_all add: USB_GetNextDescriptor_def Let_def)

section \<open>Properties\<close>

text \<open>C29: on a chain of well-formed descriptors the search stops at the first descriptor of the type behind the
  current one, with the bytes from there on still to go.\<close>

theorem next_descriptor_of_type:
  assumes "wf_desc c" and "\<forall>y \<in> set ds. wf_desc y \<and> y ! 1 \<noteq> T" and "wf_desc x" and "x ! 1 = T"
    and "length (concat (c # ds)) + r < 65536"
  shows "USB_GetNextDescriptorOfType (pre @ concat (c # ds) @ x @ rest) T (of_nat (length (concat (c # ds)) + r), length pre)
    = Ok (of_nat r, length pre + length (concat (c # ds)))"
proof -
  have "length ds \<le> length (concat ds)" using assms(2) by (intro length_le_concat) simp
  then have "length ds < Suc (unat (of_nat (length (concat (c # ds)) + r) :: u16))"
    using assms(5) unat_of_nat_u16 [OF assms(5)] by (simp del: of_nat_add)
  from next_of_type_chain [OF assms this] show ?thesis
    unfolding USB_GetNextDescriptorOfType_def fst_conv .
qed

theorem next_descriptor_of_type_witness:
  "USB_GetNextDescriptorOfType [3, 2, 9, 2, 4, 4, 5, 1, 1] 5 (9, 0) = Ok (4, 5)"
  using next_descriptor_of_type [of "[3, 2, 9]" "[[2, 4]]" 5 "[4, 5, 1, 1]" 4 "[]" "[]"] by (simp add: wf_desc_def)

text \<open>A descriptor of size 0 makes the search run forever, unless it is of the type searched for.\<close>

theorem zero_descriptor_diverges:
  assumes "DESCRIPTOR_SIZE d loc = Ok 0" and "DESCRIPTOR_TYPE d loc = Ok t" and "t \<noteq> T" and "rem \<noteq> 0"
  shows "USB_GetNextDescriptorOfType d T (rem, loc) = Fail Diverge \<and> (\<forall>n. next_of_type n d T (rem, loc) = Fail Diverge)"
  using next_of_type_zero [OF assms] by (simp add: USB_GetNextDescriptorOfType_def del: next_of_type.simps)

theorem zero_descriptor_diverges_witness:
  "USB_GetNextDescriptorOfType [0, 4, 9] 5 (3, 0) = Fail Diverge"
  using zero_descriptor_diverges [of "[0, 4, 9]" 0 4 5 3] by (simp add: DESCRIPTOR_SIZE_def DESCRIPTOR_TYPE_def)

end
