(* ===== verification/Hid_Parser.thy ===== *)
theory Hid_Parser
  imports C_Prelude
begin

text \<open>
  The report descriptor parser of LUFA, \<^verbatim>\<open>USB/Class/Common/HIDParser.c\<close>. The locals and the output structure
  of \<^verbatim>\<open>USB_ProcessHIDReport\<close> are one record \<open>hid\<close>, every pointer into one of its arrays is an index
  (\<^const>\<open>None\<close> for NULL), and a step gives the code of an early return, if there is one, beside the state. The filter callback
  of the application is the parameter \<open>filt\<close>. A field of a report item that the parser does not set
  has no value. Every round of the parser reads at least one byte of the descriptor, so a fuel of one
  more than the length of the byte list is enough.
\<close>

section \<open>Constants and data\<close>

definition HID_STATETABLE_STACK_DEPTH :: nat where "HID_STATETABLE_STACK_DEPTH = 2"
definition HID_USAGE_STACK_DEPTH :: nat where "HID_USAGE_STACK_DEPTH = 8"
definition HID_MAX_COLLECTIONS :: nat where "HID_MAX_COLLECTIONS = 10"
definition HID_MAX_REPORTITEMS :: nat where "HID_MAX_REPORTITEMS = 20"
definition HID_MAX_REPORT_IDS :: nat where "HID_MAX_REPORT_IDS = 10"

lemmas hid_sizes = HID_STATETABLE_STACK_DEPTH_def HID_USAGE_STACK_DEPTH_def HID_MAX_COLLECTIONS_def
  HID_MAX_REPORTITEMS_def HID_MAX_REPORT_IDS_def

datatype hid_code =
    HID_PARSE_Successful
  | HID_PARSE_HIDStackOverflow
  | HID_PARSE_HIDStackUnderflow
  | HID_PARSE_InsufficientReportItems
  | HID_PARSE_UnexpectedEndCollection
  | HID_PARSE_InsufficientCollectionPaths
  | HID_PARSE_UsageListOverflow
  | HID_PARSE_InsufficientReportIDItems
  | HID_PARSE_NoUnfilteredReportItems

record HID_MinMax_t =
  Minimum :: u32
  Maximum :: u32

record HID_Unit_t =
  UnitType :: u32
  Exponent :: u8

record HID_Usage_t =
  Page :: u16
  Usage :: u16

record HID_CollectionPath_t =
  CType :: u8
  CUsage :: HID_Usage_t
  Parent :: "nat option"

record HID_Attributes_t =
  BitSize :: u8
  AUsage :: HID_Usage_t
  AUnit :: HID_Unit_t
  Logical :: HID_MinMax_t
  Physical :: HID_MinMax_t

record HID_ReportItem_t =
  BitOffset :: u16
  ItemType :: u8
  ItemFlags :: u16
  IReportID :: u8
  CollectionPath :: "nat option"
  IAttributes :: HID_Attributes_t
  Val :: "u32 option"
  PreviousVal :: "u32 option"

record HID_ReportSizeInfo_t =
  RReportID :: u8
  ReportSizeBits :: "u16 list"

record HID_StateTable_t =
  Attributes :: HID_Attributes_t
  ReportCount :: u8
  SReportID :: u8

record HID_ReportInfo_t =
  TotalReportItems :: u8
  ReportItems :: "HID_ReportItem_t list"
  CollectionPaths :: "HID_CollectionPath_t list"
  TotalDeviceReports :: u8
  ReportIDSizes :: "HID_ReportSizeInfo_t list"
  LargestReportSizeBits :: u16
  UsingReportIDs :: bool

record hid =
  ParserData :: HID_ReportInfo_t
  StateTable :: "HID_StateTable_t option list"
  CurrStateTable :: nat
  CurrCollectionPath :: "nat option"
  CurrReportIDInfo :: "nat option"
  UsageList :: "u16 list"
  UsageListSize :: u8
  UsageMinMax :: HID_MinMax_t

text \<open>The sizes of the two structs in bytes, without padding and with pointers of two bytes.\<close>

definition sizeof_Attributes :: nat where "sizeof_Attributes = 1 + 4 + 5 + 8 + 8"
definition sizeof_StateTable :: nat where "sizeof_StateTable = sizeof_Attributes + 1 + 1"
definition sizeof_ReportItem :: nat where "sizeof_ReportItem = 2 + 1 + 2 + 1 + 2 + sizeof_Attributes + 4 + 4"

lemmas hid_sizeof = sizeof_Attributes_def sizeof_StateTable_def sizeof_ReportItem_def

abbreviation zero_minmax :: HID_MinMax_t where "zero_minmax \<equiv> \<lparr>Minimum = 0, Maximum = 0\<rparr>"
abbreviation zero_usage :: HID_Usage_t where "zero_usage \<equiv> \<lparr>Page = 0, Usage = 0\<rparr>"
abbreviation zero_attributes :: HID_Attributes_t where
  "zero_attributes \<equiv> \<lparr>BitSize = 0, AUsage = zero_usage, AUnit = \<lparr>UnitType = 0, Exponent = 0\<rparr>,
     Logical = zero_minmax, Physical = zero_minmax\<rparr>"
abbreviation zero_size_info :: HID_ReportSizeInfo_t where
  "zero_size_info \<equiv> \<lparr>RReportID = 0, ReportSizeBits = [0, 0, 0]\<rparr>"
abbreviation zero_item :: HID_ReportItem_t where
  "zero_item \<equiv> \<lparr>BitOffset = 0, ItemType = 0, ItemFlags = 0, IReportID = 0, CollectionPath = None,
     IAttributes = zero_attributes, Val = Some 0, PreviousVal = Some 0\<rparr>"

definition hid_start :: hid where
  "hid_start =
     \<lparr>ParserData =
        \<lparr>TotalReportItems = 0, ReportItems = replicate HID_MAX_REPORTITEMS zero_item,
         CollectionPaths = replicate HID_MAX_COLLECTIONS \<lparr>CType = 0, CUsage = zero_usage, Parent = None\<rparr>,
         TotalDeviceReports = 1, ReportIDSizes = replicate HID_MAX_REPORT_IDS zero_size_info,
         LargestReportSizeBits = 0, UsingReportIDs = False\<rparr>,
      StateTable = Some \<lparr>Attributes = zero_attributes, ReportCount = 0, SReportID = 0\<rparr>
        # replicate (HID_STATETABLE_STACK_DEPTH - 1) None,
      CurrStateTable = 0, CurrCollectionPath = None, CurrReportIDInfo = Some 0,
      UsageList = replicate HID_USAGE_STACK_DEPTH 0, UsageListSize = 0, UsageMinMax = zero_minmax\<rparr>"

section \<open>Items\<close>

text \<open>The data of an item: what follows its first byte.\<close>

definition item_size :: "u8 \<Rightarrow> nat" where
  "item_size b = (let s = b AND 0x03 in if s = 3 then 4 else if s = 2 then 2 else if s = 1 then 1 else 0)"

definition item_data :: "u8 \<Rightarrow> u8 list \<Rightarrow> nat \<Rightarrow> u32 result" where
  "item_data b d pos =
     (if b AND 0x03 = 3 then
        rbind (aget d (pos + 3)) (\<lambda>x3. rbind (aget d (pos + 2)) (\<lambda>x2.
        rbind (aget d (pos + 1)) (\<lambda>x1. rbind (aget d pos) (\<lambda>x0.
        Ok (push_bit 24 (ucast x3) OR push_bit 16 (ucast x2) OR push_bit 8 (ucast x1) OR ucast x0)))))
      else if b AND 0x03 = 2 then
        rbind (aget d (pos + 1)) (\<lambda>x1. rbind (aget d pos) (\<lambda>x0. Ok (push_bit 8 (ucast x1) OR ucast x0)))
      else if b AND 0x03 = 1 then rbind (aget d pos) (\<lambda>x0. Ok (ucast x0))
      else Ok 0)"

definition item_tag :: "u8 \<Rightarrow> u8" where
  "item_tag b = b AND 0xFC"

type_synonym hid_step = "(hid_code option \<times> hid) result"

definition update_state :: "(HID_StateTable_t \<Rightarrow> HID_StateTable_t) \<Rightarrow> hid \<Rightarrow> hid_step" where
  "update_state f st =
     rbind (cell_get (StateTable st) (Some (CurrStateTable st))) (\<lambda>s.
     rbind (cell_set (StateTable st) (Some (CurrStateTable st)) (f s)) (\<lambda>t.
     Ok (None, (st\<lparr>StateTable := t\<rparr>))))"

definition update_attributes :: "(HID_Attributes_t \<Rightarrow> HID_Attributes_t) \<Rightarrow> hid \<Rightarrow> hid_step" where
  "update_attributes f = update_state (\<lambda>s. s\<lparr>Attributes := f (Attributes s)\<rparr>)"

text \<open>\<^verbatim>\<open>PUSH\<close> copies as many bytes as a report item has, which is more than a state has.\<close>

definition hid_push :: "hid \<Rightarrow> hid_step" where
  "hid_push st =
     (if CurrStateTable st = HID_STATETABLE_STACK_DEPTH - 1 then Ok (Some HID_PARSE_HIDStackOverflow, st)
      else if HID_STATETABLE_STACK_DEPTH * sizeof_StateTable
                < Suc (CurrStateTable st) * sizeof_StateTable + sizeof_ReportItem
      then Fail Out_Of_Bounds
      else
        rbind (cell_get (StateTable st) (Some (CurrStateTable st))) (\<lambda>s.
        rbind (cell_set (StateTable st) (Some (Suc (CurrStateTable st))) s) (\<lambda>t.
        Ok (None, (st\<lparr>StateTable := t, CurrStateTable := Suc (CurrStateTable st)\<rparr>)))))"

definition hid_pop :: "hid \<Rightarrow> hid_step" where
  "hid_pop st =
     (if CurrStateTable st = 0 then Ok (Some HID_PARSE_HIDStackUnderflow, st)
      else Ok (None, (st\<lparr>CurrStateTable := CurrStateTable st - 1\<rparr>)))"

definition hid_usage_page :: "u8 \<Rightarrow> u32 \<Rightarrow> hid \<Rightarrow> hid_step" where
  "hid_usage_page b v =
     update_attributes (\<lambda>a.
       let a = (if b AND 0x03 = 3 then a\<lparr>AUsage := (AUsage a)\<lparr>Page := ucast (drop_bit 16 v)\<rparr>\<rparr> else a)
       in a\<lparr>AUsage := (AUsage a)\<lparr>Page := ucast v\<rparr>\<rparr>)"

fun find_report_id :: "HID_ReportSizeInfo_t list \<Rightarrow> u8 \<Rightarrow> nat list \<Rightarrow> nat option result" where
  "find_report_id sizes r [] = Ok None"
| "find_report_id sizes r (i # is) =
     rbind (aget sizes i) (\<lambda>x. if RReportID x = r then Ok (Some i) else find_report_id sizes r is)"

text \<open>The record of report sizes that the following items belong to.\<close>

definition hid_select_report :: "u8 \<Rightarrow> hid \<Rightarrow> hid_step" where
  "hid_select_report r st =
     (if UsingReportIDs (ParserData st) then
        rbind (find_report_id (ReportIDSizes (ParserData st)) r [0..<unat (TotalDeviceReports (ParserData st))]) (\<lambda>found.
        if found = None then
          if unat (TotalDeviceReports (ParserData st)) = HID_MAX_REPORT_IDS
          then Ok (Some HID_PARSE_InsufficientReportIDItems, st)
          else
            let i = unat (TotalDeviceReports (ParserData st)) in
            rbind (aset (ReportIDSizes (ParserData st)) i zero_size_info) (\<lambda>z.
            Ok (None, (st\<lparr>CurrReportIDInfo := Some i,
              ParserData := (ParserData st)\<lparr>ReportIDSizes := z,
                TotalDeviceReports := TotalDeviceReports (ParserData st) + 1\<rparr>\<rparr>)))
        else Ok (None, (st\<lparr>CurrReportIDInfo := found\<rparr>)))
      else Ok (None, st))"

definition hid_report_id :: "u32 \<Rightarrow> hid \<Rightarrow> hid_step" where
  "hid_report_id v st =
     rbind (update_state (\<lambda>s. s\<lparr>SReportID := ucast v\<rparr>) st) (\<lambda>(c, st).
     if c \<noteq> None then Ok (c, st) else
     rbind (hid_select_report (ucast v) st) (\<lambda>(c, st).
     if c \<noteq> None then Ok (c, st) else
       (case CurrReportIDInfo st of
          None \<Rightarrow> Fail Null_Deref
        | Some i \<Rightarrow>
            rbind (aget (ReportIDSizes (ParserData st)) i) (\<lambda>x.
            rbind (aset (ReportIDSizes (ParserData st)) i (x\<lparr>RReportID := ucast v\<rparr>)) (\<lambda>z.
            Ok (None, (st\<lparr>ParserData := (ParserData st)\<lparr>UsingReportIDs := True, ReportIDSizes := z\<rparr>\<rparr>)))))))"

definition hid_usage :: "u32 \<Rightarrow> hid \<Rightarrow> hid_step" where
  "hid_usage v st =
     (if unat (UsageListSize st) = HID_USAGE_STACK_DEPTH then Ok (Some HID_PARSE_UsageListOverflow, st)
      else
        rbind (aset (UsageList st) (unat (UsageListSize st)) (ucast v)) (\<lambda>l.
        Ok (None, (st\<lparr>UsageList := l, UsageListSize := UsageListSize st + 1\<rparr>))))"

text \<open>The next usage, from the list or from the range; the list moves up.\<close>

definition take_usage :: "hid \<Rightarrow> (u16 option \<times> hid) result" where
  "take_usage st =
     (if UsageListSize st \<noteq> 0 then
        rbind (aget (UsageList st) 0) (\<lambda>u.
        rbind (rfold (\<lambda>i l. rbind (aget l i) (\<lambda>x. aset l (i - 1) x)) [1..<unat (UsageListSize st)] (UsageList st)) (\<lambda>l.
        Ok (Some u, st\<lparr>UsageList := l, UsageListSize := UsageListSize st - 1\<rparr>)))
      else if Minimum (UsageMinMax st) \<le> Maximum (UsageMinMax st) then
        Ok (Some (ucast (Minimum (UsageMinMax st))),
            st\<lparr>UsageMinMax := (UsageMinMax st)\<lparr>Minimum := Minimum (UsageMinMax st) + 1\<rparr>\<rparr>)
      else Ok (None, st))"

text \<open>The first collection path from \<open>i\<close> on without a parent; \<open>k\<close> paths are left.\<close>

fun free_collection :: "HID_CollectionPath_t list \<Rightarrow> nat \<Rightarrow> nat \<Rightarrow> nat option result" where
  "free_collection paths i 0 = Ok None"
| "free_collection paths i (Suc k) =
     rbind (aget paths i) (\<lambda>p. if Parent p \<noteq> None then free_collection paths (Suc i) k else Ok (Some i))"

definition hid_open_path :: "hid \<Rightarrow> hid_step" where
  "hid_open_path st =
     (case CurrCollectionPath st of
        None \<Rightarrow> Ok (None, (st\<lparr>CurrCollectionPath := Some 0\<rparr>))
      | Some parent \<Rightarrow>
          rbind (free_collection (CollectionPaths (ParserData st)) 1 (HID_MAX_COLLECTIONS - 1)) (\<lambda>f.
          case f of
            None \<Rightarrow> Ok (Some HID_PARSE_InsufficientCollectionPaths, st)
          | Some i \<Rightarrow>
              rbind (aget (CollectionPaths (ParserData st)) i) (\<lambda>p.
              rbind (aset (CollectionPaths (ParserData st)) i (p\<lparr>Parent := Some parent\<rparr>)) (\<lambda>ps.
              Ok (None, (st\<lparr>CurrCollectionPath := Some i,
                ParserData := (ParserData st)\<lparr>CollectionPaths := ps\<rparr>\<rparr>))))))"

definition hid_collection :: "u32 \<Rightarrow> hid \<Rightarrow> hid_step" where
  "hid_collection v st =
     rbind (hid_open_path st) (\<lambda>(c, st).
     if c \<noteq> None then Ok (c, st) else
     rbind (cell_get (StateTable st) (Some (CurrStateTable st))) (\<lambda>s.
     rbind (take_usage st) (\<lambda>(u, st).
     case CurrCollectionPath st of
       None \<Rightarrow> Fail Null_Deref
     | Some i \<Rightarrow>
         rbind (aget (CollectionPaths (ParserData st)) i) (\<lambda>p.
         let us = (CUsage p)\<lparr>Page := Page (AUsage (Attributes s))\<rparr>;
             us = (case u of None \<Rightarrow> us | Some x \<Rightarrow> us\<lparr>Usage := x\<rparr>) in
         rbind (aset (CollectionPaths (ParserData st)) i (p\<lparr>CType := ucast v, CUsage := us\<rparr>)) (\<lambda>ps.
         Ok (None, (st\<lparr>ParserData := (ParserData st)\<lparr>CollectionPaths := ps\<rparr>\<rparr>)))))))"

definition hid_end_collection :: "hid \<Rightarrow> hid_step" where
  "hid_end_collection st =
     (case CurrCollectionPath st of
        None \<Rightarrow> Ok (Some HID_PARSE_UnexpectedEndCollection, st)
      | Some i \<Rightarrow>
          rbind (aget (CollectionPaths (ParserData st)) i) (\<lambda>p. Ok (None, (st\<lparr>CurrCollectionPath := Parent p\<rparr>))))"

definition item_type :: "u8 \<Rightarrow> u8" where
  "item_type b = (if item_tag b = 0x80 then 0 else if item_tag b = 0x90 then 1 else 2)"

text \<open>Account for the bits of one more item of the current report.\<close>

definition hid_reserve :: "u8 \<Rightarrow> HID_StateTable_t \<Rightarrow> hid \<Rightarrow> (u16 \<times> hid) result" where
  "hid_reserve ty s st =
     (case CurrReportIDInfo st of
        None \<Rightarrow> Fail Null_Deref
      | Some i \<Rightarrow>
          rbind (aget (ReportIDSizes (ParserData st)) i) (\<lambda>x.
          rbind (aget (ReportSizeBits x) (unat ty)) (\<lambda>off.
          rbind (aset (ReportSizeBits x) (unat ty) (off + ucast (BitSize (Attributes s)))) (\<lambda>bits.
          rbind (aset (ReportIDSizes (ParserData st)) i (x\<lparr>ReportSizeBits := bits\<rparr>)) (\<lambda>z.
          Ok (off, st\<lparr>ParserData := (ParserData st)\<lparr>ReportIDSizes := z,
             LargestReportSizeBits := max (LargestReportSizeBits (ParserData st)) (off + ucast (BitSize (Attributes s)))\<rparr>\<rparr>))))))"

definition hid_one_item :: "(HID_ReportItem_t \<Rightarrow> bool) \<Rightarrow> u8 \<Rightarrow> u32 \<Rightarrow> hid \<Rightarrow> hid_step" where
  "hid_one_item filt b v st =
     rbind (cell_get (StateTable st) (Some (CurrStateTable st))) (\<lambda>s.
     rbind (take_usage st) (\<lambda>(u, st).
     rbind (hid_reserve (item_type b) s st) (\<lambda>(off, st).
     let a = Attributes s;
         a = (case u of None \<Rightarrow> a | Some x \<Rightarrow> a\<lparr>AUsage := (AUsage a)\<lparr>Usage := x\<rparr>\<rparr>);
         item = \<lparr>BitOffset = off, ItemType = item_type b, ItemFlags = ucast v, IReportID = SReportID s,
                 CollectionPath = CurrCollectionPath st, IAttributes = a, Val = None, PreviousVal = None\<rparr>;
         k = unat (TotalReportItems (ParserData st)) in
     if k = HID_MAX_REPORTITEMS then Ok (Some HID_PARSE_InsufficientReportItems, st)
     else
       rbind (aset (ReportItems (ParserData st)) k item) (\<lambda>items.
       Ok (None, (st\<lparr>ParserData := (ParserData st)\<lparr>ReportItems := items,
         TotalReportItems := (if v AND 1 = 0 \<and> filt item then TotalReportItems (ParserData st) + 1
                              else TotalReportItems (ParserData st))\<rparr>\<rparr>))))))"

fun hid_items :: "(HID_ReportItem_t \<Rightarrow> bool) \<Rightarrow> u8 \<Rightarrow> u32 \<Rightarrow> nat \<Rightarrow> hid \<Rightarrow> hid_step" where
  "hid_items filt b v 0 st = Ok (None, st)"
| "hid_items filt b v (Suc n) st =
     rbind (hid_one_item filt b v st) (\<lambda>(c, st).
     if c \<noteq> None then Ok (c, st) else hid_items filt b v n st)"

definition hid_main_items :: "(HID_ReportItem_t \<Rightarrow> bool) \<Rightarrow> u8 \<Rightarrow> u32 \<Rightarrow> hid \<Rightarrow> hid_step" where
  "hid_main_items filt b v st =
     rbind (cell_get (StateTable st) (Some (CurrStateTable st))) (\<lambda>s.
     hid_items filt b v (unat (ReportCount s)) st)"

section \<open>The parser\<close>

definition hid_dispatch :: "(HID_ReportItem_t \<Rightarrow> bool) \<Rightarrow> u8 \<Rightarrow> u32 \<Rightarrow> hid \<Rightarrow> hid_step" where
  "hid_dispatch filt b v st =
     (let t = item_tag b in
      if t = 0xA4 then hid_push st
      else if t = 0xB4 then hid_pop st
      else if t = 0x04 then hid_usage_page b v st
      else if t = 0x14 then update_attributes (\<lambda>a. a\<lparr>Logical := (Logical a)\<lparr>Minimum := v\<rparr>\<rparr>) st
      else if t = 0x24 then update_attributes (\<lambda>a. a\<lparr>Logical := (Logical a)\<lparr>Maximum := v\<rparr>\<rparr>) st
      else if t = 0x34 then update_attributes (\<lambda>a. a\<lparr>Physical := (Physical a)\<lparr>Minimum := v\<rparr>\<rparr>) st
      else if t = 0x44 then update_attributes (\<lambda>a. a\<lparr>Physical := (Physical a)\<lparr>Maximum := v\<rparr>\<rparr>) st
      else if t = 0x54 then update_attributes (\<lambda>a. a\<lparr>AUnit := (AUnit a)\<lparr>Exponent := ucast v\<rparr>\<rparr>) st
      else if t = 0x64 then update_attributes (\<lambda>a. a\<lparr>AUnit := (AUnit a)\<lparr>UnitType := v\<rparr>\<rparr>) st
      else if t = 0x74 then update_attributes (\<lambda>a. a\<lparr>BitSize := ucast v\<rparr>) st
      else if t = 0x94 then update_state (\<lambda>s. s\<lparr>ReportCount := ucast v\<rparr>) st
      else if t = 0x84 then hid_report_id v st
      else if t = 0x08 then hid_usage v st
      else if t = 0x18 then Ok (None, (st\<lparr>UsageMinMax := (UsageMinMax st)\<lparr>Minimum := v\<rparr>\<rparr>))
      else if t = 0x28 then Ok (None, (st\<lparr>UsageMinMax := (UsageMinMax st)\<lparr>Maximum := v\<rparr>\<rparr>))
      else if t = 0xA0 then hid_collection v st
      else if t = 0xC0 then hid_end_collection st
      else if t = 0x80 \<or> t = 0x90 \<or> t = 0xB0 then hid_main_items filt b v st
      else Ok (None, st))"

text \<open>A main item ends the scope of the usages before it.\<close>

definition hid_end_item :: "u8 \<Rightarrow> hid \<Rightarrow> hid" where
  "hid_end_item b st =
     (if b AND 0x0C = 0 then st\<lparr>UsageMinMax := zero_minmax, UsageListSize := 0\<rparr> else st)"

fun hid_loop :: "(HID_ReportItem_t \<Rightarrow> bool) \<Rightarrow> nat \<Rightarrow> u8 list \<Rightarrow> nat \<Rightarrow> u16 \<Rightarrow> hid \<Rightarrow> (hid_code \<times> hid) result" where
  "hid_loop filt 0 d pos ReportSize st = Fail Diverge"
| "hid_loop filt (Suc n) d pos ReportSize st =
     (if ReportSize \<noteq> 0 then
        rbind (aget d pos) (\<lambda>b.
        rbind (item_data b d (Suc pos)) (\<lambda>v.
        rbind (hid_dispatch filt b v st) (\<lambda>(r, st).
        case r of
          Some c \<Rightarrow> Ok (c, st)
        | None \<Rightarrow>
            hid_loop filt n d (Suc pos + item_size b) (ReportSize - 1 - of_nat (item_size b)) (hid_end_item b st))))
      else
        Ok (if TotalReportItems (ParserData st) = 0 then HID_PARSE_NoUnfilteredReportItems else HID_PARSE_Successful, st))"

definition USB_ProcessHIDReport :: "(HID_ReportItem_t \<Rightarrow> bool) \<Rightarrow> u8 list \<Rightarrow> u16 \<Rightarrow> (hid_code \<times> HID_ReportInfo_t) result" where
  "USB_ProcessHIDReport filt ReportData ReportSize =
     rbind (hid_loop filt (Suc (length ReportData)) ReportData 0 ReportSize hid_start) (\<lambda>(c, st). Ok (c, ParserData st))"

section \<open>Values in reports\<close>

definition USB_GetHIDReportItemInfo :: "u8 list \<Rightarrow> HID_ReportItem_t option \<Rightarrow> (bool \<times> HID_ReportItem_t option) result" where
  "USB_GetHIDReportItemInfo ReportData item =
     (case item of
        None \<Rightarrow> Ok (False, None)
      | Some it \<Rightarrow>
          rbind (if IReportID it \<noteq> 0
                 then rbind (aget ReportData 0) (\<lambda>r. Ok (IReportID it = r, drop 1 ReportData))
                 else Ok (True, ReportData)) (\<lambda>(same, d).
          if \<not> same then Ok (False, Some it)
          else
            rbind (rfold (\<lambda>k (v, cur :: u16, m :: u32).
                     rbind (aget d (unat cur div 8)) (\<lambda>x.
                     Ok (if x AND push_bit (unat cur mod 8) 1 \<noteq> 0 then v OR m else v, cur + 1, push_bit 1 m)))
                     [0..<unat (BitSize (IAttributes it))] (0, BitOffset it, 1)) (\<lambda>(v, cur, m).
            Ok (True, Some (it\<lparr>PreviousVal := Val it, Val := Some v\<rparr>)))))"

definition USB_SetHIDReportItemInfo :: "u8 list \<Rightarrow> HID_ReportItem_t option \<Rightarrow> (u8 list \<times> HID_ReportItem_t option) result" where
  "USB_SetHIDReportItemInfo ReportData item =
     (case item of
        None \<Rightarrow> Ok (ReportData, None)
      | Some it \<Rightarrow>
          rbind (if IReportID it \<noteq> 0 then aset ReportData 0 (IReportID it) else Ok ReportData) (\<lambda>d0.
          let hdr = (if IReportID it \<noteq> 0 then 1 else 0) in
          case Val it of
            None \<Rightarrow> Fail Uninitialised
          | Some v \<Rightarrow>
              rbind (rfold (\<lambda>k (d, cur :: u16, m :: u32).
                       rbind (if v AND push_bit (unat cur mod 8) 1 \<noteq> 0
                              then rbind (aget d (unat cur div 8)) (\<lambda>x. aset d (unat cur div 8) (x OR ucast m))
                              else Ok d) (\<lambda>d.
                       Ok (d, cur + 1, push_bit 1 m)))
                       [0..<unat (BitSize (IAttributes it))] (drop hdr d0, BitOffset it, 1)) (\<lambda>(d, cur, m).
              Ok (take hdr d0 @ d, Some (it\<lparr>PreviousVal := Val it\<rparr>)))))"

fun report_size_loop :: "HID_ReportSizeInfo_t list \<Rightarrow> u8 \<Rightarrow> u8 \<Rightarrow> nat list \<Rightarrow> u16 result" where
  "report_size_loop sizes r ty [] = Ok 0"
| "report_size_loop sizes r ty (i # is) =
     rbind (aget sizes i) (\<lambda>x.
     rbind (aget (ReportSizeBits x) (unat ty)) (\<lambda>b.
     if RReportID x = r then Ok (b div 8 + (if b mod 8 \<noteq> 0 then 1 else 0)) else report_size_loop sizes r ty is))"

definition USB_GetHIDReportSize :: "HID_ReportInfo_t \<Rightarrow> u8 \<Rightarrow> u8 \<Rightarrow> u16 result" where
  "USB_GetHIDReportSize p ReportID ReportType =
     report_size_loop (ReportIDSizes p) ReportID ReportType [0..<HID_MAX_REPORT_IDS]"

end
