(* ===== verification/Hid_Correct.thy ===== *)
theory Hid_Correct
  imports Hid_Parser
begin

text \<open>
  Properties of the report descriptor parser: an invariant of its state that every item keeps, from
  which it follows that a complete descriptor without \<^verbatim>\<open>PUSH\<close> is parsed without a fault; that \<^verbatim>\<open>PUSH\<close>
  writes outside the stack of states; and that storing a value in a report forgets all but its low byte.
\<close>

section \<open>The invariant\<close>

text \<open>\<open>returns r Q\<close>: the run returns a value that satisfies \<open>Q\<close>.\<close>

definition returns :: "'a result \<Rightarrow> ('a \<Rightarrow> bool) \<Rightarrow> bool" where
  "returns r Q \<longleftrightarrow> (\<exists>x. r = Ok x \<and> Q x)"

lemma returns_simps [simp]:
  "returns (Ok x) Q = Q x" "returns (Fail e) Q = False"
  "returns (rbind r f) Q = returns r (\<lambda>x. returns (f x) Q)"
  by (cases r; simp add: returns_def)+

lemma returns_mono: "returns r P \<Longrightarrow> (\<And>x. P x \<Longrightarrow> Q x) \<Longrightarrow> returns r Q"
  by (auto simp: returns_def)

definition info_ok :: "HID_ReportInfo_t \<Rightarrow> bool" where
  "info_ok p \<longleftrightarrow>
     length (ReportItems p) = 20 \<and> length (CollectionPaths p) = 10 \<and> length (ReportIDSizes p) = 10 \<and>
     (\<forall>c \<in> set (CollectionPaths p). \<forall>j. Parent c = Some j \<longrightarrow> j < 10) \<and>
     (\<forall>x \<in> set (ReportIDSizes p). length (ReportSizeBits x) = 3) \<and>
     unat (TotalReportItems p) \<le> 20 \<and> unat (TotalDeviceReports p) \<le> 10"

definition hid_ok :: "hid \<Rightarrow> bool" where
  "hid_ok st \<longleftrightarrow>
     info_ok (ParserData st) \<and> CurrStateTable st = 0 \<and> length (StateTable st) = 2 \<and> StateTable st ! 0 \<noteq> None \<and>
     (\<forall>j. CurrCollectionPath st = Some j \<longrightarrow> j < 10) \<and> (\<exists>i < 10. CurrReportIDInfo st = Some i) \<and>
     length (UsageList st) = 8 \<and> unat (UsageListSize st) \<le> 8"

lemma hid_start_ok: "hid_ok hid_start"
  by (simp add: hid_ok_def info_ok_def hid_start_def hid_sizes)

lemma hid_state: "hid_ok st \<Longrightarrow> returns (cell_get (StateTable st) (Some (CurrStateTable st))) (\<lambda>s. True)"
  by (auto simp: hid_ok_def cell_get_def)

lemma unat_Suc_u8: "unat (x :: u8) < 255 \<Longrightarrow> unat (x + 1) = Suc (unat x)"
  unfolding unat_word_ariths(1) by simp

section \<open>Every item keeps it\<close>

named_theorems hid_steps \<open>steps of the parser that return and keep the invariant\<close>

lemma update_state_ok [hid_steps]: "hid_ok st \<Longrightarrow> returns (update_state f st) (\<lambda>(c, st). c = None \<and> hid_ok st)"
  by (auto simp: update_state_def hid_ok_def cell_get_def cell_set_def)

lemma update_attributes_ok [hid_steps]: "hid_ok st \<Longrightarrow> returns (update_attributes f st) (\<lambda>(c, st). hid_ok st)"
  unfolding update_attributes_def by (rule returns_mono [OF update_state_ok]) auto

lemma pop_ok [hid_steps]: "hid_ok st \<Longrightarrow> returns (hid_pop st) (\<lambda>(c, st). hid_ok st)"
  by (auto simp: hid_pop_def hid_ok_def)

lemma find_report_id_ok:
  "\<forall>i \<in> set is. i < length sizes \<Longrightarrow> returns (find_report_id sizes r is) (\<lambda>f. \<forall>i. f = Some i \<longrightarrow> i < length sizes)"
  by (induction "is") auto

lemma select_report_ok: "hid_ok st \<Longrightarrow> returns (hid_select_report r st) (\<lambda>(c, st). hid_ok st)"
proof -
  assume ok: "hid_ok st"
  let ?n = "unat (TotalDeviceReports (ParserData st))"
  have n: "?n \<le> 10" "length (ReportIDSizes (ParserData st)) = 10" using ok by (simp_all add: hid_ok_def info_ok_def)
  have "returns (find_report_id (ReportIDSizes (ParserData st)) r [0..<?n]) (\<lambda>f. \<forall>i. f = Some i \<longrightarrow> i < 10)"
    using find_report_id_ok [of "[0..<?n]" "ReportIDSizes (ParserData st)" r] n by simp
  moreover have "unat (TotalDeviceReports (ParserData st) + 1) = Suc ?n" using n(1) by (simp add: unat_Suc_u8)
  ultimately show ?thesis using ok n
    by (auto simp: hid_select_report_def hid_ok_def info_ok_def hid_sizes Let_def dest: set_update_subset_insert [THEN subsetD]
        elim!: returns_mono)
qed

lemma assign_report_id_ok:
  assumes "hid_ok st"
  shows "returns (case CurrReportIDInfo st of
          None \<Rightarrow> Fail Null_Deref
        | Some i \<Rightarrow>
            rbind (aget (ReportIDSizes (ParserData st)) i) (\<lambda>x.
            rbind (aset (ReportIDSizes (ParserData st)) i (x\<lparr>RReportID := r\<rparr>)) (\<lambda>z.
            Ok (None, (st\<lparr>ParserData := (ParserData st)\<lparr>UsingReportIDs := True, ReportIDSizes := z\<rparr>\<rparr>)))))
    (\<lambda>(c, st). hid_ok st)"
  using assms by (auto simp: hid_ok_def info_ok_def dest!: set_update_subset_insert [THEN subsetD])

lemma report_id_ok [hid_steps]: "hid_ok st \<Longrightarrow> returns (hid_report_id v st) (\<lambda>(c, st). hid_ok st)"
  unfolding hid_report_id_def returns_simps(3)
  by (rule returns_mono [OF update_state_ok])
    (auto intro!: returns_mono [OF select_report_ok] assign_report_id_ok split: if_splits)

lemma usage_ok [hid_steps]: "hid_ok st \<Longrightarrow> returns (hid_usage v st) (\<lambda>(c, st). hid_ok st)"
  using unat_Suc_u8 [of "UsageListSize st"] by (auto simp: hid_usage_def hid_ok_def hid_sizes)

lemma shift_ok:
  "n \<le> length l \<Longrightarrow> returns (rfold (\<lambda>i l. rbind (aget l i) (\<lambda>x. aset l (i - 1) x)) [1..<n] l) (\<lambda>l'. length l' = length l)"
proof (induction n)
  case (Suc n)
  then show ?case
    by (cases n) (auto simp: rfold_append elim!: returns_mono)
qed simp

lemma take_usage_ok:
  assumes "hid_ok st"
  shows "returns (take_usage st) (\<lambda>(u, st'). hid_ok st' \<and> CurrCollectionPath st' = CurrCollectionPath st)"
proof -
  have l: "length (UsageList st) = 8" "unat (UsageListSize st) \<le> 8" using assms by (simp_all add: hid_ok_def)
  have "unat (UsageListSize st - 1) \<le> 8" if "UsageListSize st \<noteq> 0"
    using that l(2) by (simp add: unat_minus_one)
  then show ?thesis
    using assms l shift_ok [of "unat (UsageListSize st)" "UsageList st"]
    by (auto simp: take_usage_def hid_ok_def elim!: returns_mono)
qed

lemma free_collection_ok:
  "i + k \<le> length paths \<Longrightarrow> returns (free_collection paths i k) (\<lambda>f. \<forall>j. f = Some j \<longrightarrow> j < length paths)"
  by (induction k arbitrary: i) auto

lemma open_path_ok:
  assumes "hid_ok st"
  shows "returns (hid_open_path st) (\<lambda>(c, st). hid_ok st \<and> (c = None \<longrightarrow> CurrCollectionPath st \<noteq> None))"
proof -
  have "returns (free_collection (CollectionPaths (ParserData st)) 1 9) (\<lambda>f. \<forall>j. f = Some j \<longrightarrow> j < 10)"
    using free_collection_ok [of 1 9 "CollectionPaths (ParserData st)"] assms by (simp add: hid_ok_def info_ok_def)
  then show ?thesis using assms
    by (auto simp: hid_open_path_def hid_ok_def info_ok_def hid_sizes dest!: set_update_subset_insert [THEN subsetD]
        split: option.splits elim!: returns_mono)
qed

lemma set_path_ok:
  assumes "hid_ok st" and "CurrCollectionPath st \<noteq> None"
  shows "returns (case CurrCollectionPath st of
       None \<Rightarrow> Fail Null_Deref
     | Some i \<Rightarrow>
         rbind (aget (CollectionPaths (ParserData st)) i) (\<lambda>p.
         rbind (aset (CollectionPaths (ParserData st)) i (p\<lparr>CType := ty, CUsage := us p\<rparr>)) (\<lambda>ps.
         Ok (None, (st\<lparr>ParserData := (ParserData st)\<lparr>CollectionPaths := ps\<rparr>\<rparr>)))))
    (\<lambda>(c, st). hid_ok st)"
  using assms by (auto simp: hid_ok_def info_ok_def dest!: set_update_subset_insert [THEN subsetD]) (metis nth_mem)

lemma collection_ok [hid_steps]: "hid_ok st \<Longrightarrow> returns (hid_collection v st) (\<lambda>(c, st). hid_ok st)"
  unfolding hid_collection_def returns_simps(3) Let_def
  by (rule returns_mono [OF open_path_ok])
    (auto split: if_splits intro!: returns_mono [OF hid_state] returns_mono [OF take_usage_ok] set_path_ok)

lemma end_collection_ok [hid_steps]: "hid_ok st \<Longrightarrow> returns (hid_end_collection st) (\<lambda>(c, st). hid_ok st)"
  by (auto simp: hid_end_collection_def hid_ok_def info_ok_def split: option.splits)

lemma reserve_ok:
  assumes "hid_ok st" and "unat ty < 3"
  shows "returns (hid_reserve ty s st) (\<lambda>(off, st). hid_ok st)"
  using assms by (auto simp: hid_reserve_def hid_ok_def info_ok_def dest!: set_update_subset_insert [THEN subsetD])

lemma append_item_ok:
  assumes "hid_ok st"
  shows "returns (let k = unat (TotalReportItems (ParserData st)) in
     if k = HID_MAX_REPORTITEMS then Ok (Some HID_PARSE_InsufficientReportItems, st)
     else
       rbind (aset (ReportItems (ParserData st)) k item) (\<lambda>items.
       Ok (None, (st\<lparr>ParserData := (ParserData st)\<lparr>ReportItems := items,
         TotalReportItems := (if keep then TotalReportItems (ParserData st) + 1 else TotalReportItems (ParserData st))\<rparr>\<rparr>))))
    (\<lambda>(c, st). hid_ok st)"
  using assms unat_Suc_u8 [of "TotalReportItems (ParserData st)"]
  by (auto simp: Let_def hid_ok_def info_ok_def hid_sizes)

lemma one_item_ok:
  assumes "hid_ok st"
  shows "returns (hid_one_item filt b v st) (\<lambda>(c, st). hid_ok st)"
proof -
  have ty: "unat (item_type b) < 3" by (simp add: item_type_def)
  show ?thesis
    unfolding hid_one_item_def
    apply (subst returns_simps(3), rule returns_mono [OF hid_state [OF assms]])
    apply (subst returns_simps(3), rule returns_mono [OF take_usage_ok [OF assms]], clarify)
    apply (subst returns_simps(3), rule returns_mono [OF reserve_ok [OF _ ty]], assumption, clarify)
    apply (unfold Let_def, rule append_item_ok [unfolded Let_def], assumption)
    done
qed

lemma items_ok: "hid_ok st \<Longrightarrow> returns (hid_items filt b v n st) (\<lambda>(c, st). hid_ok st)"
  by (induction n arbitrary: st) (auto intro!: returns_mono [OF one_item_ok])

lemma main_items_ok [hid_steps]: "hid_ok st \<Longrightarrow> returns (hid_main_items filt b v st) (\<lambda>(c, st). hid_ok st)"
  unfolding hid_main_items_def by (auto intro!: returns_mono [OF hid_state] items_ok)

lemma dispatch_ok:
  assumes "hid_ok st" and "item_tag b \<noteq> 0xA4"
  shows "returns (hid_dispatch filt b v st) (\<lambda>(c, st). hid_ok st)"
proof -
  have "returns (update_state f st) (\<lambda>(c, st). hid_ok st)" for f
    by (rule returns_mono [OF update_state_ok [OF assms(1)]]) auto
  moreover have "returns (hid_usage_page b v st) (\<lambda>(c, st). hid_ok st)"
    unfolding hid_usage_page_def by (rule update_attributes_ok [OF assms(1)])
  moreover have "hid_ok (st\<lparr>UsageMinMax := m\<rparr>)" for m using assms(1) by (simp add: hid_ok_def)
  ultimately show ?thesis using assms hid_steps [OF assms(1)] unfolding hid_dispatch_def Let_def by simp
qed

lemma end_item_ok: "hid_ok st \<Longrightarrow> hid_ok (hid_end_item b st)"
  by (simp add: hid_end_item_def hid_ok_def)

section \<open>Complete descriptors\<close>

text \<open>A sequence of items, each with all of its data, none of them \<^verbatim>\<open>PUSH\<close>.\<close>

function complete :: "u8 list \<Rightarrow> bool" where
  "complete [] \<longleftrightarrow> True"
| "complete (b # bs) \<longleftrightarrow> item_tag b \<noteq> 0xA4 \<and> item_size b \<le> length bs \<and> complete (drop (item_size b) bs)"
  by pat_completeness auto
termination
  by (relation "measure length") auto

lemma item_data_ok: "pos + item_size b \<le> length d \<Longrightarrow> returns (item_data b d pos) (\<lambda>v. True)"
  by (auto simp: item_data_def item_size_def Let_def split: if_splits)

lemma hid_loop_ok:
  "complete ds \<Longrightarrow> length ds < n \<Longrightarrow> length ds < 65536 \<Longrightarrow> hid_ok st \<Longrightarrow>
   returns (hid_loop filt n (pre @ ds) (length pre) (of_nat (length ds)) st) (\<lambda>(c, st). hid_ok st)"
proof (induction n arbitrary: ds pre st)
  case (Suc n)
  show ?case
  proof (cases ds)
    case (Cons b bs)
    let ?k = "item_size b"
    have b: "item_tag b \<noteq> 0xA4" "?k \<le> length bs" "complete (drop ?k bs)" using Suc.prems(1) Cons by simp_all
    have ne: "(of_nat (length ds) :: u16) \<noteq> 0" using Suc.prems(3) Cons unat_of_nat_u16 [of "length ds"] by auto
    have sz: "(of_nat (length ds) :: u16) - 1 - of_nat ?k = of_nat (length (drop ?k bs))"
      using b(2) Cons by (simp add: of_nat_diff)
    have rest: "returns (hid_loop filt n (pre @ ds) (Suc (length pre) + ?k) (of_nat (length ds) - 1 - of_nat ?k) st')
        (\<lambda>(c, st). hid_ok st)" if "hid_ok st'" for st'
    proof -
      have "returns (hid_loop filt n ((pre @ b # take ?k bs) @ drop ?k bs) (length (pre @ b # take ?k bs))
          (of_nat (length (drop ?k bs))) st') (\<lambda>(c, st). hid_ok st)"
        by (rule Suc.IH) (use b Suc.prems Cons that in simp_all)
      then show ?thesis unfolding sz using Cons b(2) by simp
    qed
    have "aget (pre @ ds) (length pre) = Ok b" using Cons by (simp add: aget_def)
    moreover have "returns (item_data b (pre @ ds) (Suc (length pre))) (\<lambda>v. True)"
      using b(2) Cons by (intro item_data_ok) simp
    ultimately show ?thesis
      using ne by (auto simp del: add_Suc intro!: returns_mono [OF dispatch_ok [OF Suc.prems(4) b(1)]] rest end_item_ok
          elim!: returns_mono split: option.splits)
  qed (use Suc.prems in simp)
qed simp

section \<open>Properties\<close>

text \<open>C28: whatever the items say, a complete descriptor without \<^verbatim>\<open>PUSH\<close> is parsed to a result code: no item
  reads or writes outside the arrays of the parser, follows a null pointer, or loops.\<close>

theorem hid_report_parses:
  assumes "complete d" and "length d < 65536"
  shows "\<exists>c p. USB_ProcessHIDReport filt d (of_nat (length d)) = Ok (c, p) \<and> info_ok p"
proof -
  have "returns (hid_loop filt (Suc (length d)) ([] @ d) (length ([] :: u8 list)) (of_nat (length d)) hid_start) (\<lambda>(c, st). hid_ok st)"
    by (rule hid_loop_ok) (use assms hid_start_ok in simp_all)
  then have "returns (USB_ProcessHIDReport filt d (of_nat (length d))) (\<lambda>(c, p). info_ok p)"
    unfolding USB_ProcessHIDReport_def returns_simps(3) by (auto simp: hid_ok_def elim!: returns_mono)
  then show ?thesis by (auto simp: returns_def)
qed

theorem hid_report_parses_witness:
  "\<exists>c p. USB_ProcessHIDReport (\<lambda>_. True) [0x05, 0x01, 0x75, 0x08, 0x95, 0x03, 0x81, 0x02] 8 = Ok (c, p) \<and> info_ok p"
  using hid_report_parses [of "[0x05, 0x01, 0x75, 0x08, 0x95, 0x03, 0x81, 0x02]" "\<lambda>_. True"]
  by (simp add: item_tag_def item_size_def)

text \<open>A \<^verbatim>\<open>PUSH\<close> on the empty stack of states copies a report item's worth of bytes (42) into a place of 28
  bytes at the end of the stack.\<close>

theorem hid_push_overruns:
  assumes "hid_ok st" and "item_tag b = 0xA4"
  shows "hid_dispatch filt b v st = Fail Out_Of_Bounds"
  using assms by (simp add: hid_dispatch_def hid_push_def hid_ok_def hid_sizes hid_sizeof)

theorem hid_push_overruns_witness:
  "hid_dispatch (\<lambda>_. True) 0xA4 0 hid_start = Fail Out_Of_Bounds"
  by (rule hid_push_overruns) (simp_all add: hid_start_ok item_tag_def)

text \<open>Storing a value in a report looks only at its low byte: a value whose low byte is 0 leaves the report as
  it was, although reading the item back takes all its bits from the report.\<close>

theorem hid_set_low_byte:
  assumes "Val it = Some v" and "v AND 0xFF = 0" and "IReportID it = 0"
  shows "USB_SetHIDReportItemInfo d (Some it) = Ok (d, Some (it\<lparr>PreviousVal := Val it\<rparr>))"
proof -
  have z: "v AND push_bit (n mod 8) 1 = 0" for n
  proof (rule bit_word_eqI)
    fix k
    have "\<not> bit v k" if "k < 8"
    proof -
      have "\<not> bit (v AND 0xFF) k" using assms(2) by simp
      moreover have "(0xFF :: u32) = mask 8" by (simp add: mask_eq_exp_minus_1)
      ultimately show ?thesis using that by (simp only: bit_and_iff bit_mask_iff) simp
    qed
    then show "bit (v AND push_bit (n mod 8) 1) k = bit (0 :: u32) k"
      by (auto simp: bit_and_iff bit_exp_iff)
  qed
  have "rfold (\<lambda>k (d, cur :: u16, m :: u32).
            rbind (if v AND push_bit (unat cur mod 8) 1 \<noteq> 0
                   then rbind (aget d (unat cur div 8)) (\<lambda>x. aset d (unat cur div 8) (x OR ucast m)) else Ok d) (\<lambda>d.
            Ok (d, cur + 1, push_bit 1 m))) is (d, c, m0) = Ok (d, c + of_nat (length is), push_bit (length is) m0)"
    for "is" :: "nat list" and c m0
    by (induction "is" arbitrary: c m0) (simp_all add: z [unfolded push_bit_of_1] push_bit_Suc add.assoc)
  then show ?thesis using assms(1,3) by (simp add: USB_SetHIDReportItemInfo_def Let_def)
qed

theorem hid_set_low_byte_witness:
  "USB_SetHIDReportItemInfo [0, 0] (Some (zero_item\<lparr>Val := Some 0x100, IAttributes := zero_attributes\<lparr>BitSize := 16\<rparr>\<rparr>))
     = Ok ([0, 0], Some (zero_item\<lparr>Val := Some 0x100, PreviousVal := Some 0x100, IAttributes := zero_attributes\<lparr>BitSize := 16\<rparr>\<rparr>))"
  using hid_set_low_byte [of "zero_item\<lparr>Val := Some 0x100, IAttributes := zero_attributes\<lparr>BitSize := 16\<rparr>\<rparr>" "0x100" "[0, 0]"]
  by simp

end
