(* ===== verification/Usb_Machine.thy ===== *)
theory Usb_Machine
  imports Avr_Machine
begin

text \<open>
  The ground of the USB stack (\<^verbatim>\<open>lufa/LUFA/Drivers/USB/Core\<close>, in the configuration of
  \<^verbatim>\<open>virtualserial/Config\<close>: an ATmega32U4 in device mode, with the control endpoint served by an
  interrupt): programs on a state that holds the outside world and the library's globals, the
  register-level inline functions of \<^verbatim>\<open>Endpoint_AVR8.h\<close>, \<^verbatim>\<open>Device_AVR8.h\<close>, \<^verbatim>\<open>USBController_AVR8.h\<close>
  and \<^verbatim>\<open>USBInterrupt_AVR8.h\<close>, in the order of those headers.
  The hardware stays a parameter; \<open>usb_avr\<close> adds to it what only this stack uses.
\<close>

section \<open>Programs\<close>

text \<open>A program runs on a state and returns a value and the next state, or a fault.\<close>

type_synonym ('s, 'a) prog = "'s \<Rightarrow> ('a \<times> 's) result"

definition ret :: "'a \<Rightarrow> ('s, 'a) prog" where
  "ret x s = Ok (x, s)"

definition pbind :: "('s, 'a) prog \<Rightarrow> ('a \<Rightarrow> ('s, 'b) prog) \<Rightarrow> ('s, 'b) prog" where
  "pbind m f s = (case m s of Fail e \<Rightarrow> Fail e | Ok (x, t) \<Rightarrow> f x t)"

definition pfail :: "fault \<Rightarrow> ('s, 'a) prog" where
  "pfail e s = Fail e"

definition plift :: "'a result \<Rightarrow> ('s, 'a) prog" where
  "plift r s = (case r of Fail e \<Rightarrow> Fail e | Ok x \<Rightarrow> Ok (x, s))"

definition pget :: "('s \<Rightarrow> 'a) \<Rightarrow> ('s, 'a) prog" where
  "pget f s = Ok (f s, s)"

definition pmod :: "('s \<Rightarrow> 's) \<Rightarrow> ('s, unit) prog" where
  "pmod f s = Ok ((), f s)"

primrec pseq :: "('s, unit) prog list \<Rightarrow> ('s, unit) prog" where
  "pseq [] = ret ()"
| "pseq (m # ms) = pbind m (\<lambda>_. pseq ms)"

definition pwhen :: "bool \<Rightarrow> ('s, unit) prog \<Rightarrow> ('s, unit) prog" where
  "pwhen b m = (if b then m else ret ())"

definition pif :: "('s, bool) prog \<Rightarrow> ('s, 'a) prog \<Rightarrow> ('s, 'a) prog \<Rightarrow> ('s, 'a) prog" where
  "pif c m k = pbind c (\<lambda>b. if b then m else k)"

definition pand :: "('s, bool) prog \<Rightarrow> ('s, bool) prog \<Rightarrow> ('s, bool) prog" where
  "pand a b = pif a b (ret False)" \<comment> \<open>\<^verbatim>\<open>a && b\<close>\<close>

text \<open>
  \<open>wait_for n c k\<close> is \<^verbatim>\<open>while (!c) k\<close>, whose body may return from the function with a value;
  \<open>n\<close> bounds the rounds.
\<close>

fun wait_for :: "nat \<Rightarrow> ('s, bool) prog \<Rightarrow> ('s, 'e option) prog \<Rightarrow> ('s, 'e option) prog" where
  "wait_for 0 c k = pfail Diverge"
| "wait_for (Suc n) c k =
     pif c (ret None) (pbind k (\<lambda>e. case e of Some x \<Rightarrow> ret (Some x) | None \<Rightarrow> wait_for n c k))"

named_theorems prog_simps \<open>runs of program combinators\<close>

lemmas prog_defs [prog_simps] =
  ret_def pbind_def pfail_def plift_def pget_def pmod_def pwhen_def pif_def pand_def

section \<open>State\<close>

datatype device_state =
    DEVICE_STATE_Unattached
  | DEVICE_STATE_Powered
  | DEVICE_STATE_Default
  | DEVICE_STATE_Addressed
  | DEVICE_STATE_Configured
  | DEVICE_STATE_Suspended

record USB_Request_Header =
  bmRequestType :: u8
  bRequest :: u8
  wValue :: u16
  wIndex :: u16
  wLength :: u16

record 'w usb =
  world :: 'w
  USB_IsInitialized :: bool
  USB_DeviceState :: device_state
  USB_ControlRequest :: USB_Request_Header
  USB_Device_ConfigurationNumber :: u8
  USB_Device_CurrentlySelfPowered :: bool
  USB_Device_RemoteWakeupEnabled :: bool

text \<open>
  What the stack uses of the outside beyond the registers: the signature row, whether one of the two
  USB interrupts is taken at a point where the code waits, and the start-up calls into the C library.
\<close>

record 'w usb_avr = "'w avr" +
  signature_byte :: "u8 \<Rightarrow> 'w \<Rightarrow> u8 \<times> 'w"       \<comment> \<open>\<^verbatim>\<open>boot_signature_byte_get\<close>\<close>
  gen_pending :: "'w \<Rightarrow> bool \<times> 'w"              \<comment> \<open>\<^verbatim>\<open>USB_GEN_vect\<close> is taken now\<close>
  com_pending :: "'w \<Rightarrow> bool \<times> 'w"              \<comment> \<open>\<^verbatim>\<open>USB_COM_vect\<close> is taken now\<close>
  wdt_disable :: "'w \<Rightarrow> 'w"
  clock_prescale_set :: "u8 \<Rightarrow> 'w \<Rightarrow> 'w"

definition reg_rd :: "'w usb_avr \<Rightarrow> reg \<Rightarrow> (('w, 'z) usb_scheme, u8) prog" where
  "reg_rd E r s = (case rd E r (world s) of (v, w) \<Rightarrow> Ok (v, s\<lparr>world := w\<rparr>))"

definition reg_wr :: "'w usb_avr \<Rightarrow> reg \<Rightarrow> u8 \<Rightarrow> (('w, 'z) usb_scheme, unit) prog" where
  "reg_wr E r v s = Ok ((), s\<lparr>world := wr E r v (world s)\<rparr>)"

definition reg_or :: "'w usb_avr \<Rightarrow> reg \<Rightarrow> u8 \<Rightarrow> (('w, 'z) usb_scheme, unit) prog" where
  "reg_or E r m = pbind (reg_rd E r) (\<lambda>v. reg_wr E r (v OR m))" \<comment> \<open>\<^verbatim>\<open>REG |= m\<close>\<close>

definition reg_and :: "'w usb_avr \<Rightarrow> reg \<Rightarrow> u8 \<Rightarrow> (('w, 'z) usb_scheme, unit) prog" where
  "reg_and E r m = pbind (reg_rd E r) (\<lambda>v. reg_wr E r (v AND m))" \<comment> \<open>\<^verbatim>\<open>REG &= m\<close>\<close>

definition reg_test :: "'w usb_avr \<Rightarrow> reg \<Rightarrow> u8 \<Rightarrow> (('w, 'z) usb_scheme, bool) prog" where
  "reg_test E r m = pbind (reg_rd E r) (\<lambda>v. ret (v AND m \<noteq> 0))" \<comment> \<open>\<^verbatim>\<open>(REG & m)\<close> as a condition\<close>

definition outside :: "('w \<Rightarrow> 'a \<times> 'w) \<Rightarrow> (('w, 'z) usb_scheme, 'a) prog" where
  "outside f s = (case f (world s) of (x, w) \<Rightarrow> Ok (x, s\<lparr>world := w\<rparr>))"

section \<open>Register bits of the ATmega32U4\<close>

definition USBE :: u8 where "USBE = bv 7"
definition FRZCLK :: u8 where "FRZCLK = bv 5"
definition OTGPADE :: u8 where "OTGPADE = bv 4"
definition VBUSTE :: u8 where "VBUSTE = bv 0"
definition UVREGE :: u8 where "UVREGE = bv 0"
definition VBUS :: u8 where "VBUS = bv 0"
definition VBUSTI :: u8 where "VBUSTI = bv 0"
definition PINDIV :: u8 where "PINDIV = bv 4"
definition PLLE :: u8 where "PLLE = bv 1"
definition PLOCK :: u8 where "PLOCK = bv 0"
definition PDIV2 :: u8 where "PDIV2 = bv 2"
definition LSM :: u8 where "LSM = bv 2"
definition RMWKUP :: u8 where "RMWKUP = bv 1"
definition DETACH :: u8 where "DETACH = bv 0"
definition WAKEUPI :: u8 where "WAKEUPI = bv 4"
definition EORSTI :: u8 where "EORSTI = bv 3"
definition SOFI :: u8 where "SOFI = bv 2"
definition SUSPI :: u8 where "SUSPI = bv 0"
definition WAKEUPE :: u8 where "WAKEUPE = bv 4"
definition EORSTE :: u8 where "EORSTE = bv 3"
definition SOFE :: u8 where "SOFE = bv 2"
definition SUSPE :: u8 where "SUSPE = bv 0"
definition ADDEN :: u8 where "ADDEN = bv 7"
definition FIFOCON :: u8 where "FIFOCON = bv 7"
definition RWAL :: u8 where "RWAL = bv 5"
definition RXSTPI :: u8 where "RXSTPI = bv 3"
definition RXOUTI :: u8 where "RXOUTI = bv 2"
definition TXINI :: u8 where "TXINI = bv 0"
definition RXSTPE :: u8 where "RXSTPE = bv 3"
definition STALLRQ :: u8 where "STALLRQ = bv 5"
definition STALLRQC :: u8 where "STALLRQC = bv 4"
definition RSTDT :: u8 where "RSTDT = bv 3"
definition EPEN :: u8 where "EPEN = bv 0"
definition EPDIR :: u8 where "EPDIR = bv 0"
definition EPBK0 :: u8 where "EPBK0 = bv 2"
definition ALLOC :: u8 where "ALLOC = bv 1"
definition CFGOK :: u8 where "CFGOK = bv 7"

lemmas usb_bits = bv_def USBE_def FRZCLK_def OTGPADE_def VBUSTE_def UVREGE_def VBUS_def VBUSTI_def PINDIV_def
  PLLE_def PLOCK_def PDIV2_def LSM_def RMWKUP_def DETACH_def WAKEUPI_def EORSTI_def SOFI_def SUSPI_def
  WAKEUPE_def EORSTE_def SOFE_def SUSPE_def ADDEN_def FIFOCON_def RWAL_def RXSTPI_def RXOUTI_def TXINI_def
  RXSTPE_def STALLRQ_def STALLRQC_def RSTDT_def EPEN_def EPDIR_def EPBK0_def ALLOC_def CFGOK_def

section \<open>Endpoint primitives\<close>

definition ENDPOINT_DIR_IN :: u8 where "ENDPOINT_DIR_IN = 0x80"
definition ENDPOINT_DIR_OUT :: u8 where "ENDPOINT_DIR_OUT = 0x00"
definition EP_TYPE_CONTROL :: u8 where "EP_TYPE_CONTROL = 0x00"
definition EP_TYPE_BULK :: u8 where "EP_TYPE_BULK = 0x02"
definition EP_TYPE_INTERRUPT :: u8 where "EP_TYPE_INTERRUPT = 0x03"
definition ENDPOINT_EPNUM_MASK :: u8 where "ENDPOINT_EPNUM_MASK = 0x0F"
definition ENDPOINT_CONTROLEP :: u8 where "ENDPOINT_CONTROLEP = 0"
definition ENDPOINT_TOTAL_ENDPOINTS :: nat where "ENDPOINT_TOTAL_ENDPOINTS = 7"

text \<open>
  The search for the bank size: \<^verbatim>\<open>CheckBytes\<close> doubles in 16 bits and becomes 0 after 13 doublings, so
  16 rounds decide whether the loop ends at all.
\<close>

fun ep_size_loop :: "nat \<Rightarrow> u16 \<Rightarrow> u8 \<Rightarrow> u16 \<Rightarrow> u8 result" where
  "ep_size_loop 0 Bytes MaskVal CheckBytes = Fail Diverge"
| "ep_size_loop (Suc n) Bytes MaskVal CheckBytes =
     (if CheckBytes < Bytes then ep_size_loop n Bytes (MaskVal + 1) (push_bit 1 CheckBytes)
      else Ok (push_bit 4 MaskVal))"

definition Endpoint_BytesToEPSizeMask :: "u16 \<Rightarrow> u8 result" where
  "Endpoint_BytesToEPSizeMask Bytes = ep_size_loop 16 Bytes 0 8"

definition Endpoint_BytesInEndpoint :: "'w usb_avr \<Rightarrow> (('w, 'z) usb_scheme, u16) prog" where
  "Endpoint_BytesInEndpoint E =
     pbind (reg_rd E UEBCHX) (\<lambda>hi. pbind (reg_rd E UEBCLX) (\<lambda>lo. ret (of_le16 lo hi)))"

definition Endpoint_GetEndpointDirection :: "'w usb_avr \<Rightarrow> (('w, 'z) usb_scheme, u8) prog" where
  "Endpoint_GetEndpointDirection E = pif (reg_test E UECFG0X EPDIR) (ret ENDPOINT_DIR_IN) (ret ENDPOINT_DIR_OUT)"

definition Endpoint_GetCurrentEndpoint :: "'w usb_avr \<Rightarrow> (('w, 'z) usb_scheme, u8) prog" where
  "Endpoint_GetCurrentEndpoint E =
     pbind (reg_rd E UENUM) (\<lambda>n.
     pbind (Endpoint_GetEndpointDirection E) (\<lambda>d. ret ((n AND ENDPOINT_EPNUM_MASK) OR d)))"

definition Endpoint_SelectEndpoint :: "'w usb_avr \<Rightarrow> u8 \<Rightarrow> (('w, 'z) usb_scheme, unit) prog" where
  "Endpoint_SelectEndpoint E Address = reg_wr E UENUM (Address AND ENDPOINT_EPNUM_MASK)"

definition Endpoint_ResetEndpoint :: "'w usb_avr \<Rightarrow> u8 \<Rightarrow> (('w, 'z) usb_scheme, unit) prog" where
  "Endpoint_ResetEndpoint E Address =
     pseq [reg_wr E UERST (bv (unat (Address AND ENDPOINT_EPNUM_MASK))), reg_wr E UERST 0]"

definition Endpoint_EnableEndpoint :: "'w usb_avr \<Rightarrow> (('w, 'z) usb_scheme, unit) prog" where
  "Endpoint_EnableEndpoint E = reg_or E UECONX EPEN"

definition Endpoint_DisableEndpoint :: "'w usb_avr \<Rightarrow> (('w, 'z) usb_scheme, unit) prog" where
  "Endpoint_DisableEndpoint E = reg_and E UECONX (NOT EPEN)"

definition Endpoint_IsEnabled :: "'w usb_avr \<Rightarrow> (('w, 'z) usb_scheme, bool) prog" where
  "Endpoint_IsEnabled E = reg_test E UECONX EPEN"

definition Endpoint_GetBusyBanks :: "'w usb_avr \<Rightarrow> (('w, 'z) usb_scheme, u8) prog" where
  "Endpoint_GetBusyBanks E = pbind (reg_rd E UESTA0X) (\<lambda>v. ret (v AND 0x03))"

definition Endpoint_AbortPendingIN :: "'w usb_avr \<Rightarrow> (('w, 'z) usb_scheme, unit option) prog" where
  "Endpoint_AbortPendingIN E =
     wait_for (polls E) (pbind (Endpoint_GetBusyBanks E) (\<lambda>b. ret (b = 0)))
       (pbind (reg_or E UEINTX RXOUTI) (\<lambda>_.
        wait_for (polls E) (pbind (reg_test E UEINTX RXOUTI) (\<lambda>b. ret (\<not> b))) (ret None)))"

definition Endpoint_IsReadWriteAllowed :: "'w usb_avr \<Rightarrow> (('w, 'z) usb_scheme, bool) prog" where
  "Endpoint_IsReadWriteAllowed E = reg_test E UEINTX RWAL"

definition Endpoint_IsConfigured :: "'w usb_avr \<Rightarrow> (('w, 'z) usb_scheme, bool) prog" where
  "Endpoint_IsConfigured E = reg_test E UESTA0X CFGOK"

definition Endpoint_GetEndpointInterrupts :: "'w usb_avr \<Rightarrow> (('w, 'z) usb_scheme, u8) prog" where
  "Endpoint_GetEndpointInterrupts E = reg_rd E UEINT"

definition Endpoint_HasEndpointInterrupted :: "'w usb_avr \<Rightarrow> u8 \<Rightarrow> (('w, 'z) usb_scheme, bool) prog" where
  "Endpoint_HasEndpointInterrupted E Address =
     pbind (Endpoint_GetEndpointInterrupts E) (\<lambda>v. ret (v AND bv (unat (Address AND ENDPOINT_EPNUM_MASK)) \<noteq> 0))"

definition Endpoint_IsINReady :: "'w usb_avr \<Rightarrow> (('w, 'z) usb_scheme, bool) prog" where
  "Endpoint_IsINReady E = reg_test E UEINTX TXINI"

definition Endpoint_IsOUTReceived :: "'w usb_avr \<Rightarrow> (('w, 'z) usb_scheme, bool) prog" where
  "Endpoint_IsOUTReceived E = reg_test E UEINTX RXOUTI"

definition Endpoint_IsSETUPReceived :: "'w usb_avr \<Rightarrow> (('w, 'z) usb_scheme, bool) prog" where
  "Endpoint_IsSETUPReceived E = reg_test E UEINTX RXSTPI"

definition Endpoint_ClearSETUP :: "'w usb_avr \<Rightarrow> (('w, 'z) usb_scheme, unit) prog" where
  "Endpoint_ClearSETUP E = reg_and E UEINTX (NOT RXSTPI)"

definition Endpoint_ClearIN :: "'w usb_avr \<Rightarrow> (('w, 'z) usb_scheme, unit) prog" where
  "Endpoint_ClearIN E = reg_and E UEINTX (NOT (TXINI OR FIFOCON))"

definition Endpoint_ClearOUT :: "'w usb_avr \<Rightarrow> (('w, 'z) usb_scheme, unit) prog" where
  "Endpoint_ClearOUT E = reg_and E UEINTX (NOT (RXOUTI OR FIFOCON))"

definition Endpoint_StallTransaction :: "'w usb_avr \<Rightarrow> (('w, 'z) usb_scheme, unit) prog" where
  "Endpoint_StallTransaction E = reg_or E UECONX STALLRQ"

definition Endpoint_ClearStall :: "'w usb_avr \<Rightarrow> (('w, 'z) usb_scheme, unit) prog" where
  "Endpoint_ClearStall E = reg_or E UECONX STALLRQC"

definition Endpoint_IsStalled :: "'w usb_avr \<Rightarrow> (('w, 'z) usb_scheme, bool) prog" where
  "Endpoint_IsStalled E = reg_test E UECONX STALLRQ"

definition Endpoint_ResetDataToggle :: "'w usb_avr \<Rightarrow> (('w, 'z) usb_scheme, unit) prog" where
  "Endpoint_ResetDataToggle E = reg_or E UECONX RSTDT"

definition Endpoint_SetEndpointDirection :: "'w usb_avr \<Rightarrow> u8 \<Rightarrow> (('w, 'z) usb_scheme, unit) prog" where
  "Endpoint_SetEndpointDirection E DirectionMask =
     pbind (reg_rd E UECFG0X) (\<lambda>v. reg_wr E UECFG0X ((v AND NOT EPDIR) OR (if DirectionMask \<noteq> 0 then EPDIR else 0)))"

definition Endpoint_Read_8 :: "'w usb_avr \<Rightarrow> (('w, 'z) usb_scheme, u8) prog" where
  "Endpoint_Read_8 E = reg_rd E UEDATX"

definition Endpoint_Write_8 :: "'w usb_avr \<Rightarrow> u8 \<Rightarrow> (('w, 'z) usb_scheme, unit) prog" where
  "Endpoint_Write_8 E Data = reg_wr E UEDATX Data"

definition Endpoint_Discard_8 :: "'w usb_avr \<Rightarrow> (('w, 'z) usb_scheme, unit) prog" where
  "Endpoint_Discard_8 E = pbind (reg_rd E UEDATX) (\<lambda>_. ret ())"

definition Endpoint_Read_16_LE :: "'w usb_avr \<Rightarrow> (('w, 'z) usb_scheme, u16) prog" where
  "Endpoint_Read_16_LE E =
     pbind (reg_rd E UEDATX) (\<lambda>b0. pbind (reg_rd E UEDATX) (\<lambda>b1. ret (of_le16 b0 b1)))"

definition Endpoint_Read_16_BE :: "'w usb_avr \<Rightarrow> (('w, 'z) usb_scheme, u16) prog" where
  "Endpoint_Read_16_BE E =
     pbind (reg_rd E UEDATX) (\<lambda>b1. pbind (reg_rd E UEDATX) (\<lambda>b0. ret (of_le16 b0 b1)))"

definition Endpoint_Write_16_LE :: "'w usb_avr \<Rightarrow> u16 \<Rightarrow> (('w, 'z) usb_scheme, unit) prog" where
  "Endpoint_Write_16_LE E Data = pseq [reg_wr E UEDATX (ucast Data), reg_wr E UEDATX (ucast (drop_bit 8 Data))]"

definition Endpoint_Write_16_BE :: "'w usb_avr \<Rightarrow> u16 \<Rightarrow> (('w, 'z) usb_scheme, unit) prog" where
  "Endpoint_Write_16_BE E Data = pseq [reg_wr E UEDATX (ucast (drop_bit 8 Data)), reg_wr E UEDATX (ucast Data)]"

definition Endpoint_Discard_16 :: "'w usb_avr \<Rightarrow> (('w, 'z) usb_scheme, unit) prog" where
  "Endpoint_Discard_16 E = pseq [Endpoint_Discard_8 E, Endpoint_Discard_8 E]"

text \<open>The bytes of a 32-bit integer, as the unions of the sources lay them out.\<close>

definition of_le32 :: "u8 \<Rightarrow> u8 \<Rightarrow> u8 \<Rightarrow> u8 \<Rightarrow> u32" where
  "of_le32 b0 b1 b2 b3 = ucast b0 OR push_bit 8 (ucast b1) OR push_bit 16 (ucast b2) OR push_bit 24 (ucast b3)"

text \<open>The four bytes of a 32-bit value in memory, low byte first.\<close>

definition le32 :: "u32 \<Rightarrow> u8 list" where
  "le32 x = [ucast x, ucast (drop_bit 8 x), ucast (drop_bit 16 x), ucast (drop_bit 24 x)]"

lemma of_le32_bytes:
  "ucast (of_le32 b0 b1 b2 b3) = b0" "ucast (drop_bit 8 (of_le32 b0 b1 b2 b3)) = b1"
  "ucast (drop_bit 16 (of_le32 b0 b1 b2 b3)) = b2" "ucast (drop_bit 24 (of_le32 b0 b1 b2 b3)) = b3"
  by (rule bit_word_eqI; auto simp: of_le32_def bit_simps dest: bit_imp_le_length)+

lemma of_le32_le32: "of_le32 (ucast x) (ucast (drop_bit 8 x)) (ucast (drop_bit 16 x)) (ucast (drop_bit 24 x)) = x" for x :: u32
proof (rule bit_word_eqI)
  fix n assume "n < LENGTH(32)"
  then consider "n < 8" | "8 \<le> n" "n < 16" | "16 \<le> n" "n < 24" | "24 \<le> n" "n < 32" by fastforce
  then show "bit (of_le32 (ucast x) (ucast (drop_bit 8 x)) (ucast (drop_bit 16 x)) (ucast (drop_bit 24 x))) n = bit x n"
    by cases (auto simp: of_le32_def bit_simps)
qed

definition Endpoint_Read_32_LE :: "'w usb_avr \<Rightarrow> (('w, 'z) usb_scheme, u32) prog" where
  "Endpoint_Read_32_LE E =
     pbind (reg_rd E UEDATX) (\<lambda>b0. pbind (reg_rd E UEDATX) (\<lambda>b1.
     pbind (reg_rd E UEDATX) (\<lambda>b2. pbind (reg_rd E UEDATX) (\<lambda>b3. ret (of_le32 b0 b1 b2 b3)))))"

definition Endpoint_Read_32_BE :: "'w usb_avr \<Rightarrow> (('w, 'z) usb_scheme, u32) prog" where
  "Endpoint_Read_32_BE E =
     pbind (reg_rd E UEDATX) (\<lambda>b3. pbind (reg_rd E UEDATX) (\<lambda>b2.
     pbind (reg_rd E UEDATX) (\<lambda>b1. pbind (reg_rd E UEDATX) (\<lambda>b0. ret (of_le32 b0 b1 b2 b3)))))"

definition Endpoint_Write_32_LE :: "'w usb_avr \<Rightarrow> u32 \<Rightarrow> (('w, 'z) usb_scheme, unit) prog" where
  "Endpoint_Write_32_LE E Data =
     pseq [reg_wr E UEDATX (ucast Data), reg_wr E UEDATX (ucast (drop_bit 8 Data)),
           reg_wr E UEDATX (ucast (drop_bit 16 Data)), reg_wr E UEDATX (ucast (drop_bit 24 Data))]"

definition Endpoint_Write_32_BE :: "'w usb_avr \<Rightarrow> u32 \<Rightarrow> (('w, 'z) usb_scheme, unit) prog" where
  "Endpoint_Write_32_BE E Data =
     pseq [reg_wr E UEDATX (ucast (drop_bit 24 Data)), reg_wr E UEDATX (ucast (drop_bit 16 Data)),
           reg_wr E UEDATX (ucast (drop_bit 8 Data)), reg_wr E UEDATX (ucast Data)]"

definition Endpoint_Discard_32 :: "'w usb_avr \<Rightarrow> (('w, 'z) usb_scheme, unit) prog" where
  "Endpoint_Discard_32 E = pseq [Endpoint_Discard_16 E, Endpoint_Discard_16 E]"

section \<open>Device and controller primitives\<close>

definition USB_Device_GetFrameNumber :: "'w usb_avr \<Rightarrow> (('w, 'z) usb_scheme, u16) prog" where
  "USB_Device_GetFrameNumber E =
     pbind (reg_rd E UDFNUML) (\<lambda>lo. pbind (reg_rd E UDFNUMH) (\<lambda>hi. ret (of_le16 lo hi)))"

definition USB_Device_SetLowSpeed :: "'w usb_avr \<Rightarrow> (('w, 'z) usb_scheme, unit) prog" where
  "USB_Device_SetLowSpeed E = reg_or E UDCON LSM"

definition USB_Device_SetFullSpeed :: "'w usb_avr \<Rightarrow> (('w, 'z) usb_scheme, unit) prog" where
  "USB_Device_SetFullSpeed E = reg_and E UDCON (NOT LSM)"

definition USB_Device_SetDeviceAddress :: "'w usb_avr \<Rightarrow> u8 \<Rightarrow> (('w, 'z) usb_scheme, unit) prog" where
  "USB_Device_SetDeviceAddress E Address =
     pbind (reg_rd E UDADDR) (\<lambda>v. reg_wr E UDADDR ((v AND ADDEN) OR (Address AND 0x7F)))"

definition USB_Device_EnableDeviceAddress :: "'w usb_avr \<Rightarrow> u8 \<Rightarrow> (('w, 'z) usb_scheme, unit) prog" where
  "USB_Device_EnableDeviceAddress E Address = reg_or E UDADDR ADDEN"

definition USB_Device_IsAddressSet :: "'w usb_avr \<Rightarrow> (('w, 'z) usb_scheme, bool) prog" where
  "USB_Device_IsAddressSet E = reg_test E UDADDR ADDEN"

text \<open>
  The serial number: two hexadecimal digits per signature byte, low digit first, with interrupts
  disabled around the reads (\<^verbatim>\<open>cli\<close> clears bit 7 of \<^verbatim>\<open>SREG\<close>).
\<close>

definition serial_digit :: "u8 \<Rightarrow> u16" where
  "serial_digit SerialByte =
     (if SerialByte \<ge> 10 then (65 - 10) + ucast SerialByte else 48 + ucast SerialByte)"

fun serial_loop :: "'w usb_avr \<Rightarrow> nat list \<Rightarrow> u8 \<Rightarrow> (('w, 'z) usb_scheme, u16 list) prog" where
  "serial_loop E [] SigReadAddress = ret []"
| "serial_loop E (k # ks) SigReadAddress =
     pbind (outside (signature_byte E SigReadAddress)) (\<lambda>SerialByte.
     if odd k then
       pbind (serial_loop E ks (SigReadAddress + 1)) (\<lambda>r. ret (serial_digit (drop_bit 4 SerialByte AND 0x0F) # r))
     else
       pbind (serial_loop E ks SigReadAddress) (\<lambda>r. ret (serial_digit (SerialByte AND 0x0F) # r)))"

definition INTERNAL_SERIAL_LENGTH_BITS :: nat where "INTERNAL_SERIAL_LENGTH_BITS = 80"
definition INTERNAL_SERIAL_START_ADDRESS :: u8 where "INTERNAL_SERIAL_START_ADDRESS = 0x0E"

definition USB_Device_GetSerialString :: "'w usb_avr \<Rightarrow> (('w, 'z) usb_scheme, u16 list) prog" where
  "USB_Device_GetSerialString E =
     pbind (reg_rd E SREG) (\<lambda>CurrentGlobalInt.
     pbind (reg_and E SREG (NOT (bv 7))) (\<lambda>_.
     pbind (serial_loop E [0..<INTERNAL_SERIAL_LENGTH_BITS div 4] INTERNAL_SERIAL_START_ADDRESS) (\<lambda>UnicodeString.
     pbind (reg_wr E SREG CurrentGlobalInt) (\<lambda>_. ret UnicodeString))))"

definition USB_VBUS_GetStatus :: "'w usb_avr \<Rightarrow> (('w, 'z) usb_scheme, bool) prog" where
  "USB_VBUS_GetStatus E = reg_test E USBSTA VBUS"

definition USB_Detach :: "'w usb_avr \<Rightarrow> (('w, 'z) usb_scheme, unit) prog" where
  "USB_Detach E = reg_or E UDCON DETACH"

definition USB_Attach :: "'w usb_avr \<Rightarrow> (('w, 'z) usb_scheme, unit) prog" where
  "USB_Attach E = reg_and E UDCON (NOT DETACH)"

definition USB_PLL_PSC :: u8 where "USB_PLL_PSC = PINDIV"

definition USB_PLL_On :: "'w usb_avr \<Rightarrow> (('w, 'z) usb_scheme, unit) prog" where
  "USB_PLL_On E = pseq [reg_wr E PLLCSR USB_PLL_PSC, reg_wr E PLLCSR (USB_PLL_PSC OR PLLE)]"

definition USB_PLL_Off :: "'w usb_avr \<Rightarrow> (('w, 'z) usb_scheme, unit) prog" where
  "USB_PLL_Off E = reg_wr E PLLCSR 0"

definition USB_PLL_IsReady :: "'w usb_avr \<Rightarrow> (('w, 'z) usb_scheme, bool) prog" where
  "USB_PLL_IsReady E = reg_test E PLLCSR PLOCK"

definition USB_REG_On :: "'w usb_avr \<Rightarrow> (('w, 'z) usb_scheme, unit) prog" where
  "USB_REG_On E = reg_or E UHWCON UVREGE"

definition USB_REG_Off :: "'w usb_avr \<Rightarrow> (('w, 'z) usb_scheme, unit) prog" where
  "USB_REG_Off E = reg_and E UHWCON (NOT UVREGE)"

definition USB_OTGPAD_On :: "'w usb_avr \<Rightarrow> (('w, 'z) usb_scheme, unit) prog" where
  "USB_OTGPAD_On E = reg_or E USBCON OTGPADE"

definition USB_OTGPAD_Off :: "'w usb_avr \<Rightarrow> (('w, 'z) usb_scheme, unit) prog" where
  "USB_OTGPAD_Off E = reg_and E USBCON (NOT OTGPADE)"

definition USB_CLK_Freeze :: "'w usb_avr \<Rightarrow> (('w, 'z) usb_scheme, unit) prog" where
  "USB_CLK_Freeze E = reg_or E USBCON FRZCLK"

definition USB_CLK_Unfreeze :: "'w usb_avr \<Rightarrow> (('w, 'z) usb_scheme, unit) prog" where
  "USB_CLK_Unfreeze E = reg_and E USBCON (NOT FRZCLK)"

definition USB_Controller_Enable :: "'w usb_avr \<Rightarrow> (('w, 'z) usb_scheme, unit) prog" where
  "USB_Controller_Enable E = reg_or E USBCON USBE"

definition USB_Controller_Disable :: "'w usb_avr \<Rightarrow> (('w, 'z) usb_scheme, unit) prog" where
  "USB_Controller_Disable E = reg_and E USBCON (NOT USBE)"

definition USB_Controller_Reset :: "'w usb_avr \<Rightarrow> (('w, 'z) usb_scheme, unit) prog" where
  "USB_Controller_Reset E = pseq [reg_and E USBCON (NOT USBE), reg_or E USBCON USBE]"

section \<open>Interrupt sources\<close>

datatype usb_interrupt =
  USB_INT_VBUSTI | USB_INT_WAKEUPI | USB_INT_SUSPI | USB_INT_EORSTI | USB_INT_SOFI | USB_INT_RXSTPI

fun USB_INT_Enable :: "'w usb_avr \<Rightarrow> usb_interrupt \<Rightarrow> (('w, 'z) usb_scheme, unit) prog" where
  "USB_INT_Enable E USB_INT_VBUSTI = reg_or E USBCON VBUSTE"
| "USB_INT_Enable E USB_INT_WAKEUPI = reg_or E UDIEN WAKEUPE"
| "USB_INT_Enable E USB_INT_SUSPI = reg_or E UDIEN SUSPE"
| "USB_INT_Enable E USB_INT_EORSTI = reg_or E UDIEN EORSTE"
| "USB_INT_Enable E USB_INT_SOFI = reg_or E UDIEN SOFE"
| "USB_INT_Enable E USB_INT_RXSTPI = reg_or E UEIENX RXSTPE"

fun USB_INT_Disable :: "'w usb_avr \<Rightarrow> usb_interrupt \<Rightarrow> (('w, 'z) usb_scheme, unit) prog" where
  "USB_INT_Disable E USB_INT_VBUSTI = reg_and E USBCON (NOT VBUSTE)"
| "USB_INT_Disable E USB_INT_WAKEUPI = reg_and E UDIEN (NOT WAKEUPE)"
| "USB_INT_Disable E USB_INT_SUSPI = reg_and E UDIEN (NOT SUSPE)"
| "USB_INT_Disable E USB_INT_EORSTI = reg_and E UDIEN (NOT EORSTE)"
| "USB_INT_Disable E USB_INT_SOFI = reg_and E UDIEN (NOT SOFE)"
| "USB_INT_Disable E USB_INT_RXSTPI = reg_and E UEIENX (NOT RXSTPE)"

fun USB_INT_Clear :: "'w usb_avr \<Rightarrow> usb_interrupt \<Rightarrow> (('w, 'z) usb_scheme, unit) prog" where
  "USB_INT_Clear E USB_INT_VBUSTI = reg_and E USBINT (NOT VBUSTI)"
| "USB_INT_Clear E USB_INT_WAKEUPI = reg_and E UDINT (NOT WAKEUPI)"
| "USB_INT_Clear E USB_INT_SUSPI = reg_and E UDINT (NOT SUSPI)"
| "USB_INT_Clear E USB_INT_EORSTI = reg_and E UDINT (NOT EORSTI)"
| "USB_INT_Clear E USB_INT_SOFI = reg_and E UDINT (NOT SOFI)"
| "USB_INT_Clear E USB_INT_RXSTPI = reg_and E UEINTX (NOT RXSTPI)"

fun USB_INT_IsEnabled :: "'w usb_avr \<Rightarrow> usb_interrupt \<Rightarrow> (('w, 'z) usb_scheme, bool) prog" where
  "USB_INT_IsEnabled E USB_INT_VBUSTI = reg_test E USBCON VBUSTE"
| "USB_INT_IsEnabled E USB_INT_WAKEUPI = reg_test E UDIEN WAKEUPE"
| "USB_INT_IsEnabled E USB_INT_SUSPI = reg_test E UDIEN SUSPE"
| "USB_INT_IsEnabled E USB_INT_EORSTI = reg_test E UDIEN EORSTE"
| "USB_INT_IsEnabled E USB_INT_SOFI = reg_test E UDIEN SOFE"
| "USB_INT_IsEnabled E USB_INT_RXSTPI = reg_test E UEIENX RXSTPE"

fun USB_INT_HasOccurred :: "'w usb_avr \<Rightarrow> usb_interrupt \<Rightarrow> (('w, 'z) usb_scheme, bool) prog" where
  "USB_INT_HasOccurred E USB_INT_VBUSTI = reg_test E USBINT VBUSTI"
| "USB_INT_HasOccurred E USB_INT_WAKEUPI = reg_test E UDINT WAKEUPI"
| "USB_INT_HasOccurred E USB_INT_SUSPI = reg_test E UDINT SUSPI"
| "USB_INT_HasOccurred E USB_INT_EORSTI = reg_test E UDINT EORSTI"
| "USB_INT_HasOccurred E USB_INT_SOFI = reg_test E UDINT SOFI"
| "USB_INT_HasOccurred E USB_INT_RXSTPI = reg_test E UEINTX RXSTPI"

end
