(* ===== verification/Usb_Controller.thy ===== *)
theory Usb_Controller
  imports Usb_Machine
begin

text \<open>
  Set-up and bus events of the USB stack: endpoint configuration (\<^verbatim>\<open>Endpoint_AVR8.c\<close>), start and stop
  of the controller (\<^verbatim>\<open>USBController_AVR8.c\<close>) and the general interrupt \<^verbatim>\<open>USB_GEN_vect\<close>
  (\<^verbatim>\<open>USBInterrupt_AVR8.c\<close>) with the state machine of \<^verbatim>\<open>USB_DeviceState\<close>. The weak event symbols and
  the descriptor callback that an application overrides are the record \<open>usb_app\<close>.
\<close>

section \<open>The application's side\<close>

text \<open>
  \<open>get_descriptor\<close> is \<^verbatim>\<open>CALLBACK_USB_GetDescriptor\<close>: the size, and the bytes at the address it stores
  (none for a NULL address).
\<close>

record 's usb_app =
  on_Connect :: "('s, unit) prog"
  on_Disconnect :: "('s, unit) prog"
  on_Suspend :: "('s, unit) prog"
  on_WakeUp :: "('s, unit) prog"
  on_Reset :: "('s, unit) prog"
  on_StartOfFrame :: "('s, unit) prog"
  on_ConfigurationChanged :: "('s, unit) prog"
  on_ControlRequest :: "('s, unit) prog"
  get_descriptor :: "u16 \<Rightarrow> u8 \<Rightarrow> u16 \<times> u8 list option"

definition USB_Event_Stub :: "('s, unit) prog" where
  "USB_Event_Stub = ret ()"

section \<open>Endpoint configuration\<close>

definition ep_reconfigure :: "'w usb_avr \<Rightarrow> u8 \<Rightarrow> u8 \<Rightarrow> u8 \<Rightarrow> (('w, 'z) usb_scheme, bool) prog" where
  "ep_reconfigure E UECFG0XTemp UECFG1XTemp UEIENXTemp =
     pbind (pseq [Endpoint_DisableEndpoint E, reg_and E UECFG1X (NOT ALLOC), Endpoint_EnableEndpoint E,
                  reg_wr E UECFG0X UECFG0XTemp, reg_wr E UECFG1X UECFG1XTemp, reg_wr E UEIENX UEIENXTemp])
       (\<lambda>_. Endpoint_IsConfigured E)"

text \<open>
  The loop from the endpoint upwards: it writes the endpoint's new configuration and writes those of
  the endpoints above it again. \<^verbatim>\<open>continue\<close> skips an endpoint without memory.
\<close>

fun ep_configure_loop :: "'w usb_avr \<Rightarrow> u8 \<Rightarrow> u8 \<Rightarrow> u8 \<Rightarrow> u8 list \<Rightarrow> (('w, 'z) usb_scheme, bool) prog" where
  "ep_configure_loop E Number UECFG0XData UECFG1XData [] = pbind (Endpoint_SelectEndpoint E Number) (\<lambda>_. ret True)"
| "ep_configure_loop E Number UECFG0XData UECFG1XData (EPNum # eps) =
     pbind (Endpoint_SelectEndpoint E EPNum) (\<lambda>_.
     pbind (if EPNum = Number then ret (UECFG0XData, UECFG1XData, 0)
            else pbind (reg_rd E UECFG0X) (\<lambda>a. pbind (reg_rd E UECFG1X) (\<lambda>b.
                 pbind (reg_rd E UEIENX) (\<lambda>c. ret (a, b, c))))) (\<lambda>(c0, c1, ie).
     if c1 AND ALLOC = 0 then ep_configure_loop E Number UECFG0XData UECFG1XData eps
     else pif (ep_reconfigure E c0 c1 ie) (ep_configure_loop E Number UECFG0XData UECFG1XData eps) (ret False)))"

definition Endpoint_ConfigureEndpoint_Prv :: "'w usb_avr \<Rightarrow> u8 \<Rightarrow> u8 \<Rightarrow> u8 \<Rightarrow> (('w, 'z) usb_scheme, bool) prog" where
  "Endpoint_ConfigureEndpoint_Prv E Number UECFG0XData UECFG1XData =
     ep_configure_loop E Number UECFG0XData UECFG1XData (map of_nat [unat Number..<ENDPOINT_TOTAL_ENDPOINTS])"

definition Endpoint_ConfigureEndpoint :: "'w usb_avr \<Rightarrow> u8 \<Rightarrow> u8 \<Rightarrow> u16 \<Rightarrow> u8 \<Rightarrow> (('w, 'z) usb_scheme, bool) prog" where
  "Endpoint_ConfigureEndpoint E Address Type Size Banks =
     (let Number = Address AND ENDPOINT_EPNUM_MASK in
      if unat Number \<ge> ENDPOINT_TOTAL_ENDPOINTS then ret False
      else
        pbind (plift (Endpoint_BytesToEPSizeMask Size)) (\<lambda>sz.
        Endpoint_ConfigureEndpoint_Prv E Number
          (push_bit 6 Type OR (if Address AND ENDPOINT_DIR_IN \<noteq> 0 then EPDIR else 0))
          (ALLOC OR (if Banks > 1 then EPBK0 else 0) OR sz)))"

record USB_Endpoint_Table =
  ep_Address :: u8
  ep_Size :: u16
  ep_Type :: u8
  ep_Banks :: u8

fun Endpoint_ConfigureEndpointTable :: "'w usb_avr \<Rightarrow> USB_Endpoint_Table list \<Rightarrow> (('w, 'z) usb_scheme, bool) prog" where
  "Endpoint_ConfigureEndpointTable E [] = ret True"
| "Endpoint_ConfigureEndpointTable E (t # ts) =
     (if ep_Address t = 0 then Endpoint_ConfigureEndpointTable E ts
      else pif (Endpoint_ConfigureEndpoint E (ep_Address t) (ep_Type t) (ep_Size t) (ep_Banks t))
             (Endpoint_ConfigureEndpointTable E ts) (ret False))"

definition Endpoint_ClearEndpoints :: "'w usb_avr \<Rightarrow> (('w, 'z) usb_scheme, unit) prog" where
  "Endpoint_ClearEndpoints E =
     pseq (reg_wr E UEINT 0 #
       map (\<lambda>EPNum. pseq [Endpoint_SelectEndpoint E (of_nat EPNum), reg_wr E UEIENX 0, reg_wr E UEINTX 0,
                          reg_wr E UECFG1X 0, Endpoint_DisableEndpoint E]) [0..<ENDPOINT_TOTAL_ENDPOINTS])"

section \<open>The controller\<close>

definition FIXED_CONTROL_ENDPOINT_SIZE :: u16 where "FIXED_CONTROL_ENDPOINT_SIZE = 8"

text \<open>The options of \<^verbatim>\<open>Config/LUFAConfig.h\<close>: full speed, regulator on, automatic PLL; every mask is 0.\<close>

definition USB_DEVICE_OPT_LOWSPEED :: u8 where "USB_DEVICE_OPT_LOWSPEED = bv 0"
definition USB_OPT_REG_DISABLED :: u8 where "USB_OPT_REG_DISABLED = bv 1"
definition USB_OPT_MANUAL_PLL :: u8 where "USB_OPT_MANUAL_PLL = bv 2"
definition USB_OPT_REG_KEEP_ENABLED :: u8 where "USB_OPT_REG_KEEP_ENABLED = bv 3"
definition USB_Options :: u8 where "USB_Options = 0"

definition USB_INT_DisableAllInterrupts :: "'w usb_avr \<Rightarrow> (('w, 'z) usb_scheme, unit) prog" where
  "USB_INT_DisableAllInterrupts E = pseq [reg_and E USBCON (NOT VBUSTE), reg_wr E UDIEN 0]"

definition USB_INT_ClearAllInterrupts :: "'w usb_avr \<Rightarrow> (('w, 'z) usb_scheme, unit) prog" where
  "USB_INT_ClearAllInterrupts E = pseq [reg_wr E USBINT 0, reg_wr E UDINT 0]"

definition set_state :: "device_state \<Rightarrow> (('w, 'z) usb_scheme, unit) prog" where
  "set_state d = pmod (\<lambda>s. s\<lparr>USB_DeviceState := d\<rparr>)"

text \<open>The control endpoint's result is not looked at.\<close>

definition configure_control :: "'w usb_avr \<Rightarrow> (('w, 'z) usb_scheme, unit) prog" where
  "configure_control E =
     pbind (Endpoint_ConfigureEndpoint E ENDPOINT_CONTROLEP EP_TYPE_CONTROL FIXED_CONTROL_ENDPOINT_SIZE 1) (\<lambda>_. ret ())"

definition USB_Init_Device :: "'w usb_avr \<Rightarrow> (('w, 'z) usb_scheme, unit) prog" where
  "USB_Init_Device E =
     pseq [set_state DEVICE_STATE_Unattached,
           pmod (\<lambda>s. s\<lparr>USB_Device_ConfigurationNumber := 0\<rparr>),
           pmod (\<lambda>s. s\<lparr>USB_Device_RemoteWakeupEnabled := False\<rparr>),
           pmod (\<lambda>s. s\<lparr>USB_Device_CurrentlySelfPowered := False\<rparr>),
           (if USB_Options AND USB_DEVICE_OPT_LOWSPEED \<noteq> 0 then USB_Device_SetLowSpeed E else USB_Device_SetFullSpeed E),
           USB_INT_Enable E USB_INT_VBUSTI,
           configure_control E,
           USB_INT_Clear E USB_INT_SUSPI,
           USB_INT_Enable E USB_INT_SUSPI,
           USB_INT_Enable E USB_INT_EORSTI,
           USB_Attach E]"

definition USB_ResetInterface :: "'w usb_avr \<Rightarrow> (('w, 'z) usb_scheme, unit) prog" where
  "USB_ResetInterface E =
     pseq [USB_INT_DisableAllInterrupts E,
           USB_INT_ClearAllInterrupts E,
           USB_Controller_Reset E,
           USB_CLK_Unfreeze E,
           pwhen (USB_Options AND USB_OPT_MANUAL_PLL = 0) (USB_PLL_Off E),
           USB_Init_Device E,
           USB_OTGPAD_On E]"

definition USB_Init :: "'w usb_avr \<Rightarrow> (('w, 'z) usb_scheme, unit) prog" where
  "USB_Init E =
     pseq [USB_OTGPAD_Off E,
           (if USB_Options AND USB_OPT_REG_DISABLED = 0 then USB_REG_On E else USB_REG_Off E),
           pwhen (USB_Options AND USB_OPT_MANUAL_PLL = 0) (reg_wr E PLLFRQ PDIV2),
           pmod (\<lambda>s. s\<lparr>USB_IsInitialized := True\<rparr>),
           USB_ResetInterface E]"

definition USB_Disable :: "'w usb_avr \<Rightarrow> (('w, 'z) usb_scheme, unit) prog" where
  "USB_Disable E =
     pseq [USB_INT_DisableAllInterrupts E,
           USB_INT_ClearAllInterrupts E,
           USB_Detach E,
           USB_Controller_Disable E,
           pwhen (USB_Options AND USB_OPT_MANUAL_PLL = 0) (USB_PLL_Off E),
           pwhen (USB_Options AND USB_OPT_REG_KEEP_ENABLED = 0) (USB_REG_Off E),
           USB_OTGPAD_Off E,
           pmod (\<lambda>s. s\<lparr>USB_IsInitialized := False\<rparr>)]"

section \<open>The general interrupt\<close>

definition pll_start :: "'w usb_avr \<Rightarrow> (('w, 'z) usb_scheme, unit) prog" where
  "pll_start E =
     pwhen (USB_Options AND USB_OPT_MANUAL_PLL = 0)
       (pbind (USB_PLL_On E) (\<lambda>_.
        pbind (wait_for (polls E) (USB_PLL_IsReady E) (ret (None :: unit option))) (\<lambda>_. ret ())))"

definition int_fired :: "'w usb_avr \<Rightarrow> usb_interrupt \<Rightarrow> (('w, 'z) usb_scheme, bool) prog" where
  "int_fired E i = pand (USB_INT_HasOccurred E i) (USB_INT_IsEnabled E i)"

definition gen_sof :: "'w usb_avr \<Rightarrow> ('w, 'z) usb_scheme usb_app \<Rightarrow> (('w, 'z) usb_scheme, unit) prog" where
  "gen_sof E A = pif (int_fired E USB_INT_SOFI) (pseq [USB_INT_Clear E USB_INT_SOFI, on_StartOfFrame A]) (ret ())"

definition gen_vbus :: "'w usb_avr \<Rightarrow> ('w, 'z) usb_scheme usb_app \<Rightarrow> (('w, 'z) usb_scheme, unit) prog" where
  "gen_vbus E A =
     pif (int_fired E USB_INT_VBUSTI)
       (pbind (USB_INT_Clear E USB_INT_VBUSTI) (\<lambda>_.
        pif (USB_VBUS_GetStatus E)
          (pseq [pll_start E, set_state DEVICE_STATE_Powered, on_Connect A])
          (pseq [pwhen (USB_Options AND USB_OPT_MANUAL_PLL = 0) (USB_PLL_Off E),
                 set_state DEVICE_STATE_Unattached, on_Disconnect A])))
       (ret ())"

definition gen_suspend :: "'w usb_avr \<Rightarrow> ('w, 'z) usb_scheme usb_app \<Rightarrow> (('w, 'z) usb_scheme, unit) prog" where
  "gen_suspend E A =
     pif (int_fired E USB_INT_SUSPI)
       (pseq [USB_INT_Disable E USB_INT_SUSPI, USB_INT_Enable E USB_INT_WAKEUPI, USB_CLK_Freeze E,
              pwhen (USB_Options AND USB_OPT_MANUAL_PLL = 0) (USB_PLL_Off E),
              set_state DEVICE_STATE_Suspended, on_Suspend A])
       (ret ())"

definition gen_wakeup :: "'w usb_avr \<Rightarrow> ('w, 'z) usb_scheme usb_app \<Rightarrow> (('w, 'z) usb_scheme, unit) prog" where
  "gen_wakeup E A =
     pif (int_fired E USB_INT_WAKEUPI)
       (pseq [pll_start E, USB_CLK_Unfreeze E, USB_INT_Clear E USB_INT_WAKEUPI,
              USB_INT_Disable E USB_INT_WAKEUPI, USB_INT_Enable E USB_INT_SUSPI,
              pbind (pget USB_Device_ConfigurationNumber) (\<lambda>n.
              if n \<noteq> 0 then set_state DEVICE_STATE_Configured
              else pif (USB_Device_IsAddressSet E) (set_state DEVICE_STATE_Addressed) (set_state DEVICE_STATE_Powered)),
              on_WakeUp A])
       (ret ())"

definition gen_reset :: "'w usb_avr \<Rightarrow> ('w, 'z) usb_scheme usb_app \<Rightarrow> (('w, 'z) usb_scheme, unit) prog" where
  "gen_reset E A =
     pif (int_fired E USB_INT_EORSTI)
       (pseq [USB_INT_Clear E USB_INT_EORSTI,
              set_state DEVICE_STATE_Default,
              pmod (\<lambda>s. s\<lparr>USB_Device_ConfigurationNumber := 0\<rparr>),
              USB_INT_Clear E USB_INT_SUSPI, USB_INT_Disable E USB_INT_SUSPI, USB_INT_Enable E USB_INT_WAKEUPI,
              configure_control E,
              USB_INT_Enable E USB_INT_RXSTPI,
              on_Reset A])
       (ret ())"

definition USB_GEN_vect :: "'w usb_avr \<Rightarrow> ('w, 'z) usb_scheme usb_app \<Rightarrow> (('w, 'z) usb_scheme, unit) prog" where
  "USB_GEN_vect E A = pseq [gen_sof E A, gen_vbus E A, gen_suspend E A, gen_wakeup E A, gen_reset E A]"

text \<open>The point of a waiting loop where the general interrupt may be taken.\<close>

definition gen_point :: "'w usb_avr \<Rightarrow> ('w, 'z) usb_scheme usb_app \<Rightarrow> (('w, 'z) usb_scheme, unit) prog" where
  "gen_point E A = pif (outside (gen_pending E)) (USB_GEN_vect E A) (ret ())"

definition USB_Device_SendRemoteWakeup :: "'w usb_avr \<Rightarrow> (('w, 'z) usb_scheme, unit) prog" where
  "USB_Device_SendRemoteWakeup E =
     pseq [pll_start E, USB_CLK_Unfreeze E, reg_or E UDCON RMWKUP,
           pbind (wait_for (polls E) (pbind (reg_test E UDCON RMWKUP) (\<lambda>b. ret (\<not> b))) (ret (None :: unit option))) (\<lambda>_. ret ())]"

end
