(* ===== verification/Usb_Stream.thy ===== *)
theory Usb_Stream
  imports Usb_Controller
begin

text \<open>
  Waiting and transfers on the selected endpoint: \<^verbatim>\<open>Endpoint_ClearStatusStage\<close> and
  \<^verbatim>\<open>Endpoint_WaitUntilReady\<close> of \<^verbatim>\<open>Endpoint_AVR8.c\<close>, and the stream functions of
  \<^verbatim>\<open>EndpointStream_AVR8.c\<close> with the three templates they are instances of. The argument \<open>I\<close> is what may
  interrupt the code at a point where it waits; a template macro is an argument of the template's definition.
  A buffer in flash is the list of its bytes, as one in RAM is.
\<close>

section \<open>Codes\<close>

definition ENDPOINT_READYWAIT_NoError :: u8 where "ENDPOINT_READYWAIT_NoError = 0"
definition ENDPOINT_READYWAIT_EndpointStalled :: u8 where "ENDPOINT_READYWAIT_EndpointStalled = 1"
definition ENDPOINT_READYWAIT_DeviceDisconnected :: u8 where "ENDPOINT_READYWAIT_DeviceDisconnected = 2"
definition ENDPOINT_READYWAIT_BusSuspended :: u8 where "ENDPOINT_READYWAIT_BusSuspended = 3"
definition ENDPOINT_READYWAIT_Timeout :: u8 where "ENDPOINT_READYWAIT_Timeout = 4"
definition ENDPOINT_RWSTREAM_NoError :: u8 where "ENDPOINT_RWSTREAM_NoError = 0"
definition ENDPOINT_RWSTREAM_DeviceDisconnected :: u8 where "ENDPOINT_RWSTREAM_DeviceDisconnected = 2"
definition ENDPOINT_RWSTREAM_IncompleteTransfer :: u8 where "ENDPOINT_RWSTREAM_IncompleteTransfer = 5"
definition ENDPOINT_RWCSTREAM_NoError :: u8 where "ENDPOINT_RWCSTREAM_NoError = 0"
definition ENDPOINT_RWCSTREAM_HostAborted :: u8 where "ENDPOINT_RWCSTREAM_HostAborted = 1"
definition ENDPOINT_RWCSTREAM_DeviceDisconnected :: u8 where "ENDPOINT_RWCSTREAM_DeviceDisconnected = 2"
definition ENDPOINT_RWCSTREAM_BusSuspended :: u8 where "ENDPOINT_RWCSTREAM_BusSuspended = 3"

lemmas endpoint_codes = ENDPOINT_READYWAIT_NoError_def ENDPOINT_READYWAIT_EndpointStalled_def
  ENDPOINT_READYWAIT_DeviceDisconnected_def ENDPOINT_READYWAIT_BusSuspended_def ENDPOINT_READYWAIT_Timeout_def
  ENDPOINT_RWSTREAM_NoError_def ENDPOINT_RWSTREAM_DeviceDisconnected_def ENDPOINT_RWSTREAM_IncompleteTransfer_def
  ENDPOINT_RWCSTREAM_NoError_def ENDPOINT_RWCSTREAM_HostAborted_def ENDPOINT_RWCSTREAM_DeviceDisconnected_def
  ENDPOINT_RWCSTREAM_BusSuspended_def

section \<open>Waiting\<close>

definition if_unattached :: "(('w, 'z) usb_scheme, unit) prog \<Rightarrow> (('w, 'z) usb_scheme, unit option) prog" where
  "if_unattached I =
     pbind I (\<lambda>_. pbind (pget USB_DeviceState) (\<lambda>d. ret (if d = DEVICE_STATE_Unattached then Some () else None)))"

definition Endpoint_ClearStatusStage :: "'w usb_avr \<Rightarrow> (('w, 'z) usb_scheme, unit) prog \<Rightarrow> (('w, 'z) usb_scheme, unit) prog" where
  "Endpoint_ClearStatusStage E I =
     pbind (pget USB_ControlRequest) (\<lambda>r.
     if bmRequestType r AND 0x80 \<noteq> 0 then
       pbind (wait_for (polls E) (Endpoint_IsOUTReceived E) (if_unattached I)) (\<lambda>e.
       case e of Some _ \<Rightarrow> ret () | None \<Rightarrow> Endpoint_ClearOUT E)
     else
       pbind (wait_for (polls E) (Endpoint_IsINReady E) (if_unattached I)) (\<lambda>e.
       case e of Some _ \<Rightarrow> ret () | None \<Rightarrow> Endpoint_ClearIN E))"

definition USB_STREAM_TIMEOUT_MS :: u8 where "USB_STREAM_TIMEOUT_MS = 100"

fun ready_loop :: "'w usb_avr \<Rightarrow> (('w, 'z) usb_scheme, unit) prog \<Rightarrow> nat \<Rightarrow> u16 \<Rightarrow> u8 \<Rightarrow> (('w, 'z) usb_scheme, u8) prog" where
  "ready_loop E I 0 PreviousFrameNumber TimeoutMSRem = pfail Diverge"
| "ready_loop E I (Suc n) PreviousFrameNumber TimeoutMSRem =
     pbind (Endpoint_GetEndpointDirection E) (\<lambda>d.
     pif (if d = ENDPOINT_DIR_IN then Endpoint_IsINReady E else Endpoint_IsOUTReceived E)
       (ret ENDPOINT_READYWAIT_NoError)
       (pbind I (\<lambda>_. pbind (pget USB_DeviceState) (\<lambda>USB_DeviceState_LCL.
        if USB_DeviceState_LCL = DEVICE_STATE_Unattached then ret ENDPOINT_READYWAIT_DeviceDisconnected
        else if USB_DeviceState_LCL = DEVICE_STATE_Suspended then ret ENDPOINT_READYWAIT_BusSuspended
        else
          pif (Endpoint_IsStalled E) (ret ENDPOINT_READYWAIT_EndpointStalled)
          (pbind (USB_Device_GetFrameNumber E) (\<lambda>CurrentFrameNumber.
           if CurrentFrameNumber \<noteq> PreviousFrameNumber then
             if TimeoutMSRem = 0 then ret ENDPOINT_READYWAIT_Timeout
             else ready_loop E I n CurrentFrameNumber (TimeoutMSRem - 1)
           else ready_loop E I n PreviousFrameNumber TimeoutMSRem))))))"

definition Endpoint_WaitUntilReady :: "'w usb_avr \<Rightarrow> (('w, 'z) usb_scheme, unit) prog \<Rightarrow> (('w, 'z) usb_scheme, u8) prog" where
  "Endpoint_WaitUntilReady E I =
     pbind (USB_Device_GetFrameNumber E) (\<lambda>PreviousFrameNumber.
     ready_loop E I (polls E) PreviousFrameNumber USB_STREAM_TIMEOUT_MS)"

section \<open>Streams on data endpoints\<close>

text \<open>
  \<open>stream_loop\<close> is the loop of \<^verbatim>\<open>Template_Endpoint_RW.c\<close>, with the macros of the template as \<open>clr\<close>, \<open>step\<close>
  and \<open>xfer\<close>; the buffer is threaded through, since a read stores into it. \<^verbatim>\<open>BytesProcessed\<close> is
  \<open>None\<close> for NULL. The rounds are one per byte, and one per packet that has to be waited for.
\<close>

fun stream_loop ::
    "'w usb_avr \<Rightarrow> (('w, 'z) usb_scheme, unit) prog \<Rightarrow> (('w, 'z) usb_scheme, unit) prog \<Rightarrow> (int \<Rightarrow> int \<Rightarrow> int) \<Rightarrow>
     (int \<Rightarrow> u8 list \<Rightarrow> (('w, 'z) usb_scheme, u8 list) prog) \<Rightarrow> nat \<Rightarrow> u8 list \<Rightarrow> int \<Rightarrow> u16 \<Rightarrow> u16 \<Rightarrow> u16 option \<Rightarrow>
     (('w, 'z) usb_scheme, u8 \<times> u16 option \<times> u8 list) prog" where
  "stream_loop E I clr step xfer 0 buf DataStream Length BytesInTransfer BytesProcessed = pfail Diverge"
| "stream_loop E I clr step xfer (Suc n) buf DataStream Length BytesInTransfer BytesProcessed =
     (if Length = 0 then ret (ENDPOINT_RWSTREAM_NoError, BytesProcessed, buf)
      else
        pif (Endpoint_IsReadWriteAllowed E)
          (pbind (xfer DataStream buf) (\<lambda>buf.
           stream_loop E I clr step xfer n buf (step DataStream 1) (Length - 1) (BytesInTransfer + 1) BytesProcessed))
          (pbind clr (\<lambda>_.
           case BytesProcessed of
             Some p \<Rightarrow> ret (ENDPOINT_RWSTREAM_IncompleteTransfer, Some (p + BytesInTransfer), buf)
           | None \<Rightarrow>
               pbind (Endpoint_WaitUntilReady E I) (\<lambda>ErrorCode.
               if ErrorCode \<noteq> 0 then ret (ErrorCode, None, buf)
               else stream_loop E I clr step xfer n buf DataStream Length BytesInTransfer None))))"

definition Template_Endpoint_RW ::
    "'w usb_avr \<Rightarrow> (('w, 'z) usb_scheme, unit) prog \<Rightarrow> (('w, 'z) usb_scheme, unit) prog \<Rightarrow> (u16 \<Rightarrow> int) \<Rightarrow> (int \<Rightarrow> int \<Rightarrow> int) \<Rightarrow>
     (int \<Rightarrow> u8 list \<Rightarrow> (('w, 'z) usb_scheme, u8 list) prog) \<Rightarrow> u8 list \<Rightarrow> u16 \<Rightarrow> u16 option \<Rightarrow>
     (('w, 'z) usb_scheme, u8 \<times> u16 option \<times> u8 list) prog" where
  "Template_Endpoint_RW E I clr offset step xfer Buffer Length BytesProcessed =
     pbind (Endpoint_WaitUntilReady E I) (\<lambda>ErrorCode.
     if ErrorCode \<noteq> 0 then ret (ErrorCode, BytesProcessed, Buffer)
     else
       (let DataStream = offset Length;
            p = (case BytesProcessed of None \<Rightarrow> 0 | Some p \<Rightarrow> p);
            rest = Length - p in
        stream_loop E I clr step xfer (Suc (unat rest + polls E)) Buffer (step DataStream (uint p)) rest 0 BytesProcessed))"

definition offset_LE :: "u16 \<Rightarrow> int" where "offset_LE Length = 0"
definition offset_BE :: "u16 \<Rightarrow> int" where "offset_BE Length = uint Length - 1"

definition write_byte :: "'w usb_avr \<Rightarrow> int \<Rightarrow> u8 list \<Rightarrow> (('w, 'z) usb_scheme, u8 list) prog" where
  "write_byte E i buf =
     (if i < 0 then pfail Out_Of_Bounds
      else pbind (plift (aget buf (nat i))) (\<lambda>b. pbind (Endpoint_Write_8 E b) (\<lambda>_. ret buf)))"

definition read_byte :: "'w usb_avr \<Rightarrow> int \<Rightarrow> u8 list \<Rightarrow> (('w, 'z) usb_scheme, u8 list) prog" where
  "read_byte E i buf =
     pbind (Endpoint_Read_8 E) (\<lambda>b. if i < 0 then pfail Out_Of_Bounds else plift (aset buf (nat i) b))"

definition Endpoint_Write_Stream_LE :: "'w usb_avr \<Rightarrow> (('w, 'z) usb_scheme, unit) prog \<Rightarrow> u8 list \<Rightarrow> u16 \<Rightarrow> u16 option \<Rightarrow> (('w, 'z) usb_scheme, u8 \<times> u16 option \<times> u8 list) prog" where
  "Endpoint_Write_Stream_LE E I = Template_Endpoint_RW E I (Endpoint_ClearIN E) offset_LE (+) (write_byte E)"

definition Endpoint_Write_Stream_BE :: "'w usb_avr \<Rightarrow> (('w, 'z) usb_scheme, unit) prog \<Rightarrow> u8 list \<Rightarrow> u16 \<Rightarrow> u16 option \<Rightarrow> (('w, 'z) usb_scheme, u8 \<times> u16 option \<times> u8 list) prog" where
  "Endpoint_Write_Stream_BE E I = Template_Endpoint_RW E I (Endpoint_ClearIN E) offset_BE (-) (write_byte E)"

definition Endpoint_Read_Stream_LE :: "'w usb_avr \<Rightarrow> (('w, 'z) usb_scheme, unit) prog \<Rightarrow> u8 list \<Rightarrow> u16 \<Rightarrow> u16 option \<Rightarrow> (('w, 'z) usb_scheme, u8 \<times> u16 option \<times> u8 list) prog" where
  "Endpoint_Read_Stream_LE E I = Template_Endpoint_RW E I (Endpoint_ClearOUT E) offset_LE (+) (read_byte E)"

definition Endpoint_Read_Stream_BE :: "'w usb_avr \<Rightarrow> (('w, 'z) usb_scheme, unit) prog \<Rightarrow> u8 list \<Rightarrow> u16 \<Rightarrow> u16 option \<Rightarrow> (('w, 'z) usb_scheme, u8 \<times> u16 option \<times> u8 list) prog" where
  "Endpoint_Read_Stream_BE E I = Template_Endpoint_RW E I (Endpoint_ClearOUT E) offset_BE (-) (read_byte E)"

definition Endpoint_Write_PStream_LE :: "'w usb_avr \<Rightarrow> (('w, 'z) usb_scheme, unit) prog \<Rightarrow> u8 list \<Rightarrow> u16 \<Rightarrow> u16 option \<Rightarrow> (('w, 'z) usb_scheme, u8 \<times> u16 option \<times> u8 list) prog" where
  "Endpoint_Write_PStream_LE E I = Template_Endpoint_RW E I (Endpoint_ClearIN E) offset_LE (+) (write_byte E)"

definition Endpoint_Write_PStream_BE :: "'w usb_avr \<Rightarrow> (('w, 'z) usb_scheme, unit) prog \<Rightarrow> u8 list \<Rightarrow> u16 \<Rightarrow> u16 option \<Rightarrow> (('w, 'z) usb_scheme, u8 \<times> u16 option \<times> u8 list) prog" where
  "Endpoint_Write_PStream_BE E I = Template_Endpoint_RW E I (Endpoint_ClearIN E) offset_BE (-) (write_byte E)"

text \<open>\<^verbatim>\<open>Endpoint_Discard_Stream\<close> and \<^verbatim>\<open>Endpoint_Null_Stream\<close>: the same loop without a buffer.\<close>

fun null_loop ::
    "'w usb_avr \<Rightarrow> (('w, 'z) usb_scheme, unit) prog \<Rightarrow> (('w, 'z) usb_scheme, unit) prog \<Rightarrow> (('w, 'z) usb_scheme, unit) prog \<Rightarrow>
     nat \<Rightarrow> u16 \<Rightarrow> u16 \<Rightarrow> u16 option \<Rightarrow> (('w, 'z) usb_scheme, u8 \<times> u16 option) prog" where
  "null_loop E I clr xfer 0 Length BytesInTransfer BytesProcessed = pfail Diverge"
| "null_loop E I clr xfer (Suc n) Length BytesInTransfer BytesProcessed =
     (if Length = 0 then ret (ENDPOINT_RWSTREAM_NoError, BytesProcessed)
      else
        pif (Endpoint_IsReadWriteAllowed E)
          (pbind xfer (\<lambda>_. null_loop E I clr xfer n (Length - 1) (BytesInTransfer + 1) BytesProcessed))
          (pbind clr (\<lambda>_.
           case BytesProcessed of
             Some p \<Rightarrow> ret (ENDPOINT_RWSTREAM_IncompleteTransfer, Some (p + BytesInTransfer))
           | None \<Rightarrow>
               pbind (Endpoint_WaitUntilReady E I) (\<lambda>ErrorCode.
               if ErrorCode \<noteq> 0 then ret (ErrorCode, None)
               else null_loop E I clr xfer n Length BytesInTransfer None))))"

definition null_stream ::
    "'w usb_avr \<Rightarrow> (('w, 'z) usb_scheme, unit) prog \<Rightarrow> (('w, 'z) usb_scheme, unit) prog \<Rightarrow> (('w, 'z) usb_scheme, unit) prog \<Rightarrow>
     u16 \<Rightarrow> u16 option \<Rightarrow> (('w, 'z) usb_scheme, u8 \<times> u16 option) prog" where
  "null_stream E I clr xfer Length BytesProcessed =
     pbind (Endpoint_WaitUntilReady E I) (\<lambda>ErrorCode.
     if ErrorCode \<noteq> 0 then ret (ErrorCode, BytesProcessed)
     else
       (let rest = Length - (case BytesProcessed of None \<Rightarrow> 0 | Some p \<Rightarrow> p) in
        null_loop E I clr xfer (Suc (unat rest + polls E)) rest 0 BytesProcessed))"

definition Endpoint_Discard_Stream :: "'w usb_avr \<Rightarrow> (('w, 'z) usb_scheme, unit) prog \<Rightarrow> u16 \<Rightarrow> u16 option \<Rightarrow> (('w, 'z) usb_scheme, u8 \<times> u16 option) prog" where
  "Endpoint_Discard_Stream E I = null_stream E I (Endpoint_ClearOUT E) (Endpoint_Discard_8 E)"

definition Endpoint_Null_Stream :: "'w usb_avr \<Rightarrow> (('w, 'z) usb_scheme, unit) prog \<Rightarrow> u16 \<Rightarrow> u16 option \<Rightarrow> (('w, 'z) usb_scheme, u8 \<times> u16 option) prog" where
  "Endpoint_Null_Stream E I = null_stream E I (Endpoint_ClearIN E) (Endpoint_Write_8 E 0)"

section \<open>Streams on the control endpoint\<close>

text \<open>The two checks of the device state, and the look for a new SETUP packet.\<close>

definition control_state :: "(('w, 'z) usb_scheme, unit) prog \<Rightarrow> (('w, 'z) usb_scheme, u8 option) prog" where
  "control_state I =
     pbind I (\<lambda>_. pbind (pget USB_DeviceState) (\<lambda>USB_DeviceState_LCL.
     ret (if USB_DeviceState_LCL = DEVICE_STATE_Unattached then Some ENDPOINT_RWCSTREAM_DeviceDisconnected
          else if USB_DeviceState_LCL = DEVICE_STATE_Suspended then Some ENDPOINT_RWCSTREAM_BusSuspended
          else None)))"

definition control_abort :: "'w usb_avr \<Rightarrow> (('w, 'z) usb_scheme, unit) prog \<Rightarrow> (('w, 'z) usb_scheme, u8 option) prog" where
  "control_abort E I =
     pbind (control_state I) (\<lambda>e.
     case e of
       Some c \<Rightarrow> ret (Some c)
     | None \<Rightarrow> pif (Endpoint_IsSETUPReceived E) (ret (Some ENDPOINT_RWCSTREAM_HostAborted)) (ret None))"

text \<open>
  Filling one packet of \<^verbatim>\<open>Template_Endpoint_Control_W.c\<close>: at most \<^verbatim>\<open>USB_Device_ControlEndpointSize\<close> bytes,
  so \<open>Suc 8\<close> rounds see the loop out.
\<close>

fun control_fill :: "'w usb_avr \<Rightarrow> (int \<Rightarrow> int \<Rightarrow> int) \<Rightarrow> u8 list \<Rightarrow> nat \<Rightarrow> int \<Rightarrow> u16 \<Rightarrow> u16 \<Rightarrow> (('w, 'z) usb_scheme, int \<times> u16 \<times> u16) prog" where
  "control_fill E step buf 0 DataStream Length BytesInEndpoint = pfail Diverge"
| "control_fill E step buf (Suc k) DataStream Length BytesInEndpoint =
     (if Length \<noteq> 0 \<and> BytesInEndpoint < FIXED_CONTROL_ENDPOINT_SIZE then
        pbind (write_byte E DataStream buf) (\<lambda>_.
        control_fill E step buf k (step DataStream 1) (Length - 1) (BytesInEndpoint + 1))
      else ret (DataStream, Length, BytesInEndpoint))"

text \<open>The sending loop; \<open>None\<close> is the end of the loop, \<open>Some c\<close> a return with \<open>c\<close>.\<close>

fun control_send ::
    "'w usb_avr \<Rightarrow> (('w, 'z) usb_scheme, unit) prog \<Rightarrow> (int \<Rightarrow> int \<Rightarrow> int) \<Rightarrow> u8 list \<Rightarrow> nat \<Rightarrow> int \<Rightarrow> u16 \<Rightarrow> bool \<Rightarrow>
     (('w, 'z) usb_scheme, u8 option) prog" where
  "control_send E I step buf 0 DataStream Length LastPacketFull = pfail Diverge"
| "control_send E I step buf (Suc n) DataStream Length LastPacketFull =
     (if Length = 0 \<and> \<not> LastPacketFull then ret None
      else
        pbind (control_abort E I) (\<lambda>e.
        case e of
          Some c \<Rightarrow> ret (Some c)
        | None \<Rightarrow>
            pif (Endpoint_IsOUTReceived E) (ret None)
            (pif (Endpoint_IsINReady E)
               (pbind (Endpoint_BytesInEndpoint E) (\<lambda>b.
                pbind (control_fill E step buf 9 DataStream Length b) (\<lambda>(DataStream, Length, b).
                pbind (Endpoint_ClearIN E) (\<lambda>_.
                control_send E I step buf n DataStream Length (b = FIXED_CONTROL_ENDPOINT_SIZE)))))
               (control_send E I step buf n DataStream Length LastPacketFull))))"

definition Template_Endpoint_Control_W ::
    "'w usb_avr \<Rightarrow> (('w, 'z) usb_scheme, unit) prog \<Rightarrow> (u16 \<Rightarrow> int) \<Rightarrow> (int \<Rightarrow> int \<Rightarrow> int) \<Rightarrow> u8 list \<Rightarrow> u16 \<Rightarrow>
     (('w, 'z) usb_scheme, u8) prog" where
  "Template_Endpoint_Control_W E I offset step Buffer Length =
     pbind (pget USB_ControlRequest) (\<lambda>r.
     pbind (if Length > wLength r then ret (wLength r)
            else if Length = 0 then pbind (Endpoint_ClearIN E) (\<lambda>_. ret Length)
            else ret Length) (\<lambda>rest.
     pbind (control_send E I step Buffer (polls E) (offset Length) rest False) (\<lambda>e.
     case e of
       Some c \<Rightarrow> ret c
     | None \<Rightarrow>
         pbind (wait_for (polls E) (Endpoint_IsOUTReceived E) (control_abort E I)) (\<lambda>e.
         case e of Some c \<Rightarrow> ret c | None \<Rightarrow> ret ENDPOINT_RWCSTREAM_NoError))))"

definition Endpoint_Write_Control_Stream_LE :: "'w usb_avr \<Rightarrow> (('w, 'z) usb_scheme, unit) prog \<Rightarrow> u8 list \<Rightarrow> u16 \<Rightarrow> (('w, 'z) usb_scheme, u8) prog" where
  "Endpoint_Write_Control_Stream_LE E I = Template_Endpoint_Control_W E I offset_LE (+)"

definition Endpoint_Write_Control_Stream_BE :: "'w usb_avr \<Rightarrow> (('w, 'z) usb_scheme, unit) prog \<Rightarrow> u8 list \<Rightarrow> u16 \<Rightarrow> (('w, 'z) usb_scheme, u8) prog" where
  "Endpoint_Write_Control_Stream_BE E I = Template_Endpoint_Control_W E I offset_BE (-)"

definition Endpoint_Write_Control_PStream_LE :: "'w usb_avr \<Rightarrow> (('w, 'z) usb_scheme, unit) prog \<Rightarrow> u8 list \<Rightarrow> u16 \<Rightarrow> (('w, 'z) usb_scheme, u8) prog" where
  "Endpoint_Write_Control_PStream_LE E I = Template_Endpoint_Control_W E I offset_LE (+)"

definition Endpoint_Write_Control_PStream_BE :: "'w usb_avr \<Rightarrow> (('w, 'z) usb_scheme, unit) prog \<Rightarrow> u8 list \<Rightarrow> u16 \<Rightarrow> (('w, 'z) usb_scheme, u8) prog" where
  "Endpoint_Write_Control_PStream_BE E I = Template_Endpoint_Control_W E I offset_BE (-)"

text \<open>\<^verbatim>\<open>Template_Endpoint_Control_R.c\<close>: emptying one packet, at most one round per byte still wanted.\<close>

fun control_drain :: "'w usb_avr \<Rightarrow> (int \<Rightarrow> int \<Rightarrow> int) \<Rightarrow> nat \<Rightarrow> u8 list \<Rightarrow> int \<Rightarrow> u16 \<Rightarrow> (('w, 'z) usb_scheme, u8 list \<times> int \<times> u16) prog" where
  "control_drain E step 0 buf DataStream Length = pfail Diverge"
| "control_drain E step (Suc k) buf DataStream Length =
     (if Length = 0 then ret (buf, DataStream, Length)
      else
        pbind (Endpoint_BytesInEndpoint E) (\<lambda>b.
        if b = 0 then ret (buf, DataStream, Length)
        else
          pbind (read_byte E DataStream buf) (\<lambda>buf.
          control_drain E step k buf (step DataStream 1) (Length - 1))))"

fun control_receive ::
    "'w usb_avr \<Rightarrow> (('w, 'z) usb_scheme, unit) prog \<Rightarrow> (int \<Rightarrow> int \<Rightarrow> int) \<Rightarrow> nat \<Rightarrow> u8 list \<Rightarrow> int \<Rightarrow> u16 \<Rightarrow>
     (('w, 'z) usb_scheme, u8 option \<times> u8 list) prog" where
  "control_receive E I step 0 buf DataStream Length = pfail Diverge"
| "control_receive E I step (Suc n) buf DataStream Length =
     (if Length = 0 then ret (None, buf)
      else
        pbind (control_abort E I) (\<lambda>e.
        case e of
          Some c \<Rightarrow> ret (Some c, buf)
        | None \<Rightarrow>
            pif (Endpoint_IsOUTReceived E)
              (pbind (control_drain E step (Suc (unat Length)) buf DataStream Length) (\<lambda>(buf, DataStream, Length).
               pbind (Endpoint_ClearOUT E) (\<lambda>_. control_receive E I step n buf DataStream Length)))
              (control_receive E I step n buf DataStream Length)))"

definition Template_Endpoint_Control_R ::
    "'w usb_avr \<Rightarrow> (('w, 'z) usb_scheme, unit) prog \<Rightarrow> (u16 \<Rightarrow> int) \<Rightarrow> (int \<Rightarrow> int \<Rightarrow> int) \<Rightarrow> u8 list \<Rightarrow> u16 \<Rightarrow>
     (('w, 'z) usb_scheme, u8 \<times> u8 list) prog" where
  "Template_Endpoint_Control_R E I offset step Buffer Length =
     pbind (pwhen (Length = 0) (Endpoint_ClearOUT E)) (\<lambda>_.
     pbind (control_receive E I step (polls E) Buffer (offset Length) Length) (\<lambda>(e, buf).
     case e of
       Some c \<Rightarrow> ret (c, buf)
     | None \<Rightarrow>
         pbind (wait_for (polls E) (Endpoint_IsINReady E) (control_state I)) (\<lambda>e.
         ret (case e of Some c \<Rightarrow> c | None \<Rightarrow> ENDPOINT_RWCSTREAM_NoError, buf))))"

definition Endpoint_Read_Control_Stream_LE :: "'w usb_avr \<Rightarrow> (('w, 'z) usb_scheme, unit) prog \<Rightarrow> u8 list \<Rightarrow> u16 \<Rightarrow> (('w, 'z) usb_scheme, u8 \<times> u8 list) prog" where
  "Endpoint_Read_Control_Stream_LE E I = Template_Endpoint_Control_R E I offset_LE (+)"

definition Endpoint_Read_Control_Stream_BE :: "'w usb_avr \<Rightarrow> (('w, 'z) usb_scheme, unit) prog \<Rightarrow> u8 list \<Rightarrow> u16 \<Rightarrow> (('w, 'z) usb_scheme, u8 \<times> u8 list) prog" where
  "Endpoint_Read_Control_Stream_BE E I = Template_Endpoint_Control_R E I offset_BE (-)"

end
