(* ===== verification/Usb_Device.thy ===== *)
theory Usb_Device
  imports Usb_Stream
begin

text \<open>
  The standard requests of a USB device, \<^verbatim>\<open>DeviceStandardReq.c\<close>, with the control interrupt
  \<^verbatim>\<open>USB_COM_vect\<close> and the task of \<^verbatim>\<open>USBTask.c\<close> that run them. Handlers are defined in the order of the file,
  after the dispatcher's parts; inside a handler only the general interrupt can be taken, which is
  \<open>gen_point E A\<close> at the places where the code waits. The firmware is built with
  \<^verbatim>\<open>FIXED_NUM_CONFIGURATIONS\<close>, \<^verbatim>\<open>USE_FLASH_DESCRIPTORS\<close> and an internal serial number.
\<close>

definition REQ_GetStatus :: u8 where "REQ_GetStatus = 0"
definition REQ_ClearFeature :: u8 where "REQ_ClearFeature = 1"
definition REQ_SetFeature :: u8 where "REQ_SetFeature = 3"
definition REQ_SetAddress :: u8 where "REQ_SetAddress = 5"
definition REQ_GetDescriptor :: u8 where "REQ_GetDescriptor = 6"
definition REQ_GetConfiguration :: u8 where "REQ_GetConfiguration = 8"
definition REQ_SetConfiguration :: u8 where "REQ_SetConfiguration = 9"

text \<open>Request types: direction in bit 7, type in bits 6 and 5, recipient below.\<close>

definition HOSTTODEVICE_DEVICE :: u8 where "HOSTTODEVICE_DEVICE = 0x00"
definition HOSTTODEVICE_ENDPOINT :: u8 where "HOSTTODEVICE_ENDPOINT = 0x02"
definition DEVICETOHOST_DEVICE :: u8 where "DEVICETOHOST_DEVICE = 0x80"
definition DEVICETOHOST_INTERFACE :: u8 where "DEVICETOHOST_INTERFACE = 0x81"
definition DEVICETOHOST_ENDPOINT :: u8 where "DEVICETOHOST_ENDPOINT = 0x82"

lemmas req_consts = REQ_GetStatus_def REQ_ClearFeature_def REQ_SetFeature_def REQ_SetAddress_def REQ_GetDescriptor_def
  REQ_GetConfiguration_def REQ_SetConfiguration_def HOSTTODEVICE_DEVICE_def HOSTTODEVICE_ENDPOINT_def
  DEVICETOHOST_DEVICE_def DEVICETOHOST_INTERFACE_def DEVICETOHOST_ENDPOINT_def

definition FIXED_NUM_CONFIGURATIONS :: u8 where "FIXED_NUM_CONFIGURATIONS = 1"
definition USE_INTERNAL_SERIAL :: u16 where "USE_INTERNAL_SERIAL = 0xDC"
definition DTYPE_String :: u16 where "DTYPE_String = 0x03"
definition NO_DESCRIPTOR :: u16 where "NO_DESCRIPTOR = 0"

section \<open>Handlers\<close>

definition USB_Device_SetAddress :: "'w usb_avr \<Rightarrow> ('w, 'z) usb_scheme usb_app \<Rightarrow> (('w, 'z) usb_scheme, unit) prog" where
  "USB_Device_SetAddress E A =
     pbind (pget USB_ControlRequest) (\<lambda>r.
     let DeviceAddress = ucast (wValue r) AND 0x7F in
     pseq [USB_Device_SetDeviceAddress E DeviceAddress,
           Endpoint_ClearSETUP E,
           Endpoint_ClearStatusStage E (gen_point E A),
           pbind (wait_for (polls E) (Endpoint_IsINReady E) (pbind (gen_point E A) (\<lambda>_. ret (None :: unit option)))) (\<lambda>_. ret ()),
           USB_Device_EnableDeviceAddress E DeviceAddress,
           set_state (if DeviceAddress \<noteq> 0 then DEVICE_STATE_Addressed else DEVICE_STATE_Default)])"

definition USB_Device_SetConfiguration :: "'w usb_avr \<Rightarrow> ('w, 'z) usb_scheme usb_app \<Rightarrow> (('w, 'z) usb_scheme, unit) prog" where
  "USB_Device_SetConfiguration E A =
     pbind (pget USB_ControlRequest) (\<lambda>r.
     if ucast (wValue r) > FIXED_NUM_CONFIGURATIONS then ret ()
     else
       pseq [Endpoint_ClearSETUP E,
             pmod (\<lambda>s. s\<lparr>USB_Device_ConfigurationNumber := ucast (wValue r)\<rparr>),
             Endpoint_ClearStatusStage E (gen_point E A),
             pbind (pget USB_Device_ConfigurationNumber) (\<lambda>n.
             if n \<noteq> 0 then set_state DEVICE_STATE_Configured
             else pif (USB_Device_IsAddressSet E) (set_state DEVICE_STATE_Configured) (set_state DEVICE_STATE_Powered)),
             on_ConfigurationChanged A])"

definition USB_Device_GetConfiguration :: "'w usb_avr \<Rightarrow> ('w, 'z) usb_scheme usb_app \<Rightarrow> (('w, 'z) usb_scheme, unit) prog" where
  "USB_Device_GetConfiguration E A =
     pseq [Endpoint_ClearSETUP E,
           pbind (pget USB_Device_ConfigurationNumber) (Endpoint_Write_8 E),
           Endpoint_ClearIN E,
           Endpoint_ClearStatusStage E (gen_point E A)]"

text \<open>The serial number as a string descriptor: a header of two bytes, then 20 characters of two.\<close>

definition serial_descriptor :: "u16 list \<Rightarrow> u8 list" where
  "serial_descriptor UnicodeString =
     [of_nat (2 + 2 * (INTERNAL_SERIAL_LENGTH_BITS div 4)), ucast DTYPE_String] @ concat (map le16 UnicodeString)"

definition USB_Device_GetInternalSerialDescriptor :: "'w usb_avr \<Rightarrow> ('w, 'z) usb_scheme usb_app \<Rightarrow> (('w, 'z) usb_scheme, unit) prog" where
  "USB_Device_GetInternalSerialDescriptor E A =
     pbind (USB_Device_GetSerialString E) (\<lambda>UnicodeString.
     pbind (Endpoint_ClearSETUP E) (\<lambda>_.
     pbind (Endpoint_Write_Control_Stream_LE E (gen_point E A) (serial_descriptor UnicodeString)
              (of_nat (2 + 2 * (INTERNAL_SERIAL_LENGTH_BITS div 4)))) (\<lambda>_.
     Endpoint_ClearOUT E)))"

text \<open>A NULL address has no bytes: reading one through it is a fault.\<close>

definition USB_Device_GetDescriptor :: "'w usb_avr \<Rightarrow> ('w, 'z) usb_scheme usb_app \<Rightarrow> (('w, 'z) usb_scheme, unit) prog" where
  "USB_Device_GetDescriptor E A =
     pbind (pget USB_ControlRequest) (\<lambda>r.
     if wValue r = (push_bit 8 DTYPE_String OR USE_INTERNAL_SERIAL) then USB_Device_GetInternalSerialDescriptor E A
     else
       (case get_descriptor A (wValue r) (ucast (wIndex r)) of (DescriptorSize, DescriptorPointer) \<Rightarrow>
        if DescriptorSize = NO_DESCRIPTOR then ret ()
        else
          pbind (Endpoint_ClearSETUP E) (\<lambda>_.
          pbind (Endpoint_Write_Control_PStream_LE E (gen_point E A)
                   (case DescriptorPointer of None \<Rightarrow> [] | Some bytes \<Rightarrow> bytes) DescriptorSize) (\<lambda>_.
          Endpoint_ClearOUT E))))"

definition FEATURE_SELFPOWERED_ENABLED :: u8 where "FEATURE_SELFPOWERED_ENABLED = bv 0"
definition FEATURE_REMOTE_WAKEUP_ENABLED :: u8 where "FEATURE_REMOTE_WAKEUP_ENABLED = bv 1"

definition device_status :: "('w, 'z) usb_scheme \<Rightarrow> u8" where
  "device_status s =
     (if USB_Device_CurrentlySelfPowered s then FEATURE_SELFPOWERED_ENABLED else 0) OR
     (if USB_Device_RemoteWakeupEnabled s then FEATURE_REMOTE_WAKEUP_ENABLED else 0)"

definition send_status :: "'w usb_avr \<Rightarrow> ('w, 'z) usb_scheme usb_app \<Rightarrow> u8 \<Rightarrow> (('w, 'z) usb_scheme, unit) prog" where
  "send_status E A CurrentStatus =
     pseq [Endpoint_ClearSETUP E,
           Endpoint_Write_16_LE E (ucast CurrentStatus),
           Endpoint_ClearIN E,
           Endpoint_ClearStatusStage E (gen_point E A)]"

definition USB_Device_GetStatus :: "'w usb_avr \<Rightarrow> ('w, 'z) usb_scheme usb_app \<Rightarrow> (('w, 'z) usb_scheme, unit) prog" where
  "USB_Device_GetStatus E A =
     pbind (pget USB_ControlRequest) (\<lambda>r.
     if bmRequestType r = DEVICETOHOST_DEVICE then pbind (pget device_status) (send_status E A)
     else if bmRequestType r = DEVICETOHOST_ENDPOINT then
       pbind (Endpoint_SelectEndpoint E (ucast (wIndex r) AND ENDPOINT_EPNUM_MASK)) (\<lambda>_.
       pbind (Endpoint_IsStalled E) (\<lambda>stalled.
       pbind (Endpoint_SelectEndpoint E ENDPOINT_CONTROLEP) (\<lambda>_.
       send_status E A (if stalled then 1 else 0))))
     else ret ())"

definition FEATURE_SEL_EndpointHalt :: u8 where "FEATURE_SEL_EndpointHalt = 0x00"
definition FEATURE_SEL_DeviceRemoteWakeup :: u8 where "FEATURE_SEL_DeviceRemoteWakeup = 0x01"

definition feature_done :: "'w usb_avr \<Rightarrow> ('w, 'z) usb_scheme usb_app \<Rightarrow> (('w, 'z) usb_scheme, unit) prog" where
  "feature_done E A =
     pseq [Endpoint_SelectEndpoint E ENDPOINT_CONTROLEP, Endpoint_ClearSETUP E, Endpoint_ClearStatusStage E (gen_point E A)]"

definition halt_endpoint :: "'w usb_avr \<Rightarrow> u8 \<Rightarrow> bool \<Rightarrow> (('w, 'z) usb_scheme, unit) prog" where
  "halt_endpoint E EndpointIndex halt =
     pbind (Endpoint_SelectEndpoint E EndpointIndex) (\<lambda>_.
     pif (Endpoint_IsEnabled E)
       (if halt then Endpoint_StallTransaction E
        else pseq [Endpoint_ClearStall E, Endpoint_ResetEndpoint E EndpointIndex, Endpoint_ResetDataToggle E])
       (ret ()))"

definition USB_Device_ClearSetFeature :: "'w usb_avr \<Rightarrow> ('w, 'z) usb_scheme usb_app \<Rightarrow> (('w, 'z) usb_scheme, unit) prog" where
  "USB_Device_ClearSetFeature E A =
     pbind (pget USB_ControlRequest) (\<lambda>r.
     let recipient = bmRequestType r AND 0x1F;
         EndpointIndex = ucast (wIndex r) AND ENDPOINT_EPNUM_MASK in
     if recipient = 0 then
       if ucast (wValue r) = FEATURE_SEL_DeviceRemoteWakeup then
         pbind (pmod (\<lambda>s. s\<lparr>USB_Device_RemoteWakeupEnabled := (bRequest r = REQ_SetFeature)\<rparr>)) (\<lambda>_. feature_done E A)
       else ret ()
     else if recipient = 2 then
       if ucast (wValue r) = FEATURE_SEL_EndpointHalt then
         if EndpointIndex = ENDPOINT_CONTROLEP then ret ()
         else pbind (halt_endpoint E EndpointIndex (bRequest r = REQ_SetFeature)) (\<lambda>_. feature_done E A)
       else feature_done E A
     else ret ())"

section \<open>Dispatch\<close>

definition request_of_bytes :: "u8 list \<Rightarrow> USB_Request_Header" where
  "request_of_bytes b =
     \<lparr>bmRequestType = b ! 0, bRequest = b ! 1, wValue = of_le16 (b ! 2) (b ! 3),
      wIndex = of_le16 (b ! 4) (b ! 5), wLength = of_le16 (b ! 6) (b ! 7)\<rparr>"

primrec read_header :: "'w usb_avr \<Rightarrow> nat \<Rightarrow> (('w, 'z) usb_scheme, u8 list) prog" where
  "read_header E 0 = ret []"
| "read_header E (Suc n) = pbind (Endpoint_Read_8 E) (\<lambda>b. pbind (read_header E n) (\<lambda>bs. ret (b # bs)))"

definition standard_request :: "'w usb_avr \<Rightarrow> ('w, 'z) usb_scheme usb_app \<Rightarrow> (('w, 'z) usb_scheme, unit) prog" where
  "standard_request E A =
     pbind (pget USB_ControlRequest) (\<lambda>r.
     let t = bmRequestType r; q = bRequest r in
     if q = REQ_GetStatus then
       pwhen (t = DEVICETOHOST_DEVICE \<or> t = DEVICETOHOST_ENDPOINT) (USB_Device_GetStatus E A)
     else if q = REQ_ClearFeature \<or> q = REQ_SetFeature then
       pwhen (t = HOSTTODEVICE_DEVICE \<or> t = HOSTTODEVICE_ENDPOINT) (USB_Device_ClearSetFeature E A)
     else if q = REQ_SetAddress then
       pwhen (t = HOSTTODEVICE_DEVICE) (USB_Device_SetAddress E A)
     else if q = REQ_GetDescriptor then
       pwhen (t = DEVICETOHOST_DEVICE \<or> t = DEVICETOHOST_INTERFACE) (USB_Device_GetDescriptor E A)
     else if q = REQ_GetConfiguration then
       pwhen (t = DEVICETOHOST_DEVICE) (USB_Device_GetConfiguration E A)
     else if q = REQ_SetConfiguration then
       pwhen (t = HOSTTODEVICE_DEVICE) (USB_Device_SetConfiguration E A)
     else ret ())"

definition USB_Device_ProcessControlRequest :: "'w usb_avr \<Rightarrow> ('w, 'z) usb_scheme usb_app \<Rightarrow> (('w, 'z) usb_scheme, unit) prog" where
  "USB_Device_ProcessControlRequest E A =
     pseq [pbind (read_header E 8) (\<lambda>b. pmod (\<lambda>s. s\<lparr>USB_ControlRequest := request_of_bytes b\<rparr>)),
           on_ControlRequest A,
           pif (Endpoint_IsSETUPReceived E) (standard_request E A) (ret ()),
           pif (Endpoint_IsSETUPReceived E) (pseq [Endpoint_ClearSETUP E, Endpoint_StallTransaction E]) (ret ())]"

section \<open>The control interrupt and the task\<close>

definition USB_COM_vect :: "'w usb_avr \<Rightarrow> ('w, 'z) usb_scheme usb_app \<Rightarrow> (('w, 'z) usb_scheme, unit) prog" where
  "USB_COM_vect E A =
     pbind (Endpoint_GetCurrentEndpoint E) (\<lambda>PrevSelectedEndpoint.
     pseq [Endpoint_SelectEndpoint E ENDPOINT_CONTROLEP,
           USB_INT_Disable E USB_INT_RXSTPI,
           reg_or E SREG (bv 7),
           USB_Device_ProcessControlRequest E A,
           Endpoint_SelectEndpoint E ENDPOINT_CONTROLEP,
           USB_INT_Enable E USB_INT_RXSTPI,
           Endpoint_SelectEndpoint E PrevSelectedEndpoint])"

text \<open>A point of the main program where either interrupt may be taken.\<close>

definition irq_point :: "'w usb_avr \<Rightarrow> ('w, 'z) usb_scheme usb_app \<Rightarrow> (('w, 'z) usb_scheme, unit) prog" where
  "irq_point E A = pseq [gen_point E A, pif (outside (com_pending E)) (USB_COM_vect E A) (ret ())]"

definition USB_DeviceTask :: "'w usb_avr \<Rightarrow> ('w, 'z) usb_scheme usb_app \<Rightarrow> (('w, 'z) usb_scheme, unit) prog" where
  "USB_DeviceTask E A =
     pbind (pget USB_DeviceState) (\<lambda>d.
     if d = DEVICE_STATE_Unattached then ret ()
     else
       pbind (Endpoint_GetCurrentEndpoint E) (\<lambda>PrevEndpoint.
       pseq [Endpoint_SelectEndpoint E ENDPOINT_CONTROLEP,
             pif (Endpoint_IsSETUPReceived E) (USB_Device_ProcessControlRequest E A) (ret ()),
             Endpoint_SelectEndpoint E PrevEndpoint]))"

definition USB_USBTask :: "'w usb_avr \<Rightarrow> ('w, 'z) usb_scheme usb_app \<Rightarrow> (('w, 'z) usb_scheme, unit) prog" where
  "USB_USBTask E A = USB_DeviceTask E A"

end
