(* ===== verification/Cdc_Device.thy ===== *)
theory Cdc_Device
  imports Usb_Device
begin

text \<open>
  The CDC class driver in device mode, \<^verbatim>\<open>CDCClassDevice.c\<close>: the class requests that carry the line
  encoding and the control lines, the data endpoints, and the character device that becomes
  \<^verbatim>\<open>stdin\<close> and \<^verbatim>\<open>stdout\<close>. The one interface structure of the firmware is the field \<open>CDCInterfaceInfo\<close> of
  the state; every public operation is here. The events of the driver are weak symbols that nothing
  in the sources overrides: they are \<^verbatim>\<open>CDC_Device_Event_Stub\<close>.
\<close>

section \<open>The interface structure\<close>

record CDC_LineEncoding =
  BaudRateBPS :: u32
  CharFormat :: u8
  ParityType :: u8
  DataBits :: u8

record CDC_Config =
  ControlInterfaceNumber :: u8
  DataINEndpoint :: USB_Endpoint_Table
  DataOUTEndpoint :: USB_Endpoint_Table
  NotificationEndpoint :: USB_Endpoint_Table

record CDC_State =
  HostToDevice :: u16
  DeviceToHost :: u16
  LineEncoding :: CDC_LineEncoding

record USB_ClassInfo_CDC_Device =
  Config :: CDC_Config
  State :: CDC_State

record 'w cdc = "'w usb" +
  CDCInterfaceInfo :: USB_ClassInfo_CDC_Device

abbreviation cdc_config :: "('w, 'z) cdc_scheme \<Rightarrow> CDC_Config" where
  "cdc_config s \<equiv> Config (CDCInterfaceInfo s)"

abbreviation cdc_state :: "('w, 'z) cdc_scheme \<Rightarrow> CDC_State" where
  "cdc_state s \<equiv> State (CDCInterfaceInfo s)"

definition set_cdc_state :: "(CDC_State \<Rightarrow> CDC_State) \<Rightarrow> (('w, 'z) cdc_scheme, unit) prog" where
  "set_cdc_state f = pmod (\<lambda>s. s\<lparr>CDCInterfaceInfo := (CDCInterfaceInfo s)\<lparr>State := f (cdc_state s)\<rparr>\<rparr>)"

definition CDC_REQ_SetLineEncoding :: u8 where "CDC_REQ_SetLineEncoding = 0x20"
definition CDC_REQ_GetLineEncoding :: u8 where "CDC_REQ_GetLineEncoding = 0x21"
definition CDC_REQ_SetControlLineState :: u8 where "CDC_REQ_SetControlLineState = 0x22"
definition CDC_REQ_SendBreak :: u8 where "CDC_REQ_SendBreak = 0x23"
definition CDC_NOTIF_SerialState :: u8 where "CDC_NOTIF_SerialState = 0x20"
definition CLASS_HOSTTODEVICE_INTERFACE :: u8 where "CLASS_HOSTTODEVICE_INTERFACE = 0x21"
definition CLASS_DEVICETOHOST_INTERFACE :: u8 where "CLASS_DEVICETOHOST_INTERFACE = 0xA1"

lemmas cdc_consts = CDC_REQ_SetLineEncoding_def CDC_REQ_GetLineEncoding_def CDC_REQ_SetControlLineState_def
  CDC_REQ_SendBreak_def CDC_NOTIF_SerialState_def CLASS_HOSTTODEVICE_INTERFACE_def CLASS_DEVICETOHOST_INTERFACE_def

definition CDC_Device_Event_Stub :: "('s, unit) prog" where
  "CDC_Device_Event_Stub = ret ()"

section \<open>Class requests\<close>

definition get_line_encoding :: "'w usb_avr \<Rightarrow> (('w, 'z) cdc_scheme, unit) prog \<Rightarrow> (('w, 'z) cdc_scheme, unit) prog" where
  "get_line_encoding E I =
     pseq [Endpoint_ClearSETUP E,
           pbind (wait_for (polls E) (Endpoint_IsINReady E) (pbind I (\<lambda>_. ret (None :: unit option)))) (\<lambda>_. ret ()),
           pbind (pget (\<lambda>s. BaudRateBPS (LineEncoding (cdc_state s)))) (Endpoint_Write_32_LE E),
           pbind (pget (\<lambda>s. CharFormat (LineEncoding (cdc_state s)))) (Endpoint_Write_8 E),
           pbind (pget (\<lambda>s. ParityType (LineEncoding (cdc_state s)))) (Endpoint_Write_8 E),
           pbind (pget (\<lambda>s. DataBits (LineEncoding (cdc_state s)))) (Endpoint_Write_8 E),
           Endpoint_ClearIN E,
           Endpoint_ClearStatusStage E I]"

definition set_line_encoding :: "'w usb_avr \<Rightarrow> (('w, 'z) cdc_scheme, unit) prog \<Rightarrow> (('w, 'z) cdc_scheme, unit) prog" where
  "set_line_encoding E I =
     pbind (Endpoint_ClearSETUP E) (\<lambda>_.
     pbind (wait_for (polls E) (Endpoint_IsOUTReceived E) (if_unattached I)) (\<lambda>e.
     case e of
       Some _ \<Rightarrow> ret ()
     | None \<Rightarrow>
         pseq [pbind (Endpoint_Read_32_LE E) (\<lambda>v. set_cdc_state (\<lambda>c. c\<lparr>LineEncoding := (LineEncoding c)\<lparr>BaudRateBPS := v\<rparr>\<rparr>)),
               pbind (Endpoint_Read_8 E) (\<lambda>v. set_cdc_state (\<lambda>c. c\<lparr>LineEncoding := (LineEncoding c)\<lparr>CharFormat := v\<rparr>\<rparr>)),
               pbind (Endpoint_Read_8 E) (\<lambda>v. set_cdc_state (\<lambda>c. c\<lparr>LineEncoding := (LineEncoding c)\<lparr>ParityType := v\<rparr>\<rparr>)),
               pbind (Endpoint_Read_8 E) (\<lambda>v. set_cdc_state (\<lambda>c. c\<lparr>LineEncoding := (LineEncoding c)\<lparr>DataBits := v\<rparr>\<rparr>)),
               Endpoint_ClearOUT E,
               Endpoint_ClearStatusStage E I,
               CDC_Device_Event_Stub]))"

definition CDC_Device_ProcessControlRequest :: "'w usb_avr \<Rightarrow> (('w, 'z) cdc_scheme, unit) prog \<Rightarrow> (('w, 'z) cdc_scheme, unit) prog" where
  "CDC_Device_ProcessControlRequest E I =
     pif (Endpoint_IsSETUPReceived E)
       (pbind (pget USB_ControlRequest) (\<lambda>r. pbind (pget cdc_config) (\<lambda>c.
        let t = bmRequestType r; q = bRequest r in
        if wIndex r \<noteq> ucast (ControlInterfaceNumber c) then ret ()
        else if q = CDC_REQ_GetLineEncoding then
          pwhen (t = CLASS_DEVICETOHOST_INTERFACE) (get_line_encoding E I)
        else if q = CDC_REQ_SetLineEncoding then
          pwhen (t = CLASS_HOSTTODEVICE_INTERFACE) (set_line_encoding E I)
        else if q = CDC_REQ_SetControlLineState then
          pwhen (t = CLASS_HOSTTODEVICE_INTERFACE)
            (pseq [Endpoint_ClearSETUP E, Endpoint_ClearStatusStage E I,
                   pbind (pget USB_ControlRequest) (\<lambda>r. set_cdc_state (\<lambda>c. c\<lparr>HostToDevice := wValue r\<rparr>)),
                   CDC_Device_Event_Stub])
        else if q = CDC_REQ_SendBreak then
          pwhen (t = CLASS_HOSTTODEVICE_INTERFACE)
            (pseq [Endpoint_ClearSETUP E, Endpoint_ClearStatusStage E I, CDC_Device_Event_Stub])
        else ret ())))
       (ret ())"

section \<open>Configuration and housekeeping\<close>

definition zero_state :: CDC_State where
  "zero_state = \<lparr>HostToDevice = 0, DeviceToHost = 0,
     LineEncoding = \<lparr>BaudRateBPS = 0, CharFormat = 0, ParityType = 0, DataBits = 0\<rparr>\<rparr>"

definition typed_config :: "CDC_Config \<Rightarrow> CDC_Config" where
  "typed_config c = c\<lparr>
     DataINEndpoint := (DataINEndpoint c)\<lparr>ep_Type := EP_TYPE_BULK\<rparr>,
     DataOUTEndpoint := (DataOUTEndpoint c)\<lparr>ep_Type := EP_TYPE_BULK\<rparr>,
     NotificationEndpoint := (NotificationEndpoint c)\<lparr>ep_Type := EP_TYPE_INTERRUPT\<rparr>\<rparr>"

definition CDC_Device_ConfigureEndpoints :: "'w usb_avr \<Rightarrow> (('w, 'z) cdc_scheme, bool) prog" where
  "CDC_Device_ConfigureEndpoints E =
     pbind (set_cdc_state (\<lambda>_. zero_state)) (\<lambda>_.
     pbind (pmod (\<lambda>s. s\<lparr>CDCInterfaceInfo := (CDCInterfaceInfo s)\<lparr>Config := typed_config (cdc_config s)\<rparr>\<rparr>)) (\<lambda>_.
     pbind (pget cdc_config) (\<lambda>c.
     pif (Endpoint_ConfigureEndpointTable E [DataINEndpoint c])
       (pif (Endpoint_ConfigureEndpointTable E [DataOUTEndpoint c])
          (pif (Endpoint_ConfigureEndpointTable E [NotificationEndpoint c]) (ret True) (ret False))
          (ret False))
       (ret False))))"

text \<open>The guard of every data operation: configured, and the host has set a line encoding.\<close>

definition cdc_closed :: "('w, 'z) cdc_scheme \<Rightarrow> bool" where
  "cdc_closed s \<longleftrightarrow> USB_DeviceState s \<noteq> DEVICE_STATE_Configured \<or> BaudRateBPS (LineEncoding (cdc_state s)) = 0"

definition CDC_Device_Flush :: "'w usb_avr \<Rightarrow> (('w, 'z) cdc_scheme, unit) prog \<Rightarrow> (('w, 'z) cdc_scheme, u8) prog" where
  "CDC_Device_Flush E I =
     pif (pget cdc_closed) (ret ENDPOINT_RWSTREAM_DeviceDisconnected)
     (pbind (pget cdc_config) (\<lambda>c.
      pbind (Endpoint_SelectEndpoint E (ep_Address (DataINEndpoint c))) (\<lambda>_.
      pbind (Endpoint_BytesInEndpoint E) (\<lambda>b.
      if b = 0 then ret ENDPOINT_READYWAIT_NoError
      else
        pbind (Endpoint_IsReadWriteAllowed E) (\<lambda>rwal.
        pbind (Endpoint_ClearIN E) (\<lambda>_.
        if \<not> rwal then
          pbind (Endpoint_WaitUntilReady E I) (\<lambda>ErrorCode.
          if ErrorCode \<noteq> ENDPOINT_READYWAIT_NoError then ret ErrorCode
          else pbind (Endpoint_ClearIN E) (\<lambda>_. ret ENDPOINT_READYWAIT_NoError))
        else ret ENDPOINT_READYWAIT_NoError))))))"

definition CDC_Device_USBTask :: "'w usb_avr \<Rightarrow> (('w, 'z) cdc_scheme, unit) prog \<Rightarrow> (('w, 'z) cdc_scheme, unit) prog" where
  "CDC_Device_USBTask E I =
     pif (pget cdc_closed) (ret ())
     (pbind (pget cdc_config) (\<lambda>c.
      pbind (Endpoint_SelectEndpoint E (ep_Address (DataINEndpoint c))) (\<lambda>_.
      pif (Endpoint_IsINReady E) (pbind (CDC_Device_Flush E I) (\<lambda>_. ret ())) (ret ()))))"

section \<open>Data\<close>

definition cdc_send ::
    "'w usb_avr \<Rightarrow> (('w, 'z) cdc_scheme, u8 \<times> u16 option \<times> u8 list) prog \<Rightarrow> (('w, 'z) cdc_scheme, u8) prog" where
  "cdc_send E stream =
     pif (pget cdc_closed) (ret ENDPOINT_RWSTREAM_DeviceDisconnected)
     (pbind (pget cdc_config) (\<lambda>c.
      pbind (Endpoint_SelectEndpoint E (ep_Address (DataINEndpoint c))) (\<lambda>_.
      pbind stream (\<lambda>(ErrorCode, _). ret ErrorCode))))"

definition CDC_Device_SendData :: "'w usb_avr \<Rightarrow> (('w, 'z) cdc_scheme, unit) prog \<Rightarrow> u8 list \<Rightarrow> u16 \<Rightarrow> (('w, 'z) cdc_scheme, u8) prog" where
  "CDC_Device_SendData E I Buffer Length = cdc_send E (Endpoint_Write_Stream_LE E I Buffer Length None)"

definition CDC_Device_SendData_P :: "'w usb_avr \<Rightarrow> (('w, 'z) cdc_scheme, unit) prog \<Rightarrow> u8 list \<Rightarrow> u16 \<Rightarrow> (('w, 'z) cdc_scheme, u8) prog" where
  "CDC_Device_SendData_P E I Buffer Length = cdc_send E (Endpoint_Write_PStream_LE E I Buffer Length None)"

definition CDC_Device_SendString :: "'w usb_avr \<Rightarrow> (('w, 'z) cdc_scheme, unit) prog \<Rightarrow> u8 list \<Rightarrow> (('w, 'z) cdc_scheme, u8) prog" where
  "CDC_Device_SendString E I String =
     cdc_send E (pbind (plift (strlen String)) (\<lambda>n. Endpoint_Write_Stream_LE E I String (of_nat n) None))"

definition CDC_Device_SendString_P :: "'w usb_avr \<Rightarrow> (('w, 'z) cdc_scheme, unit) prog \<Rightarrow> u8 list \<Rightarrow> (('w, 'z) cdc_scheme, u8) prog" where
  "CDC_Device_SendString_P E I String =
     cdc_send E (pbind (plift (strlen String)) (\<lambda>n. Endpoint_Write_PStream_LE E I String (of_nat n) None))"

definition CDC_Device_SendByte :: "'w usb_avr \<Rightarrow> (('w, 'z) cdc_scheme, unit) prog \<Rightarrow> u8 \<Rightarrow> (('w, 'z) cdc_scheme, u8) prog" where
  "CDC_Device_SendByte E I Data =
     pif (pget cdc_closed) (ret ENDPOINT_RWSTREAM_DeviceDisconnected)
     (pbind (pget cdc_config) (\<lambda>c.
      pbind (Endpoint_SelectEndpoint E (ep_Address (DataINEndpoint c))) (\<lambda>_.
      pbind (pif (Endpoint_IsReadWriteAllowed E) (ret ENDPOINT_READYWAIT_NoError)
               (pbind (Endpoint_ClearIN E) (\<lambda>_. Endpoint_WaitUntilReady E I))) (\<lambda>ErrorCode.
      if ErrorCode \<noteq> ENDPOINT_READYWAIT_NoError then ret ErrorCode
      else pbind (Endpoint_Write_8 E Data) (\<lambda>_. ret ENDPOINT_READYWAIT_NoError)))))"

definition CDC_Device_BytesReceived :: "'w usb_avr \<Rightarrow> (('w, 'z) cdc_scheme, u16) prog" where
  "CDC_Device_BytesReceived E =
     pif (pget cdc_closed) (ret 0)
     (pbind (pget cdc_config) (\<lambda>c.
      pbind (Endpoint_SelectEndpoint E (ep_Address (DataOUTEndpoint c))) (\<lambda>_.
      pif (Endpoint_IsOUTReceived E)
        (pbind (Endpoint_BytesInEndpoint E) (\<lambda>b.
         if b = 0 then pbind (Endpoint_ClearOUT E) (\<lambda>_. ret 0) else Endpoint_BytesInEndpoint E))
        (ret 0))))"

text \<open>\<^verbatim>\<open>int16_t\<close>: a byte, or -1.\<close>

definition CDC_Device_ReceiveByte :: "'w usb_avr \<Rightarrow> (('w, 'z) cdc_scheme, int) prog" where
  "CDC_Device_ReceiveByte E =
     pif (pget cdc_closed) (ret (-1))
     (pbind (pget cdc_config) (\<lambda>c.
      pbind (Endpoint_SelectEndpoint E (ep_Address (DataOUTEndpoint c))) (\<lambda>_.
      pif (Endpoint_IsOUTReceived E)
        (pbind (Endpoint_BytesInEndpoint E) (\<lambda>b.
         pbind (if b \<noteq> 0 then pbind (Endpoint_Read_8 E) (\<lambda>x. ret (uint x)) else ret (-1)) (\<lambda>ReceivedByte.
         pbind (Endpoint_BytesInEndpoint E) (\<lambda>b.
         pbind (pwhen (b = 0) (Endpoint_ClearOUT E)) (\<lambda>_. ret ReceivedByte)))))
        (ret (-1)))))"

definition notification_bytes :: "u8 list" where
  "notification_bytes =
     [CLASS_DEVICETOHOST_INTERFACE, CDC_NOTIF_SerialState] @ le16 0 @ le16 0 @ le16 2"

definition CDC_Device_SendControlLineStateChange :: "'w usb_avr \<Rightarrow> (('w, 'z) cdc_scheme, unit) prog \<Rightarrow> (('w, 'z) cdc_scheme, unit) prog" where
  "CDC_Device_SendControlLineStateChange E I =
     pif (pget cdc_closed) (ret ())
     (pbind (pget cdc_config) (\<lambda>c.
      pbind (Endpoint_SelectEndpoint E (ep_Address (NotificationEndpoint c))) (\<lambda>_.
      pbind (Endpoint_Write_Stream_LE E I notification_bytes 8 None) (\<lambda>_.
      pbind (pget (\<lambda>s. le16 (DeviceToHost (cdc_state s)))) (\<lambda>lines.
      pbind (Endpoint_Write_Stream_LE E I lines 2 None) (\<lambda>_.
      Endpoint_ClearIN E))))))"

section \<open>The character device\<close>

definition FDEV_ERR :: int where "FDEV_ERR = -1"
definition FDEV_EOF :: int where "FDEV_EOF = -2"

definition CDC_Device_putchar :: "'w usb_avr \<Rightarrow> (('w, 'z) cdc_scheme, unit) prog \<Rightarrow> u8 \<Rightarrow> (('w, 'z) cdc_scheme, int) prog" where
  "CDC_Device_putchar E I c =
     pbind (CDC_Device_SendByte E I c) (\<lambda>ErrorCode. ret (if ErrorCode \<noteq> 0 then FDEV_ERR else 0))"

definition CDC_Device_getchar :: "'w usb_avr \<Rightarrow> (('w, 'z) cdc_scheme, int) prog" where
  "CDC_Device_getchar E =
     pbind (CDC_Device_ReceiveByte E) (\<lambda>ReceivedByte. ret (if ReceivedByte < 0 then FDEV_EOF else ReceivedByte))"

fun getchar_loop :: "'w usb_avr \<Rightarrow> (('w, 'z) cdc_scheme, unit) prog \<Rightarrow> (('w, 'z) cdc_scheme, unit) prog \<Rightarrow> nat \<Rightarrow> (('w, 'z) cdc_scheme, int) prog" where
  "getchar_loop E I task 0 = pfail Diverge"
| "getchar_loop E I task (Suc n) =
     pbind (CDC_Device_ReceiveByte E) (\<lambda>ReceivedByte.
     if ReceivedByte < 0 then
       pbind I (\<lambda>_. pbind (pget USB_DeviceState) (\<lambda>d.
       if d = DEVICE_STATE_Unattached then ret FDEV_EOF
       else pbind (CDC_Device_USBTask E I) (\<lambda>_. pbind task (\<lambda>_. getchar_loop E I task n))))
     else ret ReceivedByte)"

definition CDC_Device_getchar_Blocking :: "'w usb_avr \<Rightarrow> (('w, 'z) cdc_scheme, unit) prog \<Rightarrow> (('w, 'z) cdc_scheme, unit) prog \<Rightarrow> (('w, 'z) cdc_scheme, int) prog" where
  "CDC_Device_getchar_Blocking E I task = getchar_loop E I task (polls E)"

end
