(* ===== verification/Descriptors.thy ===== *)
theory Descriptors
  imports Cdc_Device
begin

text \<open>
  The descriptors of \<^verbatim>\<open>virtualserial/Descriptors.c\<close>: the packed structures of \<^verbatim>\<open>StdDescriptors.h\<close> and
  \<^verbatim>\<open>CDCClassCommon.h\<close> that it fills as records, the bytes each lays down in flash, the constants of the
  firmware, and \<^verbatim>\<open>CALLBACK_USB_GetDescriptor\<close>. Lemmas: the size that a header states is the number of
  bytes of its structure.
\<close>

section \<open>Structures\<close>

record USB_Descriptor_Device =
  dev_USBSpecification :: u16
  dev_Class :: u8
  dev_SubClass :: u8
  dev_Protocol :: u8
  dev_Endpoint0Size :: u8
  dev_VendorID :: u16
  dev_ProductID :: u16
  dev_ReleaseNumber :: u16
  dev_ManufacturerStrIndex :: u8
  dev_ProductStrIndex :: u8
  dev_SerialNumStrIndex :: u8
  dev_NumberOfConfigurations :: u8

record USB_Descriptor_Configuration_Header =
  cfg_TotalConfigurationSize :: u16
  cfg_TotalInterfaces :: u8
  cfg_ConfigurationNumber :: u8
  cfg_ConfigurationStrIndex :: u8
  cfg_ConfigAttributes :: u8
  cfg_MaxPowerConsumption :: u8

record USB_Descriptor_Interface =
  if_InterfaceNumber :: u8
  if_AlternateSetting :: u8
  if_TotalEndpoints :: u8
  if_Class :: u8
  if_SubClass :: u8
  if_Protocol :: u8
  if_InterfaceStrIndex :: u8

record USB_Descriptor_Endpoint =
  epd_EndpointAddress :: u8
  epd_Attributes :: u8
  epd_EndpointSize :: u16
  epd_PollingIntervalMS :: u8

definition DTYPE_Device :: u8 where "DTYPE_Device = 0x01"
definition DTYPE_Configuration :: u8 where "DTYPE_Configuration = 0x02"
definition DTYPE_Interface :: u8 where "DTYPE_Interface = 0x04"
definition DTYPE_Endpoint :: u8 where "DTYPE_Endpoint = 0x05"
definition DTYPE_CSInterface :: u8 where "DTYPE_CSInterface = 0x24"

definition sizeof_Device :: nat where "sizeof_Device = 18"
definition sizeof_Configuration_Header :: nat where "sizeof_Configuration_Header = 9"
definition sizeof_Interface :: nat where "sizeof_Interface = 9"
definition sizeof_Endpoint :: nat where "sizeof_Endpoint = 7"
definition sizeof_FunctionalHeader :: nat where "sizeof_FunctionalHeader = 5"
definition sizeof_FunctionalACM :: nat where "sizeof_FunctionalACM = 4"
definition sizeof_FunctionalUnion :: nat where "sizeof_FunctionalUnion = 5"

lemmas desc_sizes = sizeof_Device_def sizeof_Configuration_Header_def sizeof_Interface_def sizeof_Endpoint_def
  sizeof_FunctionalHeader_def sizeof_FunctionalACM_def sizeof_FunctionalUnion_def

section \<open>Layout\<close>

definition header_bytes :: "nat \<Rightarrow> u8 \<Rightarrow> u8 list" where
  "header_bytes Size Type = [of_nat Size, Type]"

definition device_bytes :: "USB_Descriptor_Device \<Rightarrow> u8 list" where
  "device_bytes d =
     header_bytes sizeof_Device DTYPE_Device @ le16 (dev_USBSpecification d) @
     [dev_Class d, dev_SubClass d, dev_Protocol d, dev_Endpoint0Size d] @
     le16 (dev_VendorID d) @ le16 (dev_ProductID d) @ le16 (dev_ReleaseNumber d) @
     [dev_ManufacturerStrIndex d, dev_ProductStrIndex d, dev_SerialNumStrIndex d, dev_NumberOfConfigurations d]"

definition config_header_bytes :: "USB_Descriptor_Configuration_Header \<Rightarrow> u8 list" where
  "config_header_bytes d =
     header_bytes sizeof_Configuration_Header DTYPE_Configuration @ le16 (cfg_TotalConfigurationSize d) @
     [cfg_TotalInterfaces d, cfg_ConfigurationNumber d, cfg_ConfigurationStrIndex d,
      cfg_ConfigAttributes d, cfg_MaxPowerConsumption d]"

definition interface_bytes :: "USB_Descriptor_Interface \<Rightarrow> u8 list" where
  "interface_bytes d =
     header_bytes sizeof_Interface DTYPE_Interface @
     [if_InterfaceNumber d, if_AlternateSetting d, if_TotalEndpoints d, if_Class d, if_SubClass d, if_Protocol d,
      if_InterfaceStrIndex d]"

definition endpoint_bytes :: "USB_Descriptor_Endpoint \<Rightarrow> u8 list" where
  "endpoint_bytes d =
     header_bytes sizeof_Endpoint DTYPE_Endpoint @
     [epd_EndpointAddress d, epd_Attributes d] @ le16 (epd_EndpointSize d) @ [epd_PollingIntervalMS d]"

lemma desc_lengths [simp]:
  "length (device_bytes d) = sizeof_Device"
  "length (config_header_bytes c) = sizeof_Configuration_Header"
  "length (interface_bytes i) = sizeof_Interface"
  "length (endpoint_bytes e) = sizeof_Endpoint"
  by (simp_all add: device_bytes_def config_header_bytes_def interface_bytes_def endpoint_bytes_def header_bytes_def desc_sizes)

section \<open>The constants of the firmware\<close>

definition VERSION_BCD :: "u16 \<Rightarrow> u16 \<Rightarrow> u16 \<Rightarrow> u16" where
  "VERSION_BCD Major Minor Revision = push_bit 8 (Major AND 0xFF) OR push_bit 4 (Minor AND 0x0F) OR (Revision AND 0x0F)"

definition CDC_NOTIFICATION_EPADDR :: u8 where "CDC_NOTIFICATION_EPADDR = ENDPOINT_DIR_IN OR 2"
definition CDC_TX_EPADDR :: u8 where "CDC_TX_EPADDR = ENDPOINT_DIR_IN OR 3"
definition CDC_RX_EPADDR :: u8 where "CDC_RX_EPADDR = ENDPOINT_DIR_OUT OR 4"
definition CDC_NOTIFICATION_EPSIZE :: u16 where "CDC_NOTIFICATION_EPSIZE = 8"
definition CDC_TXRX_EPSIZE :: u16 where "CDC_TXRX_EPSIZE = 16"
definition INTERFACE_ID_CDC_CCI :: u8 where "INTERFACE_ID_CDC_CCI = 0"
definition INTERFACE_ID_CDC_DCI :: u8 where "INTERFACE_ID_CDC_DCI = 1"
definition STRING_ID_Language :: u8 where "STRING_ID_Language = 0"
definition STRING_ID_Manufacturer :: u8 where "STRING_ID_Manufacturer = 1"
definition STRING_ID_Product :: u8 where "STRING_ID_Product = 2"

lemmas desc_consts = DTYPE_Device_def DTYPE_Configuration_def DTYPE_Interface_def DTYPE_Endpoint_def DTYPE_CSInterface_def
  CDC_NOTIFICATION_EPADDR_def CDC_TX_EPADDR_def CDC_RX_EPADDR_def CDC_NOTIFICATION_EPSIZE_def CDC_TXRX_EPSIZE_def
  INTERFACE_ID_CDC_CCI_def INTERFACE_ID_CDC_DCI_def STRING_ID_Language_def STRING_ID_Manufacturer_def
  STRING_ID_Product_def ENDPOINT_DIR_IN_def ENDPOINT_DIR_OUT_def EP_TYPE_BULK_def EP_TYPE_INTERRUPT_def

definition DeviceDescriptor :: USB_Descriptor_Device where
  "DeviceDescriptor = \<lparr>
     dev_USBSpecification = VERSION_BCD 1 1 0,
     dev_Class = 0xEF, dev_SubClass = 0x02, dev_Protocol = 0x01,
     dev_Endpoint0Size = ucast FIXED_CONTROL_ENDPOINT_SIZE,
     dev_VendorID = 0x03EB, dev_ProductID = 0x204E, dev_ReleaseNumber = VERSION_BCD 0 0 1,
     dev_ManufacturerStrIndex = STRING_ID_Manufacturer, dev_ProductStrIndex = STRING_ID_Product,
     dev_SerialNumStrIndex = ucast USE_INTERNAL_SERIAL,
     dev_NumberOfConfigurations = FIXED_NUM_CONFIGURATIONS\<rparr>"

definition sizeof_Configuration :: nat where
  "sizeof_Configuration =
     sizeof_Configuration_Header + sizeof_Interface + sizeof_FunctionalHeader + sizeof_FunctionalACM + sizeof_FunctionalUnion +
     sizeof_Endpoint + sizeof_Interface + sizeof_Endpoint + sizeof_Endpoint"

definition Config_header :: USB_Descriptor_Configuration_Header where
  "Config_header = \<lparr>
     cfg_TotalConfigurationSize = of_nat sizeof_Configuration,
     cfg_TotalInterfaces = 2, cfg_ConfigurationNumber = 1, cfg_ConfigurationStrIndex = 0,
     cfg_ConfigAttributes = 0x80 OR 0x40, cfg_MaxPowerConsumption = drop_bit 1 100\<rparr>"

definition CDC_CCI_Interface :: USB_Descriptor_Interface where
  "CDC_CCI_Interface = \<lparr>
     if_InterfaceNumber = INTERFACE_ID_CDC_CCI, if_AlternateSetting = 0, if_TotalEndpoints = 1,
     if_Class = 0x02, if_SubClass = 0x02, if_Protocol = 0x01, if_InterfaceStrIndex = 0\<rparr>"

definition CDC_Functional_Header :: "u8 list" where
  "CDC_Functional_Header = header_bytes sizeof_FunctionalHeader DTYPE_CSInterface @ [0x00] @ le16 (VERSION_BCD 1 1 0)"

definition CDC_Functional_ACM :: "u8 list" where
  "CDC_Functional_ACM = header_bytes sizeof_FunctionalACM DTYPE_CSInterface @ [0x02, 0x06]"

definition CDC_Functional_Union :: "u8 list" where
  "CDC_Functional_Union =
     header_bytes sizeof_FunctionalUnion DTYPE_CSInterface @ [0x06, INTERFACE_ID_CDC_CCI, INTERFACE_ID_CDC_DCI]"

definition CDC_NotificationEndpoint :: USB_Descriptor_Endpoint where
  "CDC_NotificationEndpoint = \<lparr>
     epd_EndpointAddress = CDC_NOTIFICATION_EPADDR, epd_Attributes = EP_TYPE_INTERRUPT,
     epd_EndpointSize = CDC_NOTIFICATION_EPSIZE, epd_PollingIntervalMS = 0xFF\<rparr>"

definition CDC_DCI_Interface :: USB_Descriptor_Interface where
  "CDC_DCI_Interface = \<lparr>
     if_InterfaceNumber = INTERFACE_ID_CDC_DCI, if_AlternateSetting = 0, if_TotalEndpoints = 2,
     if_Class = 0x0A, if_SubClass = 0x00, if_Protocol = 0x00, if_InterfaceStrIndex = 0\<rparr>"

definition CDC_DataOutEndpoint :: USB_Descriptor_Endpoint where
  "CDC_DataOutEndpoint = \<lparr>
     epd_EndpointAddress = CDC_RX_EPADDR, epd_Attributes = EP_TYPE_BULK,
     epd_EndpointSize = CDC_TXRX_EPSIZE, epd_PollingIntervalMS = 0x05\<rparr>"

definition CDC_DataInEndpoint :: USB_Descriptor_Endpoint where
  "CDC_DataInEndpoint = \<lparr>
     epd_EndpointAddress = CDC_TX_EPADDR, epd_Attributes = EP_TYPE_BULK,
     epd_EndpointSize = CDC_TXRX_EPSIZE, epd_PollingIntervalMS = 0x05\<rparr>"

text \<open>The parts lie one after another, as the members of the packed structure do.\<close>

definition config_parts :: "u8 list list" where
  "config_parts =
     [config_header_bytes Config_header,
      interface_bytes CDC_CCI_Interface, CDC_Functional_Header, CDC_Functional_ACM, CDC_Functional_Union,
      endpoint_bytes CDC_NotificationEndpoint,
      interface_bytes CDC_DCI_Interface, endpoint_bytes CDC_DataOutEndpoint, endpoint_bytes CDC_DataInEndpoint]"

definition ConfigurationDescriptor :: "u8 list" where
  "ConfigurationDescriptor = concat config_parts"

text \<open>A string descriptor: header, then 16-bit characters (\<^verbatim>\<open>wchar_t\<close> is \<^verbatim>\<open>uint16_t\<close> on this target).\<close>

definition string_descriptor :: "u16 list \<Rightarrow> u8 list" where
  "string_descriptor cs = header_bytes (2 + 2 * length cs) (ucast DTYPE_String) @ concat (map le16 cs)"

definition LanguageString :: "u8 list" where
  "LanguageString = string_descriptor [0x0409]"

definition ManufacturerString :: "u8 list" where
  "ManufacturerString = string_descriptor (map ucast (str ''Dean Camera''))"

definition ProductString :: "u8 list" where
  "ProductString = string_descriptor (map ucast (str ''LUFA Dual CDC Demo''))"

section \<open>The callback\<close>

definition CALLBACK_USB_GetDescriptor :: "u16 \<Rightarrow> u8 \<Rightarrow> u16 \<times> u8 list option" where
  "CALLBACK_USB_GetDescriptor value index =
     (let DescriptorType = ucast (drop_bit 8 value) :: u8;
          DescriptorNumber = ucast (value AND 0xFF) :: u8 in
      if DescriptorType = DTYPE_Device then (of_nat sizeof_Device, Some (device_bytes DeviceDescriptor))
      else if DescriptorType = DTYPE_Configuration then (of_nat sizeof_Configuration, Some ConfigurationDescriptor)
      else if DescriptorType = ucast DTYPE_String then
        if DescriptorNumber = STRING_ID_Language then (ucast (hd LanguageString), Some LanguageString)
        else if DescriptorNumber = STRING_ID_Manufacturer then (ucast (hd ManufacturerString), Some ManufacturerString)
        else if DescriptorNumber = STRING_ID_Product then (ucast (hd ProductString), Some ProductString)
        else (NO_DESCRIPTOR, None)
      else (NO_DESCRIPTOR, None))"

end
