(* ===== verification/Virtual_Serial.thy ===== *)
theory Virtual_Serial
  imports Descriptors
begin

text \<open>
  The serial library that the firmware links, \<^verbatim>\<open>virtualserial/VirtualSerial.c\<close>: the CDC interface of the
  device, the events it hands to the USB stack, \<^verbatim>\<open>SetupHardware\<close> and \<^verbatim>\<open>USB_Mainloop_Handler\<close>. A function
  pointer of the application is NULL, a function, or (when the caller passes none) whatever the argument
  registers hold; calling the last is a fault. What the application's functions do is the parameter \<open>call\<close>.
\<close>

section \<open>State\<close>

datatype 'f callback = NULL_fn | Fn 'f | Stray

record ('w, 'f) serial = "'w cdc" +
  onConnect :: "'f callback"
  onDisconnect :: "'f callback"
  stdio_ready :: bool

type_synonym ('w, 'f, 'a) serial_prog = "(('w, 'f) serial, 'a) prog"

definition VirtualSerial_CDC_Interface :: USB_ClassInfo_CDC_Device where
  "VirtualSerial_CDC_Interface = \<lparr>
     Config = \<lparr>
       ControlInterfaceNumber = INTERFACE_ID_CDC_CCI,
       DataINEndpoint = \<lparr>ep_Address = CDC_TX_EPADDR, ep_Size = CDC_TXRX_EPSIZE, ep_Type = 0, ep_Banks = 1\<rparr>,
       DataOUTEndpoint = \<lparr>ep_Address = CDC_RX_EPADDR, ep_Size = CDC_TXRX_EPSIZE, ep_Type = 0, ep_Banks = 1\<rparr>,
       NotificationEndpoint = \<lparr>ep_Address = CDC_NOTIFICATION_EPADDR, ep_Size = CDC_NOTIFICATION_EPSIZE, ep_Type = 0, ep_Banks = 1\<rparr>\<rparr>,
     State = zero_state\<rparr>"

section \<open>Events\<close>

definition run_callback :: "('f \<Rightarrow> ('w, 'f, unit) serial_prog) \<Rightarrow> 'f callback \<Rightarrow> ('w, 'f, unit) serial_prog" where
  "run_callback call p = (case p of NULL_fn \<Rightarrow> ret () | Fn f \<Rightarrow> call f | Stray \<Rightarrow> pfail Uninitialised)"

definition EVENT_USB_Device_Connect :: "('f \<Rightarrow> ('w, 'f, unit) serial_prog) \<Rightarrow> ('w, 'f, unit) serial_prog" where
  "EVENT_USB_Device_Connect call = pbind (pget onConnect) (run_callback call)"

definition EVENT_USB_Device_Disconnect :: "('f \<Rightarrow> ('w, 'f, unit) serial_prog) \<Rightarrow> ('w, 'f, unit) serial_prog" where
  "EVENT_USB_Device_Disconnect call = pbind (pget onDisconnect) (run_callback call)"

definition EVENT_USB_Device_ConfigurationChanged :: "'w usb_avr \<Rightarrow> ('w, 'f, unit) serial_prog" where
  "EVENT_USB_Device_ConfigurationChanged E = pbind (CDC_Device_ConfigureEndpoints E) (\<lambda>_. ret ())"

text \<open>
  The class driver waits inside a control request, where only the general interrupt can be taken; that
  interrupt needs none of the events that are defined through it, which is \<open>bus_app\<close>.
\<close>

definition bus_app :: "('f \<Rightarrow> ('w, 'f, unit) serial_prog) \<Rightarrow> ('w, 'f) serial usb_app" where
  "bus_app call = \<lparr>
     on_Connect = EVENT_USB_Device_Connect call,
     on_Disconnect = EVENT_USB_Device_Disconnect call,
     on_Suspend = USB_Event_Stub, on_WakeUp = USB_Event_Stub, on_Reset = USB_Event_Stub, on_StartOfFrame = USB_Event_Stub,
     on_ConfigurationChanged = USB_Event_Stub, on_ControlRequest = USB_Event_Stub,
     get_descriptor = CALLBACK_USB_GetDescriptor\<rparr>"

definition EVENT_USB_Device_ControlRequest :: "'w usb_avr \<Rightarrow> ('f \<Rightarrow> ('w, 'f, unit) serial_prog) \<Rightarrow> ('w, 'f, unit) serial_prog" where
  "EVENT_USB_Device_ControlRequest E call = CDC_Device_ProcessControlRequest E (gen_point E (bus_app call))"

definition serial_app :: "'w usb_avr \<Rightarrow> ('f \<Rightarrow> ('w, 'f, unit) serial_prog) \<Rightarrow> ('w, 'f) serial usb_app" where
  "serial_app E call = (bus_app call)\<lparr>
     on_ConfigurationChanged := EVENT_USB_Device_ConfigurationChanged E,
     on_ControlRequest := EVENT_USB_Device_ControlRequest E call\<rparr>"

section \<open>Start and main loop\<close>

definition USB_Mainloop_Handler :: "'w usb_avr \<Rightarrow> ('f \<Rightarrow> ('w, 'f, unit) serial_prog) \<Rightarrow> ('w, 'f, unit) serial_prog" where
  "USB_Mainloop_Handler E call =
     pseq [CDC_Device_USBTask E (irq_point E (serial_app E call)), USB_USBTask E (serial_app E call)]"

definition WDRF :: u8 where "WDRF = bv 3"

definition SetupHardware :: "'w usb_avr \<Rightarrow> 'f callback \<Rightarrow> 'f callback \<Rightarrow> ('w, 'f, unit) serial_prog" where
  "SetupHardware E connect disconnect =
     pseq [reg_and E MCUSR (NOT WDRF),
           pmod (\<lambda>s. s\<lparr>world := wdt_disable E (world s)\<rparr>),
           pmod (\<lambda>s. s\<lparr>world := clock_prescale_set E 0 (world s)\<rparr>),
           USB_Init E,
           pmod (\<lambda>s. s\<lparr>stdio_ready := True\<rparr>),
           pmod (\<lambda>s. s\<lparr>onConnect := connect, onDisconnect := disconnect\<rparr>)]"

text \<open>
  Both images declare \<^verbatim>\<open>void SetupHardware(void)\<close> and call it without arguments
  (\<^verbatim>\<open>main/main.c\<close>, \<^verbatim>\<open>slave/main.c\<close>).
\<close>

definition SetupHardware_call :: "'w usb_avr \<Rightarrow> ('w, 'f, unit) serial_prog" where
  "SetupHardware_call E = SetupHardware E Stray Stray"

end
