(* ===== verification/Usb_Invariant.thy ===== *)
theory Usb_Invariant
  imports Virtual_Serial
begin

text \<open>
  Invariants across the USB stack. \<open>keeps P m\<close>: whenever the program \<open>m\<close> returns from a state that satisfies \<open>P\<close>,
  the state it leaves satisfies \<open>P\<close>. One rule per combinator is in the collection \<open>keeps_intros\<close>. The locale
  \<open>hw_invariant\<close> is about code that only touches registers; \<open>bus_invariant\<close> is what the core of the stack promises an application: a predicate that does not depend on the
  core's own variables, and allows every configuration number the device has, survives whatever the core does;
  \<open>cdc_invariant\<close> extends it to the class driver. Both are interpreted on \<open>serial_ok\<close>, the invariant of
  the serial library, from which its reachable states are characterised.
\<close>

section \<open>Programs that keep a predicate\<close>

named_theorems keeps_intros \<open>programs that keep a predicate of the state\<close>

definition keeps :: "('s \<Rightarrow> bool) \<Rightarrow> ('s, 'a) prog \<Rightarrow> bool" where
  "keeps P m \<longleftrightarrow> (\<forall>s x t. P s \<longrightarrow> m s = Ok (x, t) \<longrightarrow> P t)"

lemma keepsI: "(\<And>s x t. P s \<Longrightarrow> m s = Ok (x, t) \<Longrightarrow> P t) \<Longrightarrow> keeps P m"
  by (auto simp: keeps_def)

lemma keepsD: "keeps P m \<Longrightarrow> m s = Ok (x, t) \<Longrightarrow> P s \<Longrightarrow> P t"
  by (auto simp: keeps_def)

lemma keeps_ret [keeps_intros]: "keeps P (ret x)"
  by (simp add: keeps_def ret_def)

lemma keeps_pfail [keeps_intros]: "keeps P (pfail e)"
  by (simp add: keeps_def pfail_def)

lemma keeps_pget [keeps_intros]: "keeps P (pget f)"
  by (simp add: keeps_def pget_def)

lemma keeps_plift [keeps_intros]: "keeps P (plift r)"
  by (auto simp: keeps_def plift_def split: result.splits)

lemma keeps_pmod: "(\<And>s. P s \<Longrightarrow> P (f s)) \<Longrightarrow> keeps P (pmod f)"
  by (simp add: keeps_def pmod_def)

lemma pbind_Ok_iff: "pbind m f s = Ok (y, t) \<longleftrightarrow> (\<exists>x u. m s = Ok (x, u) \<and> f x u = Ok (y, t))"
  by (cases "m s") (auto simp: pbind_def split: prod.splits)

lemma keeps_pbind [keeps_intros]: "keeps P m \<Longrightarrow> (\<And>x. keeps P (f x)) \<Longrightarrow> keeps P (pbind m f)"
  by (rule keepsI) (metis keepsD pbind_Ok_iff)

lemma keeps_pif [keeps_intros]: "keeps P c \<Longrightarrow> keeps P m \<Longrightarrow> keeps P k \<Longrightarrow> keeps P (pif c m k)"
  unfolding pif_def by (auto intro: keeps_intros)

lemma keeps_pand [keeps_intros]: "keeps P a \<Longrightarrow> keeps P b \<Longrightarrow> keeps P (pand a b)"
  unfolding pand_def by (auto intro: keeps_intros)

lemma keeps_pwhen [keeps_intros]: "keeps P m \<Longrightarrow> keeps P (pwhen b m)"
  unfolding pwhen_def by (auto intro: keeps_intros)

lemma keeps_if [keeps_intros]: "(b \<Longrightarrow> keeps P m) \<Longrightarrow> (\<not> b \<Longrightarrow> keeps P k) \<Longrightarrow> keeps P (if b then m else k)"
  by simp

lemma keeps_option [keeps_intros]:
  "keeps P m \<Longrightarrow> (\<And>x. keeps P (k x)) \<Longrightarrow> keeps P (case e of None \<Rightarrow> m | Some x \<Rightarrow> k x)"
  by (cases e) auto

lemma keeps_prod [keeps_intros]: "(\<And>a b. keeps P (k a b)) \<Longrightarrow> keeps P (case p of (a, b) \<Rightarrow> k a b)"
  by (cases p) auto

lemma keeps_let [keeps_intros]: "(\<And>x. keeps P (k x)) \<Longrightarrow> keeps P (let x = v in k x)"
  by simp

lemma keeps_pseq: "(\<And>m. m \<in> set ms \<Longrightarrow> keeps P m) \<Longrightarrow> keeps P (pseq ms)"
  by (induction ms) (auto intro!: keeps_intros)

lemma keeps_pseq_Nil [keeps_intros]: "keeps P (pseq [])"
  by (simp add: keeps_ret)

lemma keeps_pseq_Cons [keeps_intros]: "keeps P m \<Longrightarrow> keeps P (pseq ms) \<Longrightarrow> keeps P (pseq (m # ms))"
  by (auto intro: keeps_intros)

lemma keeps_wait_for [keeps_intros]: "keeps P c \<Longrightarrow> keeps P k \<Longrightarrow> keeps P (wait_for n c k)"
  by (induction n) (auto intro!: keeps_intros)

section \<open>What the core promises\<close>

locale hw_invariant =
  fixes P :: "('w, 'z) usb_scheme \<Rightarrow> bool"
  assumes any_world: "P s \<Longrightarrow> P (s\<lparr>world := w\<rparr>)"
begin

subsection \<open>Registers\<close>

lemma k_reg_rd [keeps_intros]: "keeps P (reg_rd E r)"
  by (auto simp: keeps_def reg_rd_def any_world split: prod.splits)

lemma k_reg_wr [keeps_intros]: "keeps P (reg_wr E r v)"
  by (auto simp: keeps_def reg_wr_def any_world)

lemma k_outside [keeps_intros]: "keeps P (outside f)"
  by (auto simp: keeps_def outside_def any_world split: prod.splits)

lemma k_reg_ops [keeps_intros]: "keeps P (reg_or E r m)" "keeps P (reg_and E r m)" "keeps P (reg_test E r m)"
  unfolding reg_or_def reg_and_def reg_test_def by (intro keeps_intros)+

lemmas ep_defs = Endpoint_BytesInEndpoint_def Endpoint_GetEndpointDirection_def Endpoint_GetCurrentEndpoint_def
  Endpoint_SelectEndpoint_def Endpoint_ResetEndpoint_def Endpoint_EnableEndpoint_def Endpoint_DisableEndpoint_def
  Endpoint_IsEnabled_def Endpoint_IsReadWriteAllowed_def Endpoint_IsConfigured_def Endpoint_IsINReady_def
  Endpoint_IsOUTReceived_def Endpoint_IsSETUPReceived_def Endpoint_ClearSETUP_def Endpoint_ClearIN_def Endpoint_ClearOUT_def
  Endpoint_StallTransaction_def Endpoint_ClearStall_def Endpoint_IsStalled_def Endpoint_ResetDataToggle_def
  Endpoint_Read_8_def Endpoint_Write_8_def Endpoint_Write_16_LE_def Endpoint_Read_32_LE_def Endpoint_Write_32_LE_def

lemmas bus_defs = USB_Device_GetFrameNumber_def USB_Device_SetLowSpeed_def USB_Device_SetFullSpeed_def
  USB_Device_SetDeviceAddress_def USB_Device_EnableDeviceAddress_def USB_Device_IsAddressSet_def USB_VBUS_GetStatus_def
  USB_Attach_def USB_PLL_On_def USB_PLL_Off_def USB_PLL_IsReady_def USB_REG_On_def USB_REG_Off_def USB_OTGPAD_On_def
  USB_OTGPAD_Off_def USB_CLK_Freeze_def USB_CLK_Unfreeze_def USB_Controller_Reset_def

lemma k_endpoint [keeps_intros]:
  "keeps P (Endpoint_BytesInEndpoint E)" "keeps P (Endpoint_GetEndpointDirection E)" "keeps P (Endpoint_GetCurrentEndpoint E)"
  "keeps P (Endpoint_SelectEndpoint E a)" "keeps P (Endpoint_ResetEndpoint E a)" "keeps P (Endpoint_EnableEndpoint E)"
  "keeps P (Endpoint_DisableEndpoint E)" "keeps P (Endpoint_IsEnabled E)" "keeps P (Endpoint_IsReadWriteAllowed E)"
  "keeps P (Endpoint_IsConfigured E)" "keeps P (Endpoint_IsINReady E)" "keeps P (Endpoint_IsOUTReceived E)"
  "keeps P (Endpoint_IsSETUPReceived E)" "keeps P (Endpoint_ClearSETUP E)" "keeps P (Endpoint_ClearIN E)"
  "keeps P (Endpoint_ClearOUT E)" "keeps P (Endpoint_StallTransaction E)" "keeps P (Endpoint_ClearStall E)"
  "keeps P (Endpoint_IsStalled E)" "keeps P (Endpoint_ResetDataToggle E)" "keeps P (Endpoint_Read_8 E)"
  "keeps P (Endpoint_Write_8 E b)" "keeps P (Endpoint_Write_16_LE E x)" "keeps P (Endpoint_Read_32_LE E)"
  "keeps P (Endpoint_Write_32_LE E y)"
  unfolding ep_defs by (intro keeps_intros)+

lemma k_bus [keeps_intros]:
  "keeps P (USB_Device_GetFrameNumber E)" "keeps P (USB_Device_SetLowSpeed E)" "keeps P (USB_Device_SetFullSpeed E)"
  "keeps P (USB_Device_SetDeviceAddress E a)" "keeps P (USB_Device_EnableDeviceAddress E a)" "keeps P (USB_Device_IsAddressSet E)"
  "keeps P (USB_VBUS_GetStatus E)" "keeps P (USB_Attach E)" "keeps P (USB_PLL_On E)" "keeps P (USB_PLL_Off E)"
  "keeps P (USB_PLL_IsReady E)" "keeps P (USB_REG_On E)" "keeps P (USB_REG_Off E)" "keeps P (USB_OTGPAD_On E)"
  "keeps P (USB_OTGPAD_Off E)" "keeps P (USB_CLK_Freeze E)" "keeps P (USB_CLK_Unfreeze E)" "keeps P (USB_Controller_Reset E)"
  unfolding bus_defs by (intro keeps_intros)+

lemma k_int [keeps_intros]:
  "keeps P (USB_INT_Enable E i)" "keeps P (USB_INT_Disable E i)" "keeps P (USB_INT_Clear E i)"
  "keeps P (USB_INT_IsEnabled E i)" "keeps P (USB_INT_HasOccurred E i)"
  by (cases i; simp; intro keeps_intros)+

lemma k_ep_configure_loop [keeps_intros]: "keeps P (ep_configure_loop E n a b eps)"
proof (induction eps)
  case (Cons e eps)
  show ?case unfolding ep_configure_loop.simps ep_reconfigure_def by (intro keeps_intros Cons.IH)
qed (simp, intro keeps_intros)

lemma k_ConfigureEndpoint [keeps_intros]: "keeps P (Endpoint_ConfigureEndpoint E a t z b)"
  unfolding Endpoint_ConfigureEndpoint_def Endpoint_ConfigureEndpoint_Prv_def by (intro keeps_intros)

lemma k_ConfigureEndpointTable [keeps_intros]: "keeps P (Endpoint_ConfigureEndpointTable E ts)"
  by (induction ts) (auto intro!: keeps_intros)

lemma k_configure_control [keeps_intros]: "keeps P (configure_control E)"
  unfolding configure_control_def by (intro keeps_intros)

end

locale bus_invariant = hw_invariant P for P :: "('w, 'z) usb_scheme \<Rightarrow> bool" +
  assumes any_state: "P s \<Longrightarrow> P (s\<lparr>USB_DeviceState := d\<rparr>)"
    and any_request: "P s \<Longrightarrow> P (s\<lparr>USB_ControlRequest := r\<rparr>)"
    and any_init: "P s \<Longrightarrow> P (s\<lparr>USB_IsInitialized := b\<rparr>)"
    and any_power: "P s \<Longrightarrow> P (s\<lparr>USB_Device_CurrentlySelfPowered := b\<rparr>)"
    and any_wakeup: "P s \<Longrightarrow> P (s\<lparr>USB_Device_RemoteWakeupEnabled := b\<rparr>)"
    and offered_config: "P s \<Longrightarrow> n \<le> FIXED_NUM_CONFIGURATIONS \<Longrightarrow> P (s\<lparr>USB_Device_ConfigurationNumber := n\<rparr>)"
begin

definition app_keeps :: "('w, 'z) usb_scheme usb_app \<Rightarrow> bool" where
  "app_keeps A \<longleftrightarrow>
     keeps P (on_Connect A) \<and> keeps P (on_Disconnect A) \<and> keeps P (on_Suspend A) \<and> keeps P (on_WakeUp A) \<and>
     keeps P (on_Reset A) \<and> keeps P (on_StartOfFrame A) \<and> keeps P (on_ConfigurationChanged A) \<and> keeps P (on_ControlRequest A)"

lemma app [keeps_intros]:
  assumes "app_keeps A"
  shows "keeps P (on_Connect A)" "keeps P (on_Disconnect A)" "keeps P (on_Suspend A)" "keeps P (on_WakeUp A)"
    "keeps P (on_Reset A)" "keeps P (on_StartOfFrame A)" "keeps P (on_ConfigurationChanged A)" "keeps P (on_ControlRequest A)"
  using assms by (auto simp: app_keeps_def)

subsection \<open>Set-up and bus events\<close>

lemma k_set_state [keeps_intros]: "keeps P (set_state d)"
  unfolding set_state_def by (rule keeps_pmod) (rule any_state)

lemma k_fields [keeps_intros]:
  "keeps P (pmod (\<lambda>s. s\<lparr>USB_Device_ConfigurationNumber := 0\<rparr>))"
  "keeps P (pmod (\<lambda>s. s\<lparr>USB_Device_RemoteWakeupEnabled := b\<rparr>))"
  "keeps P (pmod (\<lambda>s. s\<lparr>USB_Device_CurrentlySelfPowered := b\<rparr>))"
  "keeps P (pmod (\<lambda>s. s\<lparr>USB_IsInitialized := b\<rparr>))"
  "keeps P (pmod (\<lambda>s. s\<lparr>USB_ControlRequest := r\<rparr>))"
  by (auto intro!: keeps_pmod any_wakeup any_power any_init any_request offered_config)

lemma k_USB_Init [keeps_intros]: "keeps P (USB_Init E)"
  unfolding USB_Init_def USB_ResetInterface_def USB_Init_Device_def USB_INT_DisableAllInterrupts_def USB_INT_ClearAllInterrupts_def
  by (intro keeps_intros)

lemma k_pll_start [keeps_intros]: "keeps P (pll_start E)"
  unfolding pll_start_def by (intro keeps_intros)

lemma k_int_fired [keeps_intros]: "keeps P (int_fired E i)"
  unfolding int_fired_def by (intro keeps_intros)

lemma k_GEN_vect [keeps_intros]: "app_keeps A \<Longrightarrow> keeps P (USB_GEN_vect E A)"
  unfolding USB_GEN_vect_def gen_sof_def gen_vbus_def gen_suspend_def gen_wakeup_def gen_reset_def
  by (intro keeps_intros)

lemma k_gen_point [keeps_intros]: "app_keeps A \<Longrightarrow> keeps P (gen_point E A)"
  unfolding gen_point_def by (intro keeps_intros)

subsection \<open>Waiting and streams\<close>

lemma k_ClearStatusStage [keeps_intros]: "keeps P I \<Longrightarrow> keeps P (Endpoint_ClearStatusStage E I)"
  unfolding Endpoint_ClearStatusStage_def if_unattached_def by (intro keeps_intros)

lemma k_ready_loop [keeps_intros]: "keeps P I \<Longrightarrow> keeps P (ready_loop E I n f t)"
proof (induction n arbitrary: f t)
  case (Suc n)
  show ?case unfolding ready_loop.simps by (intro keeps_intros Suc.IH Suc.prems)
qed (simp, intro keeps_intros)

lemma k_WaitUntilReady [keeps_intros]: "keeps P I \<Longrightarrow> keeps P (Endpoint_WaitUntilReady E I)"
  unfolding Endpoint_WaitUntilReady_def by (intro keeps_intros)

lemma k_control_abort [keeps_intros]: "keeps P I \<Longrightarrow> keeps P (control_abort E I)"
  unfolding control_abort_def control_state_def by (intro keeps_intros)

lemma k_write_byte [keeps_intros]: "keeps P (write_byte E i buf)"
  unfolding write_byte_def by (intro keeps_intros)

lemma k_control_fill [keeps_intros]: "keeps P (control_fill E step buf k i len b)"
proof (induction k arbitrary: i len b)
  case (Suc k)
  show ?case unfolding control_fill.simps by (intro keeps_intros Suc.IH)
qed (simp, intro keeps_intros)

lemma k_control_send [keeps_intros]: "keeps P I \<Longrightarrow> keeps P (control_send E I step buf n i len full)"
proof (induction n arbitrary: i len full)
  case (Suc n)
  show ?case unfolding control_send.simps by (intro keeps_intros Suc.IH Suc.prems)
qed (simp, intro keeps_intros)

lemma k_Control_W [keeps_intros]: "keeps P I \<Longrightarrow> keeps P (Template_Endpoint_Control_W E I offset step buf len)"
  unfolding Template_Endpoint_Control_W_def by (intro keeps_intros)

subsection \<open>Requests\<close>

lemma k_serial_loop [keeps_intros]: "keeps P (serial_loop E ks a)"
proof (induction ks arbitrary: a)
  case (Cons k ks)
  show ?case unfolding serial_loop.simps by (intro keeps_intros Cons.IH)
qed (simp, intro keeps_intros)

lemma k_SetAddress [keeps_intros]: "app_keeps A \<Longrightarrow> keeps P (USB_Device_SetAddress E A)"
  unfolding USB_Device_SetAddress_def by (intro keeps_intros)

lemma k_SetConfiguration [keeps_intros]: "app_keeps A \<Longrightarrow> keeps P (USB_Device_SetConfiguration E A)"
  unfolding USB_Device_SetConfiguration_def by (intro keeps_intros keeps_pmod offered_config) (simp_all add: not_less)

lemma k_GetConfiguration [keeps_intros]: "app_keeps A \<Longrightarrow> keeps P (USB_Device_GetConfiguration E A)"
  unfolding USB_Device_GetConfiguration_def by (intro keeps_intros)

lemma k_GetDescriptor [keeps_intros]: "app_keeps A \<Longrightarrow> keeps P (USB_Device_GetDescriptor E A)"
  unfolding USB_Device_GetDescriptor_def USB_Device_GetInternalSerialDescriptor_def USB_Device_GetSerialString_def
    Endpoint_Write_Control_Stream_LE_def Endpoint_Write_Control_PStream_LE_def
  by (intro keeps_intros)

lemma k_GetStatus [keeps_intros]: "app_keeps A \<Longrightarrow> keeps P (USB_Device_GetStatus E A)"
  unfolding USB_Device_GetStatus_def send_status_def by (intro keeps_intros)

lemma k_ClearSetFeature [keeps_intros]: "app_keeps A \<Longrightarrow> keeps P (USB_Device_ClearSetFeature E A)"
  unfolding USB_Device_ClearSetFeature_def feature_done_def halt_endpoint_def by (intro keeps_intros)

lemma k_read_header [keeps_intros]: "keeps P (read_header E n)"
  by (induction n) (auto intro!: keeps_intros)

lemma k_ProcessControlRequest [keeps_intros]: "app_keeps A \<Longrightarrow> keeps P (USB_Device_ProcessControlRequest E A)"
  unfolding USB_Device_ProcessControlRequest_def standard_request_def by (intro keeps_intros)

lemma k_COM_vect [keeps_intros]: "app_keeps A \<Longrightarrow> keeps P (USB_COM_vect E A)"
  unfolding USB_COM_vect_def by (intro keeps_intros)

lemma k_irq_point [keeps_intros]: "app_keeps A \<Longrightarrow> keeps P (irq_point E A)"
  unfolding irq_point_def by (intro keeps_intros)

lemma k_USBTask [keeps_intros]: "app_keeps A \<Longrightarrow> keeps P (USB_USBTask E A)"
  unfolding USB_USBTask_def USB_DeviceTask_def by (intro keeps_intros)

end

section \<open>What the class driver promises\<close>

locale cdc_invariant = bus_invariant P for P :: "('w, 'z) cdc_scheme \<Rightarrow> bool" +
  assumes any_cdc_state: "P s \<Longrightarrow> P (s\<lparr>CDCInterfaceInfo := (CDCInterfaceInfo s)\<lparr>State := c\<rparr>\<rparr>)"
    and typed_endpoints: "P s \<Longrightarrow> P (s\<lparr>CDCInterfaceInfo := (CDCInterfaceInfo s)\<lparr>Config := typed_config (cdc_config s)\<rparr>\<rparr>)"
begin

lemma k_set_cdc_state [keeps_intros]: "keeps P (set_cdc_state f)"
  unfolding set_cdc_state_def by (rule keeps_pmod) (rule any_cdc_state)

lemma k_cdc_stub [keeps_intros]: "keeps P CDC_Device_Event_Stub"
  unfolding CDC_Device_Event_Stub_def by (intro keeps_intros)

lemma k_cdc_request [keeps_intros]: "keeps P I \<Longrightarrow> keeps P (CDC_Device_ProcessControlRequest E I)"
  unfolding CDC_Device_ProcessControlRequest_def get_line_encoding_def set_line_encoding_def if_unattached_def
  by (intro keeps_intros)

lemma k_ConfigureEndpoints [keeps_intros]: "keeps P (CDC_Device_ConfigureEndpoints E)"
  unfolding CDC_Device_ConfigureEndpoints_def by (intro keeps_intros keeps_pmod typed_endpoints)

lemma k_Flush [keeps_intros]: "keeps P I \<Longrightarrow> keeps P (CDC_Device_Flush E I)"
  unfolding CDC_Device_Flush_def by (intro keeps_intros)

lemma k_cdc_task [keeps_intros]: "keeps P I \<Longrightarrow> keeps P (CDC_Device_USBTask E I)"
  unfolding CDC_Device_USBTask_def by (intro keeps_intros)

lemma k_putchar [keeps_intros]: "keeps P I \<Longrightarrow> keeps P (CDC_Device_putchar E I c)"
  unfolding CDC_Device_putchar_def CDC_Device_SendByte_def by (intro keeps_intros)

lemma k_getchar [keeps_intros]: "keeps P (CDC_Device_getchar E)"
  unfolding CDC_Device_getchar_def CDC_Device_ReceiveByte_def by (intro keeps_intros)

end

section \<open>The serial library\<close>

text \<open>
  The invariant of the firmware's serial port: the configuration is one that the device offers, the endpoint
  table is the one of the source up to the types that the driver fills in, and the application has
  registered no function.
\<close>

definition serial_ok :: "('w, 'f) serial \<Rightarrow> bool" where
  "serial_ok s \<longleftrightarrow>
     USB_Device_ConfigurationNumber s \<le> FIXED_NUM_CONFIGURATIONS \<and>
     typed_config (cdc_config s) = typed_config (Config VirtualSerial_CDC_Interface) \<and>
     onConnect s \<in> {NULL_fn, Stray} \<and> onDisconnect s \<in> {NULL_fn, Stray}"

lemma typed_config_idem: "typed_config (typed_config c) = typed_config c"
  by (simp add: typed_config_def)

interpretation port: cdc_invariant serial_ok
  by unfold_locales (auto simp: serial_ok_def typed_config_idem)

lemma keeps_stub: "keeps P USB_Event_Stub"
  unfolding USB_Event_Stub_def by (intro keeps_intros)

lemma no_callback: "serial_ok s \<Longrightarrow> (pbind (pget onConnect) (run_callback call)) s = Ok (x, t) \<Longrightarrow> t = s"
  "serial_ok s \<Longrightarrow> (pbind (pget onDisconnect) (run_callback call)) s = Ok (x, t) \<Longrightarrow> t = s"
  by (auto simp: serial_ok_def run_callback_def prog_simps split: callback.splits)

lemma keeps_connect: "keeps serial_ok (EVENT_USB_Device_Connect call)" "keeps serial_ok (EVENT_USB_Device_Disconnect call)"
  unfolding EVENT_USB_Device_Connect_def EVENT_USB_Device_Disconnect_def
  by (rule keepsI, use no_callback in metis)+

lemma bus_app_keeps: "port.app_keeps (bus_app call)"
  by (simp add: port.app_keeps_def bus_app_def keeps_connect keeps_stub)

lemma serial_app_keeps: "port.app_keeps (serial_app E call)"
  using bus_app_keeps [of call] unfolding port.app_keeps_def serial_app_def EVENT_USB_Device_ControlRequest_def
    EVENT_USB_Device_ConfigurationChanged_def
  by (auto intro!: port.k_cdc_request port.k_gen_point bus_app_keeps keeps_pbind port.k_ConfigureEndpoints keeps_ret)

subsection \<open>Reachable states\<close>

text \<open>The state that the loader leaves: zeros, and the initialised interface structure.\<close>

definition serial_boot :: "'w \<Rightarrow> ('w, 'f) serial" where
  "serial_boot w = \<lparr>world = w, USB_IsInitialized = False, USB_DeviceState = DEVICE_STATE_Unattached,
     USB_ControlRequest = \<lparr>bmRequestType = 0, bRequest = 0, wValue = 0, wIndex = 0, wLength = 0\<rparr>,
     USB_Device_ConfigurationNumber = 0, USB_Device_CurrentlySelfPowered = False, USB_Device_RemoteWakeupEnabled = False,
     CDCInterfaceInfo = VirtualSerial_CDC_Interface, onConnect = NULL_fn, onDisconnect = NULL_fn, stdio_ready = False\<rparr>"

text \<open>
  One step of a running image: an interrupt, a turn of the main-loop handler, a character written or read.
  The start-up passes NULL, or nothing at all.
\<close>

inductive serial_reach :: "'w usb_avr \<Rightarrow> ('f \<Rightarrow> ('w, 'f, unit) serial_prog) \<Rightarrow> ('w, 'f) serial \<Rightarrow> bool"
  for E call where
  started: "SetupHardware E p q (serial_boot w) = Ok ((), s) \<Longrightarrow> p \<in> {NULL_fn, Stray} \<Longrightarrow> q \<in> {NULL_fn, Stray} \<Longrightarrow>
    serial_reach E call s"
| general: "serial_reach E call s \<Longrightarrow> USB_GEN_vect E (serial_app E call) s = Ok ((), t) \<Longrightarrow> serial_reach E call t"
| control: "serial_reach E call s \<Longrightarrow> USB_COM_vect E (serial_app E call) s = Ok ((), t) \<Longrightarrow> serial_reach E call t"
| turn: "serial_reach E call s \<Longrightarrow> USB_Mainloop_Handler E call s = Ok ((), t) \<Longrightarrow> serial_reach E call t"
| written: "serial_reach E call s \<Longrightarrow> CDC_Device_putchar E (irq_point E (serial_app E call)) c s = Ok (r, t) \<Longrightarrow>
    serial_reach E call t"
| got: "serial_reach E call s \<Longrightarrow> CDC_Device_getchar E s = Ok (r, t) \<Longrightarrow> serial_reach E call t"

lemma keeps_turn: "keeps serial_ok (USB_Mainloop_Handler E call)"
  unfolding USB_Mainloop_Handler_def
  by (intro keeps_intros port.k_cdc_task port.k_USBTask port.k_irq_point serial_app_keeps)

lemma keeps_setup:
  assumes "p \<in> {NULL_fn, Stray}" "q \<in> {NULL_fn, Stray}"
  shows "keeps serial_ok (SetupHardware E p q)"
  unfolding SetupHardware_def
  by (intro keeps_intros port.k_USB_Init port.k_reg_ops keeps_pmod) (use assms in \<open>auto simp: serial_ok_def\<close>)

lemma boot_ok: "serial_ok (serial_boot w)"
  by (simp add: serial_ok_def serial_boot_def)

lemma reach_ok: "serial_reach E call s \<Longrightarrow> serial_ok s"
proof (induction rule: serial_reach.induct)
  case (started p q w s)
  show ?case by (rule keepsD [OF keeps_setup [OF started(2,3)] started(1) boot_ok])
next
  case (general s t)
  show ?case by (rule keepsD [OF port.k_GEN_vect [OF serial_app_keeps] general(2) general.IH])
next
  case (control s t)
  show ?case by (rule keepsD [OF port.k_COM_vect [OF serial_app_keeps] control(2) control.IH])
next
  case (turn s t)
  show ?case by (rule keepsD [OF keeps_turn turn(2) turn.IH])
next
  case (written s c r t)
  show ?case by (rule keepsD [OF port.k_putchar [OF port.k_irq_point [OF serial_app_keeps]] written(2) written.IH])
next
  case (got s r t)
  show ?case by (rule keepsD [OF port.k_getchar got(2) got.IH])
qed

end
