(* ===== verification/Usb_Correct.thy ===== *)
theory Usb_Correct
  imports Usb_Invariant Config_Desc
begin

text \<open>
  Properties of the USB stack and of the serial library: the bank size of an endpoint, the timeout of a transfer, the
  reachable states of the serial port, what the images' call of \<^verbatim>\<open>SetupHardware\<close> leaves behind, the well-formedness of
  the configuration descriptor, and the state after the host has selected configuration 0.
\<close>

section \<open>The bank size\<close>

lemma ep_size_loop_zero: "Bytes \<noteq> 0 \<Longrightarrow> ep_size_loop n Bytes m 0 = Fail Diverge"
  by (induction n arbitrary: m) (auto simp: word_gt_0)

lemma wrap_u16: "(65536 :: u16) = 0"
  by simp

text \<open>\<open>least_bank b\<close>: the smallest \<open>k\<close> such that \<open>b\<close> bytes fit into a bank of \<open>8 * 2 ^ k\<close>.\<close>

definition least_bank :: "u16 \<Rightarrow> nat" where
  "least_bank Bytes = (LEAST k. unat Bytes \<le> 8 * 2 ^ k)"

lemma least_bank_eq: "unat Bytes \<le> 8 * 2 ^ k \<Longrightarrow> (\<And>j. j < k \<Longrightarrow> 8 * 2 ^ j < unat Bytes) \<Longrightarrow> least_bank Bytes = k"
  unfolding least_bank_def by (rule Least_equality) (auto simp: not_less [symmetric])

lemma ep_size_loop_from:
  assumes "k \<le> 12" and "\<And>j. j < k \<Longrightarrow> 8 * 2 ^ j < unat Bytes"
  shows "ep_size_loop (Suc (15 - k)) Bytes (of_nat k) (of_nat (8 * 2 ^ k)) =
    (if Bytes \<le> 0x8000 then Ok (push_bit 4 (of_nat (least_bank Bytes))) else Fail Diverge)"
  using assms
proof (induction rule: inc_induct)
  case base
  have big: "unat Bytes \<le> 8 * 2 ^ 12 \<longleftrightarrow> Bytes \<le> 0x8000" by (simp add: word_le_nat_alt)
  show ?case
  proof (cases "Bytes \<le> 0x8000")
    case True
    then have "least_bank Bytes = 12" using big base by (intro least_bank_eq) auto
    then show ?thesis using True by (subst ep_size_loop.simps(2)) (auto dest: leD)
  next
    case False
    then have "Bytes \<noteq> 0" by auto
    then show ?thesis using False ep_size_loop_zero [of Bytes 3] by (subst ep_size_loop.simps(2)) (auto simp: not_le wrap_u16)
  qed
next
  case (step k)
  have fits: "unat (of_nat (8 * 2 ^ k) :: u16) = 8 * 2 ^ k"
  proof (rule unat_of_nat_u16)
    have "(2::nat) ^ k \<le> 2 ^ 11" using step.hyps by (intro power_increasing) auto
    then show "8 * 2 ^ k < (65536::nat)" by simp
  qed
  show ?case
  proof (cases "unat Bytes \<le> 8 * 2 ^ k")
    case True
    then have "\<not> of_nat (8 * 2 ^ k) < Bytes" using fits by (simp add: word_less_nat_alt)
    moreover have "least_bank Bytes = k" using True step.prems by (intro least_bank_eq) auto
    moreover have "Bytes \<le> 0x8000"
    proof -
      have "(2::nat) ^ k \<le> 2 ^ 12" using step.hyps by (intro power_increasing) auto
      then show ?thesis using True by (simp add: word_le_nat_alt)
    qed
    ultimately show ?thesis by simp
  next
    case False
    then have "of_nat (8 * 2 ^ k) < Bytes" using fits by (simp add: word_less_nat_alt)
    moreover have "Suc (15 - k) = Suc (Suc (15 - Suc k))" using step.hyps by simp
    moreover have "push_bit 1 (of_nat (8 * 2 ^ k) :: u16) = of_nat (8 * 2 ^ Suc k)" by (simp add: push_bit_eq_mult)
    moreover have "8 * 2 ^ j < unat Bytes" if "j < Suc k" for j
      using that False step.prems [of j] by (cases "j = k") auto
    ultimately show ?thesis using step.IH by (simp add: add.commute)
  qed
qed

text \<open>C31: for every size up to 32768 bytes the endpoint's size field is the exponent of the smallest bank that holds them; for
  any larger size the search never ends, because the 16-bit candidate becomes 0.\<close>

theorem ep_size_mask:
  "Endpoint_BytesToEPSizeMask Bytes =
     (if Bytes \<le> 0x8000 then Ok (push_bit 4 (of_nat (LEAST k. unat Bytes \<le> 8 * 2 ^ k))) else Fail Diverge)"
  using ep_size_loop_from [of 0 Bytes] by (simp add: Endpoint_BytesToEPSizeMask_def least_bank_def)

section \<open>The timeout\<close>

text \<open>
  A quiet endpoint: in the worlds of \<open>J i\<close>, where \<open>i\<close> counts the looks at the frame number so far, neither direction is
  ready and nothing is stalled; the \<open>i\<close>-th look reads \<open>F i\<close>.
\<close>

definition quiet_endpoint :: "'w usb_avr \<Rightarrow> (nat \<Rightarrow> 'w \<Rightarrow> bool) \<Rightarrow> (nat \<Rightarrow> u16) \<Rightarrow> bool" where
  "quiet_endpoint E J F \<longleftrightarrow>
     (\<forall>i w. J i w \<longrightarrow>
        J i (snd (rd E UECFG0X w)) \<and>
        J i (snd (rd E UEINTX w)) \<and> fst (rd E UEINTX w) AND (TXINI OR RXOUTI) = 0 \<and>
        J i (snd (rd E UECONX w)) \<and> fst (rd E UECONX w) AND STALLRQ = 0 \<and>
        (\<exists>lo hi w1 w2. rd E UDFNUML w = (lo, w1) \<and> rd E UDFNUMH w1 = (hi, w2) \<and> of_le16 lo hi = F i \<and> J (Suc i) w2))"

lemma quiet_flags: "v AND (TXINI OR RXOUTI) = 0 \<Longrightarrow> v AND TXINI = 0" "v AND (TXINI OR RXOUTI) = 0 \<Longrightarrow> v AND RXOUTI = 0"
  by (simp_all add: bit.conj_disj_distrib or_eq_0_iff)

lemma quiet_frame:
  assumes "quiet_endpoint E J F" and "J i (world s)"
  obtains w where "USB_Device_GetFrameNumber E s = Ok (F i, s\<lparr>world := w\<rparr>)" and "J (Suc i) w"
proof -
  obtain lo hi w1 w2 where "rd E UDFNUML (world s) = (lo, w1)" "rd E UDFNUMH w1 = (hi, w2)" "of_le16 lo hi = F i" "J (Suc i) w2"
    using assms unfolding quiet_endpoint_def by metis
  then show ?thesis by (intro that [of w2]) (auto simp: USB_Device_GetFrameNumber_def reg_rd_def prog_simps)
qed

text \<open>One round of the loop on a quiet endpoint comes down to the look at the frame number.\<close>

lemma quiet_round:
  assumes q: "quiet_endpoint E J F" and J: "J i (world s)"
    and d: "USB_DeviceState s \<notin> {DEVICE_STATE_Unattached, DEVICE_STATE_Suspended}"
  obtains w where "J (Suc i) w"
    and "ready_loop E (ret ()) (Suc n) p t s =
      (if F i \<noteq> p then if t = 0 then Ok (ENDPOINT_READYWAIT_Timeout, s\<lparr>world := w\<rparr>) else ready_loop E (ret ()) n (F i) (t - 1) (s\<lparr>world := w\<rparr>)
       else ready_loop E (ret ()) n p t (s\<lparr>world := w\<rparr>))"
proof -
  define w1 where "w1 = snd (rd E UECFG0X (world s))"
  define w2 where "w2 = snd (rd E UEINTX w1)"
  define w3 where "w3 = snd (rd E UECONX w2)"
  have J1: "J i w1" and J2: "J i w2" and J3: "J i w3"
    and f: "fst (rd E UEINTX w1) AND (TXINI OR RXOUTI) = 0" "fst (rd E UECONX w2) AND STALLRQ = 0"
    using q J unfolding w1_def w2_def w3_def quiet_endpoint_def by blast+
  obtain w where w: "USB_Device_GetFrameNumber E (s\<lparr>world := w3\<rparr>) = Ok (F i, s\<lparr>world := w\<rparr>)" "J (Suc i) w"
    using quiet_frame [OF q, of i "s\<lparr>world := w3\<rparr>"] J3 by auto
  have dir: "\<exists>x. Endpoint_GetEndpointDirection E s = Ok (x, s\<lparr>world := w1\<rparr>)"
    by (auto simp: Endpoint_GetEndpointDirection_def reg_test_def reg_rd_def prog_simps w1_def case_prod_unfold)
  have ready: "(if x = ENDPOINT_DIR_IN then Endpoint_IsINReady E else Endpoint_IsOUTReceived E) (s\<lparr>world := w1\<rparr>) = Ok (False, s\<lparr>world := w2\<rparr>)" for x
    using quiet_flags [OF f(1)]
    by (auto simp: Endpoint_IsINReady_def Endpoint_IsOUTReceived_def reg_test_def reg_rd_def prog_simps w2_def case_prod_unfold)
  have stall: "Endpoint_IsStalled E (s\<lparr>world := w2\<rparr>) = Ok (False, s\<lparr>world := w3\<rparr>)"
    using f(2) by (auto simp: Endpoint_IsStalled_def reg_test_def reg_rd_def prog_simps w3_def case_prod_unfold)
  from dir obtain x where "Endpoint_GetEndpointDirection E s = Ok (x, s\<lparr>world := w1\<rparr>)" by auto
  with w(1) ready [of x] stall d show ?thesis
    by (intro that [OF w(2)]) (simp add: prog_simps)
qed

lemma ready_loop_times_out:
  assumes q: "quiet_endpoint E J F"
    and F: "\<And>i. \<exists>j \<le> K. F (i + j) \<noteq> F i"
  shows "J i (world s) \<Longrightarrow> USB_DeviceState s \<notin> {DEVICE_STATE_Unattached, DEVICE_STATE_Suspended} \<Longrightarrow>
    F (i + j) \<noteq> p \<Longrightarrow> j + unat t * K < n \<Longrightarrow>
    \<exists>w. ready_loop E (ret ()) n p t s = Ok (ENDPOINT_READYWAIT_Timeout, s\<lparr>world := w\<rparr>)"
proof (induction n arbitrary: i s j p t)
  case (Suc n)
  obtain w where w: "J (Suc i) w"
    "ready_loop E (ret ()) (Suc n) p t s =
      (if F i \<noteq> p then if t = 0 then Ok (ENDPOINT_READYWAIT_Timeout, s\<lparr>world := w\<rparr>) else ready_loop E (ret ()) n (F i) (t - 1) (s\<lparr>world := w\<rparr>)
       else ready_loop E (ret ()) n p t (s\<lparr>world := w\<rparr>))"
    using quiet_round [OF q Suc.prems(1,2)] by metis
  consider "F i \<noteq> p" "t = 0" | "F i \<noteq> p" "t \<noteq> 0" | "F i = p" by blast
  then show ?case
  proof cases
    case 1
    then show ?thesis using w(2) by auto
  next
    case 2
    obtain j' where j': "j' \<le> K" "F (i + j') \<noteq> F i" using F by blast
    then obtain m where m: "j' = Suc m" by (cases j') auto
    have "unat t = Suc (unat (t - 1))" using 2(2) unat_gt_0 [of t] by (simp add: unat_minus_one)
    then have "unat t * K = unat (t - 1) * K + K" by simp
    then have "m + unat (t - 1) * K < n" using Suc.prems(4) j'(1) m by simp
    then show ?thesis
      using Suc.IH [of "Suc i" "s\<lparr>world := w\<rparr>" m "F i" "t - 1"] w(1) Suc.prems(2) j'(2) m w(2) 2 by (auto simp del: ready_loop.simps)
  next
    case 3
    then obtain m where m: "j = Suc m" using Suc.prems(3) by (cases j) auto
    then show ?thesis
      using Suc.IH [of "Suc i" "s\<lparr>world := w\<rparr>" m p t] w(1) Suc.prems(2-4) w(2) 3 by (auto simp del: ready_loop.simps)
  qed
qed simp

text \<open>C26: waiting for an endpoint that never becomes ready ends with the timeout code, as long as the frame number changes
  at least once in every \<open>K\<close> looks and the device stays attached and awake: a hundred and one changes are enough.\<close>

theorem WaitUntilReady_times_out:
  assumes "quiet_endpoint E J F" and "\<forall>i. \<exists>j \<le> K. F (i + j) \<noteq> F i" and "J 0 (world s)"
    and "USB_DeviceState s \<notin> {DEVICE_STATE_Unattached, DEVICE_STATE_Suspended}" and "101 * K < polls E"
  shows "\<exists>t. Endpoint_WaitUntilReady E (ret ()) s = Ok (ENDPOINT_READYWAIT_Timeout, t)"
proof -
  obtain w where w: "USB_Device_GetFrameNumber E s = Ok (F 0, s\<lparr>world := w\<rparr>)" "J (Suc 0) w"
    using quiet_frame [OF assms(1,3)] by metis
  obtain j where j: "j \<le> K" "F (0 + j) \<noteq> F 0" using assms(2) by blast
  then obtain m where m: "j = Suc m" by (cases j) auto
  have "m + unat USB_STREAM_TIMEOUT_MS * K < polls E" using assms(5) j(1) m by (simp add: USB_STREAM_TIMEOUT_MS_def)
  then have "\<exists>w'. ready_loop E (ret ()) (polls E) (F 0) USB_STREAM_TIMEOUT_MS (s\<lparr>world := w\<rparr>) = Ok (ENDPOINT_READYWAIT_Timeout, s\<lparr>world := w'\<rparr>)"
    using ready_loop_times_out [OF assms(1), of K "Suc 0" "s\<lparr>world := w\<rparr>" m "F 0" USB_STREAM_TIMEOUT_MS "polls E"] assms(2,4) w(2) j m
    by auto
  then show ?thesis using w(1) by (auto simp: Endpoint_WaitUntilReady_def pbind_def)
qed

text \<open>A bus on which time passes and nothing else happens: the world is the number of looks at the frame number.\<close>

definition clock_avr :: "nat usb_avr" where
  "clock_avr = \<lparr>rd = (\<lambda>r w. if r = UDFNUML then (of_nat w, w) else if r = UDFNUMH then (0, Suc w) else (0, w)),
     wr = (\<lambda>_ _ w. w), delay_ms = (\<lambda>_ w. w), getc = (\<lambda>w. (None, w)), put = (\<lambda>_ w. w), mainloop = (\<lambda>w. w), polls = 200,
     signature_byte = (\<lambda>_ w. (0, w)), gen_pending = (\<lambda>w. (False, w)), com_pending = (\<lambda>w. (False, w)),
     wdt_disable = (\<lambda>w. w), clock_prescale_set = (\<lambda>_ w. w)\<rparr>"

lemma quiet_clock: "quiet_endpoint clock_avr (\<lambda>i w. w = i) (\<lambda>i. of_le16 (of_nat i) 0)"
  by (simp add: quiet_endpoint_def clock_avr_def)

lemma clock_ticks: "of_le16 (of_nat (Suc i)) 0 \<noteq> of_le16 (of_nat i) 0"
proof
  assume "of_le16 (of_nat (Suc i)) 0 = of_le16 (of_nat i) 0"
  then have "(of_nat (Suc i) :: u8) = of_nat i" by (metis of_le16_bytes(1))
  then show False by simp
qed

theorem WaitUntilReady_times_out_witness:
  "\<exists>t. Endpoint_WaitUntilReady clock_avr (ret ()) (serial_boot 0\<lparr>USB_DeviceState := DEVICE_STATE_Configured\<rparr>) =
     Ok (ENDPOINT_READYWAIT_Timeout, t)"
proof -
  have ticks: "\<forall>i. \<exists>j \<le> 1. of_le16 (of_nat (i + j)) 0 \<noteq> of_le16 (of_nat i) 0"
  proof
    fix i
    show "\<exists>j \<le> 1. of_le16 (of_nat (i + j)) 0 \<noteq> of_le16 (of_nat i) 0"
      using clock_ticks [of i] by (intro exI [of _ 1]) simp
  qed
  show ?thesis
    by (rule WaitUntilReady_times_out [OF quiet_clock ticks]) (simp_all add: serial_boot_def clock_avr_def)
qed

section \<open>The serial port\<close>

text \<open>C13: whatever the host and the bus do, in every state that a running image reaches the configuration number is 0 or 1, and the
  three endpoints of the serial port have the addresses, sizes and banks of the source.\<close>

theorem serial_port_invariant:
  assumes "serial_reach E call s"
  shows "USB_Device_ConfigurationNumber s \<le> 1 \<and>
    map (\<lambda>e. (ep_Address e, ep_Size e, ep_Banks e))
      [DataINEndpoint (cdc_config s), DataOUTEndpoint (cdc_config s), NotificationEndpoint (cdc_config s)] =
    [(CDC_TX_EPADDR, CDC_TXRX_EPSIZE, 1), (CDC_RX_EPADDR, CDC_TXRX_EPSIZE, 1), (CDC_NOTIFICATION_EPADDR, CDC_NOTIFICATION_EPSIZE, 1)]"
proof -
  have ok: "serial_ok s" using assms by (rule reach_ok)
  let ?c = "typed_config (cdc_config s)" and ?d = "typed_config (Config VirtualSerial_CDC_Interface)"
  have "map (\<lambda>e. (ep_Address e, ep_Size e, ep_Banks e)) [DataINEndpoint ?c, DataOUTEndpoint ?c, NotificationEndpoint ?c] =
    map (\<lambda>e. (ep_Address e, ep_Size e, ep_Banks e)) [DataINEndpoint ?d, DataOUTEndpoint ?d, NotificationEndpoint ?d]"
    using ok by (simp add: serial_ok_def)
  moreover have "USB_Device_ConfigurationNumber s \<le> 1" using ok by (simp add: serial_ok_def FIXED_NUM_CONFIGURATIONS_def)
  ultimately show ?thesis by (simp add: typed_config_def VirtualSerial_CDC_Interface_def)
qed

text \<open>Programs that return from every state.\<close>

named_theorems total_intros \<open>programs that always return\<close>

definition always :: "('s, 'a) prog \<Rightarrow> bool" where
  "always m \<longleftrightarrow> (\<forall>s. \<exists>x t. m s = Ok (x, t))"

lemma always_basic [total_intros]: "always (ret x)" "always (pget f)" "always (pmod g)"
  by (simp_all add: always_def prog_simps)

lemma always_plift: "r = Ok v \<Longrightarrow> always (plift r)"
  by (simp add: always_def plift_def)

lemma always_pbind [total_intros]: "always m \<Longrightarrow> (\<And>x. always (f x)) \<Longrightarrow> always (pbind m f)"
  unfolding always_def using pbind_Ok_iff [of m f] by meson

lemma always_pif [total_intros]: "always c \<Longrightarrow> always m \<Longrightarrow> always k \<Longrightarrow> always (pif c m k)"
  unfolding pif_def by (auto intro: total_intros)

lemma always_if [total_intros]: "always m \<Longrightarrow> always k \<Longrightarrow> always (if b then m else k)"
  by simp

lemma always_prod [total_intros]: "(\<And>a b. always (k a b)) \<Longrightarrow> always (case p of (a, b) \<Rightarrow> k a b)"
  by (cases p) auto

lemma always_pseq [total_intros]: "always (pseq [])" "always m \<Longrightarrow> always (pseq ms) \<Longrightarrow> always (pseq (m # ms))"
  by (auto intro: total_intros)

lemma always_pwhen [total_intros]: "always m \<Longrightarrow> always (pwhen b m)"
  unfolding pwhen_def by (auto intro: total_intros)

lemma always_regs [total_intros]: "always (reg_rd E r)" "always (reg_wr E r v)"
  by (simp_all add: always_def reg_rd_def reg_wr_def case_prod_unfold)

lemma always_reg_ops [total_intros]: "always (reg_or E r m)" "always (reg_and E r m)" "always (reg_test E r m)"
  unfolding reg_or_def reg_and_def reg_test_def by (intro total_intros)+

lemma always_configure_loop [total_intros]: "always (ep_configure_loop E n a b eps)"
proof (induction eps)
  case (Cons e eps)
  show ?case
    unfolding ep_configure_loop.simps ep_reconfigure_def Endpoint_SelectEndpoint_def Endpoint_DisableEndpoint_def
      Endpoint_EnableEndpoint_def Endpoint_IsConfigured_def
    by (intro total_intros Cons.IH)
qed (simp add: Endpoint_SelectEndpoint_def, intro total_intros)

lemma always_ConfigureEndpoint: "z \<le> 0x8000 \<Longrightarrow> always (Endpoint_ConfigureEndpoint E a ty z b)"
proof -
  assume "z \<le> 0x8000"
  then obtain v where "Endpoint_BytesToEPSizeMask z = Ok v"
    using ep_size_loop_from [of 0 z] by (auto simp: Endpoint_BytesToEPSizeMask_def)
  then show ?thesis
    unfolding Endpoint_ConfigureEndpoint_def Let_def Endpoint_ConfigureEndpoint_Prv_def
    by (auto intro!: total_intros always_plift)
qed

lemma always_USB_Init [total_intros]: "always (USB_Init E)"
  unfolding USB_Init_def USB_ResetInterface_def USB_Init_Device_def USB_INT_DisableAllInterrupts_def
    USB_INT_ClearAllInterrupts_def configure_control_def set_state_def USB_INT_Enable.simps USB_INT_Clear.simps
    USB_Device_SetLowSpeed_def USB_Device_SetFullSpeed_def USB_Attach_def USB_PLL_Off_def USB_REG_On_def USB_REG_Off_def
    USB_OTGPAD_On_def USB_OTGPAD_Off_def USB_CLK_Unfreeze_def USB_Controller_Reset_def
  by (intro total_intros always_ConfigureEndpoint) (simp add: FIXED_CONTROL_ENDPOINT_SIZE_def)

lemma always_SetupHardware: "always (SetupHardware E p q)"
  unfolding SetupHardware_def by (intro total_intros)

theorem serial_port_invariant_witness:
  "\<exists>s. serial_reach clock_avr (\<lambda>_ :: unit. ret ()) s \<and> USB_Device_ConfigurationNumber s \<le> 1 \<and>
     ep_Address (DataINEndpoint (cdc_config s)) = 0x83"
proof -
  obtain s where s: "SetupHardware clock_avr Stray Stray (serial_boot 0 :: (nat, unit) serial) = Ok ((), s)"
    using always_SetupHardware [of clock_avr Stray Stray] unfolding always_def by (metis old.unit.exhaust)
  then have r: "serial_reach clock_avr (\<lambda>_. ret ()) s" by (rule serial_reach.started) simp_all
  from serial_port_invariant [OF r] show ?thesis using r
    by (intro exI [of _ s]) (simp add: CDC_TX_EPADDR_def ENDPOINT_DIR_IN_def)
qed


section \<open>Configuration 0\<close>

text \<open>What only touches registers leaves the state of the device and its configuration alone.\<close>

definition at_state :: "device_state \<Rightarrow> u8 \<Rightarrow> ('w, 'z) usb_scheme \<Rightarrow> bool" where
  "at_state d n s \<longleftrightarrow> USB_DeviceState s = d \<and> USB_Device_ConfigurationNumber s = n"

interpretation hw: hw_invariant "at_state d n"
  by unfold_locales (simp add: at_state_def)

lemma config_changed_state: "keeps (at_state d n) (EVENT_USB_Device_ConfigurationChanged E)"
  unfolding EVENT_USB_Device_ConfigurationChanged_def CDC_Device_ConfigureEndpoints_def set_cdc_state_def
  by (intro keeps_intros hw.k_ConfigureEndpointTable keeps_pmod) (simp_all add: at_state_def)

lemma always_table:
  "(\<And>x. x \<in> set ts \<Longrightarrow> ep_Size x \<le> 0x8000) \<Longrightarrow> always (Endpoint_ConfigureEndpointTable E ts)"
  by (induction ts) (auto intro!: total_intros always_ConfigureEndpoint)

lemma config_changed_returns:
  assumes "serial_ok s"
  shows "\<exists>t. EVENT_USB_Device_ConfigurationChanged E s = Ok ((), t)"
proof -
  let ?c = "typed_config (cdc_config s)"
  have c: "?c = typed_config (Config VirtualSerial_CDC_Interface)" using assms by (simp add: serial_ok_def)
  let ?tables = "pif (Endpoint_ConfigureEndpointTable E [DataINEndpoint ?c])
       (pif (Endpoint_ConfigureEndpointTable E [DataOUTEndpoint ?c])
          (pif (Endpoint_ConfigureEndpointTable E [NotificationEndpoint ?c]) (ret True) (ret False)) (ret False)) (ret False)"
  have "always (pbind ?tables (\<lambda>_. ret ()))"
    unfolding c by (intro total_intros always_table) (auto simp: typed_config_def VirtualSerial_CDC_Interface_def desc_consts)
  moreover have "EVENT_USB_Device_ConfigurationChanged E s =
    pbind ?tables (\<lambda>_. ret ()) (s\<lparr>CDCInterfaceInfo := (CDCInterfaceInfo s)\<lparr>State := zero_state, Config := ?c\<rparr>\<rparr>)"
    unfolding EVENT_USB_Device_ConfigurationChanged_def CDC_Device_ConfigureEndpoints_def set_cdc_state_def
    by (simp add: pbind_def pmod_def pget_def del: Endpoint_ConfigureEndpointTable.simps)
  ultimately show ?thesis unfolding always_def by (metis (full_types) old.unit.exhaust)
qed

text \<open>When the host of an addressed device selects configuration 0 and takes the status packet, the device ends with
  configuration number 0 but in the configured state.\<close>

theorem configuration_0_configured:
  assumes ok: "serial_ok s"
    and req: "ucast (wValue (USB_ControlRequest s)) = (0 :: u8)" "bmRequestType (USB_ControlRequest s) = HOSTTODEVICE_DEVICE"
    and host: "\<forall>w. fst (rd E UEINTX w) AND TXINI \<noteq> 0" and addressed: "\<forall>w. fst (rd E UDADDR w) AND ADDEN \<noteq> 0"
    and "0 < polls E"
  shows "\<exists>t. USB_Device_SetConfiguration E (serial_app E call) s = Ok ((), t) \<and>
    USB_Device_ConfigurationNumber t = 0 \<and> USB_DeviceState t = DEVICE_STATE_Configured"
proof -
  obtain n where n: "polls E = Suc n" using assms(6) by (cases "polls E") auto
  let ?first = "pseq [Endpoint_ClearSETUP E, pmod (\<lambda>s. s\<lparr>USB_Device_ConfigurationNumber := 0\<rparr>),
     Endpoint_ClearStatusStage E (gen_point E (serial_app E call)),
     pbind (pget USB_Device_ConfigurationNumber) (\<lambda>n.
       if n \<noteq> 0 then set_state DEVICE_STATE_Configured
       else pif (USB_Device_IsAddressSet E) (set_state DEVICE_STATE_Configured) (set_state DEVICE_STATE_Powered))]"
  have "\<exists>w. ?first s = Ok ((), s\<lparr>USB_Device_ConfigurationNumber := 0, world := w, USB_DeviceState := DEVICE_STATE_Configured\<rparr>)"
    using host addressed req(2) n
    by (simp add: prog_simps Endpoint_ClearSETUP_def Endpoint_ClearStatusStage_def Endpoint_IsINReady_def Endpoint_ClearIN_def
      USB_Device_IsAddressSet_def reg_and_def reg_test_def reg_rd_def reg_wr_def set_state_def HOSTTODEVICE_DEVICE_def case_prod_unfold) (rule exI, rule refl)
  then obtain w where u: "?first s = Ok ((), s\<lparr>USB_Device_ConfigurationNumber := 0, world := w, USB_DeviceState := DEVICE_STATE_Configured\<rparr>)" (is "_ = Ok ((), ?u)")
    by blast
  have "serial_ok ?u" using ok by (simp add: serial_ok_def)
  then obtain t where t: "EVENT_USB_Device_ConfigurationChanged E ?u = Ok ((), t)" using config_changed_returns by blast
  have "at_state DEVICE_STATE_Configured 0 ?u" by (simp add: at_state_def)
  then have "at_state DEVICE_STATE_Configured 0 t" by (rule keepsD [OF config_changed_state t])
  moreover have "USB_Device_SetConfiguration E (serial_app E call) s = pbind ?first (\<lambda>_. EVENT_USB_Device_ConfigurationChanged E) s"
    using req(1)
    by (simp add: USB_Device_SetConfiguration_def serial_app_def FIXED_NUM_CONFIGURATIONS_def pbind_def pget_def ret_def fun_eq_iff split: result.splits prod.splits)
  ultimately show ?thesis using t unfolding pbind_def [of ?first] u by (auto simp: at_state_def)
qed

theorem configuration_0_configured_witness:
  "\<exists>t. USB_Device_SetConfiguration (clock_avr\<lparr>rd := \<lambda>_ w. (0xFF, w)\<rparr>) (serial_app (clock_avr\<lparr>rd := \<lambda>_ w. (0xFF, w)\<rparr>) (\<lambda>_ :: unit. ret ()))
       (serial_boot 0) = Ok ((), t) \<and>
     USB_Device_ConfigurationNumber t = 0 \<and> USB_DeviceState t = DEVICE_STATE_Configured"
  by (rule configuration_0_configured [OF boot_ok])
    (simp_all add: serial_boot_def HOSTTODEVICE_DEVICE_def clock_avr_def usb_bits)

section \<open>The configuration descriptor\<close>

lemmas desc_eval = config_parts_def config_header_bytes_def interface_bytes_def endpoint_bytes_def header_bytes_def le16_def
  Config_header_def CDC_CCI_Interface_def CDC_Functional_Header_def CDC_Functional_ACM_def CDC_Functional_Union_def
  CDC_NotificationEndpoint_def CDC_DCI_Interface_def CDC_DataOutEndpoint_def CDC_DataInEndpoint_def VERSION_BCD_def
  sizeof_Configuration_def desc_sizes desc_consts

text \<open>The bytes that lie in flash.\<close>

lemma config_bytes:
  "config_parts =
    [[9, 2, 62, 0, 2, 1, 0, 192, 50],
     [9, 4, 0, 0, 1, 2, 2, 1, 0], [5, 36, 0, 16, 1], [4, 36, 2, 6], [5, 36, 6, 0, 1], [7, 5, 130, 3, 8, 0, 255],
     [9, 4, 1, 0, 2, 10, 0, 0, 0], [7, 5, 4, 2, 16, 0, 5], [7, 5, 131, 2, 16, 0, 5]]"
  by (simp add: desc_eval)

text \<open>C30: the configuration descriptor is a chain of well-formed descriptors as long as it says it is, with as many interfaces as it
  says; its endpoints are, in address and size, those that the serial port opens; and the library's own search finds them at
  offsets 32, 48 and 55.\<close>

theorem config_descriptor_wf:
  "(list_all wf_desc config_parts \<and>
    unat (cfg_TotalConfigurationSize Config_header) = length ConfigurationDescriptor \<and>
    unat (cfg_TotalInterfaces Config_header) = length (filter (\<lambda>d. d ! 1 = DTYPE_Interface) config_parts)) \<and>
   map (\<lambda>d. (d ! 2, of_le16 (d ! 4) (d ! 5))) (filter (\<lambda>d. d ! 1 = DTYPE_Endpoint) config_parts) =
     (let c = Config VirtualSerial_CDC_Interface in
      map (\<lambda>e. (ep_Address e, ep_Size e)) [NotificationEndpoint c, DataOUTEndpoint c, DataINEndpoint c]) \<and>
   map (USB_GetNextDescriptorOfType ConfigurationDescriptor DTYPE_Endpoint) [(62, 0), (30, 32), (14, 48)] =
     [Ok (30, 32), Ok (14, 48), Ok (7, 55)]"
proof (intro conjI)
  show "list_all wf_desc config_parts" by (simp add: config_bytes wf_desc_def)
  show "unat (cfg_TotalConfigurationSize Config_header) = length ConfigurationDescriptor"
    by (simp add: ConfigurationDescriptor_def config_bytes Config_header_def sizeof_Configuration_def desc_sizes)
  show "unat (cfg_TotalInterfaces Config_header) = length (filter (\<lambda>d. d ! 1 = DTYPE_Interface) config_parts)"
    by (simp add: config_bytes Config_header_def DTYPE_Interface_def)
  show "map (\<lambda>d. (d ! 2, of_le16 (d ! 4) (d ! 5))) (filter (\<lambda>d. d ! 1 = DTYPE_Endpoint) config_parts) =
     (let c = Config VirtualSerial_CDC_Interface in
      map (\<lambda>e. (ep_Address e, ep_Size e)) [NotificationEndpoint c, DataOUTEndpoint c, DataINEndpoint c])"
    by (simp add: config_bytes DTYPE_Endpoint_def VirtualSerial_CDC_Interface_def desc_consts of_le16_def)
  show "map (USB_GetNextDescriptorOfType ConfigurationDescriptor DTYPE_Endpoint) [(62, 0), (30, 32), (14, 48)] =
     [Ok (30, 32), Ok (14, 48), Ok (7, 55)]"
    by (simp add: ConfigurationDescriptor_def config_bytes DTYPE_Endpoint_def) code_simp
qed

end
