(* ===== verification/Bulk_Link.thy ===== *)
theory Bulk_Link
  imports Cdc_Device
begin

text \<open>
  A pair of data endpoints seen by the host, and the contract of a character device on top of them. \<open>serial_link\<close> describes the
  endpoints of the data sheet with a host that collects a packet as soon as it is released. The class drivers for serial ports and
  printers share the code of their data operations; the lemmas here are about that code, once for both. The
  locale \<open>char_device\<close> is what \<^verbatim>\<open>stdio\<close> relies on: writing appends, reading takes the next byte, the task releases.
\<close>

section \<open>The data endpoints\<close>

text \<open>The selected endpoint, the bytes in the bank to the host, the packets released to the host, and the packets from the host.\<close>

record link =
  sel :: u8
  bank_in :: "u8 list"
  released :: "u8 list list"
  arrived :: "u8 list list"

text \<open>Registers that are read without effect.\<close>

definition link_reads :: "'w usb_avr \<Rightarrow> ('w \<Rightarrow> link) \<Rightarrow> bool" where
  "link_reads E V \<longleftrightarrow>
     (\<forall>w r. r \<in> {UEINTX, UEBCHX, UEBCLX, UECFG0X, UENUM, UDFNUML, UDFNUMH} \<longrightarrow> V (snd (rd E r w)) = V w) \<and>
     (\<forall>w. fst (rd E UEBCHX w) = 0 \<and> fst (rd E UENUM w) = sel (V w)) \<and>
     (\<forall>w n. V (wr E UENUM n w) = (V w)\<lparr>sel := n\<rparr>) \<and>
     (\<forall>w. sel (V w) = ENDPOINT_CONTROLEP \<longrightarrow> fst (rd E UEINTX w) AND RXSTPI = 0)"

text \<open>The endpoint to the host, with one bank of sixteen bytes.\<close>

definition link_in :: "'w usb_avr \<Rightarrow> ('w \<Rightarrow> link) \<Rightarrow> u8 \<Rightarrow> bool" where
  "link_in E V tx \<longleftrightarrow>
     (\<forall>w. sel (V w) = tx \<longrightarrow>
        fst (rd E UECFG0X w) AND EPDIR \<noteq> 0 \<and> fst (rd E UEINTX w) AND TXINI \<noteq> 0 \<and>
        (fst (rd E UEINTX w) AND RWAL \<noteq> 0) = (length (bank_in (V w)) < 16) \<and>
        fst (rd E UEBCLX w) = of_nat (length (bank_in (V w))) \<and>
        (\<forall>v. v AND FIFOCON = 0 \<longrightarrow> V (wr E UEINTX v w) = (V w)\<lparr>released := released (V w) @ [bank_in (V w)], bank_in := []\<rparr>) \<and>
        (\<forall>b. length (bank_in (V w)) < 16 \<longrightarrow> V (wr E UEDATX b w) = (V w)\<lparr>bank_in := bank_in (V w) @ [b]\<rparr>))"

text \<open>The endpoint from the host.\<close>

definition link_out :: "'w usb_avr \<Rightarrow> ('w \<Rightarrow> link) \<Rightarrow> u8 \<Rightarrow> bool" where
  "link_out E V rx \<longleftrightarrow>
     (\<forall>w. sel (V w) = rx \<longrightarrow>
        (fst (rd E UEINTX w) AND RXOUTI \<noteq> 0) = (arrived (V w) \<noteq> []) \<and>
        (\<forall>v. v AND FIFOCON = 0 \<longrightarrow> V (wr E UEINTX v w) = (V w)\<lparr>arrived := tl (arrived (V w))\<rparr>) \<and>
        (\<forall>p ps. arrived (V w) = p # ps \<longrightarrow> fst (rd E UEBCLX w) = of_nat (length p) \<and>
           (p \<noteq> [] \<longrightarrow> fst (rd E UEDATX w) = hd p \<and> V (snd (rd E UEDATX w)) = (V w)\<lparr>arrived := tl p # ps\<rparr>)))"

definition serial_link :: "'w usb_avr \<Rightarrow> ('w \<Rightarrow> link) \<Rightarrow> u8 \<Rightarrow> u8 \<Rightarrow> bool" where
  "serial_link E V tx rx \<longleftrightarrow> link_reads E V \<and> link_in E V tx \<and> link_out E V rx"

lemma reads_simps:
  assumes "link_reads E V"
  shows "V (snd (rd E UEINTX w)) = V w" "V (snd (rd E UEBCHX w)) = V w" "V (snd (rd E UEBCLX w)) = V w" "V (snd (rd E UECFG0X w)) = V w"
    "V (snd (rd E UENUM w)) = V w" "V (snd (rd E UDFNUML w)) = V w" "V (snd (rd E UDFNUMH w)) = V w"
    "fst (rd E UEBCHX w) = 0" "fst (rd E UENUM w) = sel (V w)" "V (wr E UENUM n w) = (V w)\<lparr>sel := n\<rparr>"
    "sel (V w) = ENDPOINT_CONTROLEP \<Longrightarrow> fst (rd E UEINTX w) AND RXSTPI = 0"
  using assms unfolding link_reads_def by blast+

lemma in_simps:
  assumes "link_in E V tx" and "sel (V w) = tx"
  shows "fst (rd E UECFG0X w) AND EPDIR \<noteq> 0" "fst (rd E UEINTX w) AND TXINI \<noteq> 0"
    "fst (rd E UEINTX w) AND RWAL = 0 \<longleftrightarrow> \<not> length (bank_in (V w)) < 16" "fst (rd E UEBCLX w) = of_nat (length (bank_in (V w)))"
    "v AND FIFOCON = 0 \<Longrightarrow> V (wr E UEINTX v w) = (V w)\<lparr>released := released (V w) @ [bank_in (V w)], bank_in := []\<rparr>"
    "length (bank_in (V w)) < 16 \<Longrightarrow> V (wr E UEDATX b w) = (V w)\<lparr>bank_in := bank_in (V w) @ [b]\<rparr>"
  using assms unfolding link_in_def by blast+

lemma out_simps:
  assumes "link_out E V rx" and "sel (V w) = rx"
  shows "fst (rd E UEINTX w) AND RXOUTI = 0 \<longleftrightarrow> arrived (V w) = []"
    "v AND FIFOCON = 0 \<Longrightarrow> V (wr E UEINTX v w) = (V w)\<lparr>arrived := tl (arrived (V w))\<rparr>"
    "arrived (V w) = p # ps \<Longrightarrow> fst (rd E UEBCLX w) = of_nat (length p)"
    "arrived (V w) = (b # bs) # ps \<Longrightarrow> fst (rd E UEDATX w) = b"
    "arrived (V w) = (b # bs) # ps \<Longrightarrow> V (snd (rd E UEDATX w)) = (V w)\<lparr>arrived := bs # ps\<rparr>"
  using assms unfolding link_out_def by fastforce+

lemma mask_and: "(v AND NOT m) AND k = v AND (NOT m AND k)" for v :: u8
  by (simp add: and.assoc)

lemma clear_masks:
  "(v AND NOT (TXINI OR FIFOCON)) AND FIFOCON = 0" "(v AND NOT (RXOUTI OR FIFOCON)) AND FIFOCON = 0"
  unfolding mask_and by (simp_all add: usb_bits)

section \<open>The steps of the driver, seen through the view\<close>

lemma reg_test_runs: "reg_test E r m s = Ok (fst (rd E r (world s)) AND m \<noteq> 0, s\<lparr>world := snd (rd E r (world s))\<rparr>)"
  by (simp add: reg_test_def reg_rd_def prog_simps case_prod_unfold)

lemma reg_and_run:
  "reg_and E r m s = Ok ((), s\<lparr>world := wr E r (fst (rd E r (world s)) AND m) (snd (rd E r (world s)))\<rparr>)"
  by (simp add: reg_and_def reg_rd_def reg_wr_def prog_simps case_prod_unfold)

lemma link_select:
  assumes "link_reads E V"
  shows "\<exists>w. Endpoint_SelectEndpoint E a s = Ok ((), s\<lparr>world := w\<rparr>) \<and> V w = (V (world s))\<lparr>sel := a AND ENDPOINT_EPNUM_MASK\<rparr>"
  by (auto simp: Endpoint_SelectEndpoint_def reg_wr_def reads_simps [OF assms])

lemma link_count:
  assumes "link_reads E V" and "fst (rd E UEBCLX (snd (rd E UEBCHX (world s)))) = of_nat n" and "n \<le> 16"
  shows "\<exists>w. Endpoint_BytesInEndpoint E s = Ok (of_nat n, s\<lparr>world := w\<rparr>) \<and> V w = V (world s)"
proof -
  have "of_le16 (of_nat n) 0 = of_nat n"
    using assms(3) by (intro word_unat_eq_iff [THEN iffD2])
      (simp add: of_le16_def unsigned_of_nat take_bit_nat_eq_self unat_of_nat_u16 unsigned_ucast_eq)
  then show ?thesis
    by (auto simp: Endpoint_BytesInEndpoint_def reg_rd_def prog_simps case_prod_unfold reads_simps [OF assms(1)] assms(2))
qed

lemma link_in_runs:
  assumes r: "link_reads E V" and i: "link_in E V tx" and t: "sel (V (world s)) = tx"
  shows "\<exists>w. Endpoint_IsReadWriteAllowed E s = Ok (length (bank_in (V (world s))) < 16, s\<lparr>world := w\<rparr>) \<and> V w = V (world s)"
    "\<exists>w. Endpoint_IsINReady E s = Ok (True, s\<lparr>world := w\<rparr>) \<and> V w = V (world s)"
    "\<exists>w. Endpoint_GetEndpointDirection E s = Ok (ENDPOINT_DIR_IN, s\<lparr>world := w\<rparr>) \<and> V w = V (world s)"
    "\<exists>w. Endpoint_ClearIN E s = Ok ((), s\<lparr>world := w\<rparr>) \<and>
       V w = (V (world s))\<lparr>released := released (V (world s)) @ [bank_in (V (world s))], bank_in := []\<rparr>"
    "length (bank_in (V (world s))) < 16 \<Longrightarrow> \<exists>w. Endpoint_Write_8 E b s = Ok ((), s\<lparr>world := w\<rparr>) \<and>
       V w = (V (world s))\<lparr>bank_in := bank_in (V (world s)) @ [b]\<rparr>"
  using in_simps [OF i t] in_simps(5) [OF i, of "snd (rd E UEINTX (world s))"] t reads_simps(1,4) [OF r]
  by (auto simp: Endpoint_IsReadWriteAllowed_def Endpoint_IsINReady_def Endpoint_GetEndpointDirection_def Endpoint_ClearIN_def
      Endpoint_Write_8_def reg_test_runs reg_and_run reg_wr_def pif_def pbind_def ret_def clear_masks simp del: bit.conj_disj_distribs bit.de_Morgan_disj)

lemma link_wait:
  assumes r: "link_reads E V" and i: "link_in E V tx" and t: "sel (V (world s)) = tx" and fuel: "0 < polls E"
  shows "\<exists>w. Endpoint_WaitUntilReady E I s = Ok (ENDPOINT_READYWAIT_NoError, s\<lparr>world := w\<rparr>) \<and> V w = V (world s)"
proof -
  obtain n w1 where w1: "USB_Device_GetFrameNumber E s = Ok (n, s\<lparr>world := w1\<rparr>)" "V w1 = V (world s)"
    by (auto simp: USB_Device_GetFrameNumber_def reg_rd_def prog_simps case_prod_unfold reads_simps [OF r])
  obtain w2 where w2: "Endpoint_GetEndpointDirection E (s\<lparr>world := w1\<rparr>) = Ok (ENDPOINT_DIR_IN, s\<lparr>world := w2\<rparr>)" "V w2 = V (world s)"
    using link_in_runs(3) [OF r i, of "s\<lparr>world := w1\<rparr>"] w1(2) t by auto
  obtain w3 where w3: "Endpoint_IsINReady E (s\<lparr>world := w2\<rparr>) = Ok (True, s\<lparr>world := w3\<rparr>)" "V w3 = V (world s)"
    using link_in_runs(2) [OF r i, of "s\<lparr>world := w2\<rparr>"] w2(2) t by auto
  obtain m where "polls E = Suc m" using fuel by (cases "polls E") auto
  with w1 w2 w3 show ?thesis
    by (intro exI [of _ w3]) (simp add: Endpoint_WaitUntilReady_def prog_simps)
qed

text \<open>What the host has received, or finds in the bank.\<close>

definition written :: "link \<Rightarrow> u8 list" where
  "written l = concat (released l) @ bank_in l"

lemma link_out_runs:
  assumes r: "link_reads E V" and q: "link_out E V rx" and t: "sel (V (world s)) = rx"
  shows "\<exists>w. Endpoint_IsOUTReceived E s = Ok (arrived (V (world s)) \<noteq> [], s\<lparr>world := w\<rparr>) \<and> V w = V (world s)"
    "\<exists>w. Endpoint_ClearOUT E s = Ok ((), s\<lparr>world := w\<rparr>) \<and> V w = (V (world s))\<lparr>arrived := tl (arrived (V (world s)))\<rparr>"
    "arrived (V (world s)) = (b # bs) # ps \<Longrightarrow>
      \<exists>w. Endpoint_Read_8 E s = Ok (b, s\<lparr>world := w\<rparr>) \<and> V w = (V (world s))\<lparr>arrived := bs # ps\<rparr>"
    "arrived (V (world s)) = p # ps \<Longrightarrow> length p \<le> 16 \<Longrightarrow>
      \<exists>w. Endpoint_BytesInEndpoint E s = Ok (of_nat (length p), s\<lparr>world := w\<rparr>) \<and> V w = V (world s)"
proof -
  show "\<exists>w. Endpoint_IsOUTReceived E s = Ok (arrived (V (world s)) \<noteq> [], s\<lparr>world := w\<rparr>) \<and> V w = V (world s)"
    using out_simps(1) [OF q t] reads_simps(1) [OF r] by (auto simp: Endpoint_IsOUTReceived_def reg_test_runs)
  show "\<exists>w. Endpoint_ClearOUT E s = Ok ((), s\<lparr>world := w\<rparr>) \<and> V w = (V (world s))\<lparr>arrived := tl (arrived (V (world s)))\<rparr>"
    using out_simps(2) [OF q, of "snd (rd E UEINTX (world s))", OF _ clear_masks(2)] t reads_simps(1) [OF r]
    by (simp add: Endpoint_ClearOUT_def reg_and_run del: bit.conj_disj_distribs bit.de_Morgan_disj) blast
  show "\<exists>w. Endpoint_Read_8 E s = Ok (b, s\<lparr>world := w\<rparr>) \<and> V w = (V (world s))\<lparr>arrived := bs # ps\<rparr>"
    if "arrived (V (world s)) = (b # bs) # ps"
    using out_simps(4,5) [OF q t that] by (auto simp: Endpoint_Read_8_def reg_rd_def case_prod_unfold)
  show "\<exists>w. Endpoint_BytesInEndpoint E s = Ok (of_nat (length p), s\<lparr>world := w\<rparr>) \<and> V w = V (world s)"
    if "arrived (V (world s)) = p # ps" "length p \<le> 16"
    using link_count [OF r _ that(2)] out_simps(3) [OF q, of "snd (rd E UEBCHX (world s))" p ps] that(1) t reads_simps(2) [OF r] by simp
qed

text \<open>What one \<^verbatim>\<open>getchar\<close> gives, and what is left: a packet is acknowledged with its last byte.\<close>

fun take_char :: "u8 list list \<Rightarrow> int \<times> u8 list list" where
  "take_char [] = (FDEV_EOF, [])"
| "take_char ([] # ps) = (FDEV_EOF, ps)"
| "take_char ((b # bs) # ps) = (uint b, if bs = [] then ps else bs # ps)"

lemma count_zero: "length xs \<le> 16 \<Longrightarrow> (of_nat (length xs) :: u16) = 0 \<longleftrightarrow> xs = []" for xs :: "u8 list"
  by (simp add: word_unat_eq_iff unat_of_nat_u16)

text \<open>After its last byte the packet is acknowledged.\<close>

lemma close_packet:
  assumes r: "link_reads E V" and q: "link_out E V rx" and v: "sel (V w4) = rx" "arrived (V w4) = xs # ps" "length xs \<le> 16"
  shows "\<exists>w. pbind (Endpoint_BytesInEndpoint E) (\<lambda>b. pbind (pwhen (b = 0) (Endpoint_ClearOUT E)) (\<lambda>_. ret x)) (s\<lparr>world := w4\<rparr>) =
      Ok (x, s\<lparr>world := w\<rparr>) \<and> V w = (V w4)\<lparr>arrived := (if xs = [] then ps else xs # ps)\<rparr>"
proof -
  obtain w5 where w5: "Endpoint_BytesInEndpoint E (s\<lparr>world := w4\<rparr>) = Ok (of_nat (length xs), s\<lparr>world := w5\<rparr>)" "V w5 = V w4"
    using link_out_runs(4) [OF r q, of "s\<lparr>world := w4\<rparr>" xs ps] v by auto
  obtain w6 where w6: "Endpoint_ClearOUT E (s\<lparr>world := w5\<rparr>) = Ok ((), s\<lparr>world := w6\<rparr>)" "V w6 = (V w5)\<lparr>arrived := tl (arrived (V w5))\<rparr>"
    using link_out_runs(2) [OF r q, of "s\<lparr>world := w5\<rparr>"] w5(2) v by auto
  show ?thesis
  proof (cases "xs = []")
    case True
    then show ?thesis using w5 w6 v by (intro exI [of _ w6]) (simp add: prog_simps)
  next
    case False
    then show ?thesis using w5 v count_zero [OF v(3)] by (intro exI [of _ w5]) (simp add: prog_simps flip: v(2))
  qed
qed


section \<open>The shared code of the data operations\<close>

lemma pif_pget: "pif (pget g) a b s = (if g s then a s else b s)" and pbind_pget: "pbind (pget f) k s = k (f s) s"
  by (simp_all add: prog_simps)

lemma wait_for_now: "c s = Ok (True, s') \<Longrightarrow> 0 < n \<Longrightarrow> wait_for n c k s = Ok (None, s')"
  by (cases n) (simp_all add: prog_simps)

text \<open>Sending one byte: a full bank is released first.\<close>

lemma send_byte_body:
  assumes r: "link_reads E V" and i: "link_in E V tx" and ad: "a AND ENDPOINT_EPNUM_MASK = tx" and fuel: "0 < polls E"
    and b: "length (bank_in (V (world s))) \<le> 16"
  shows "\<exists>w. pbind (Endpoint_SelectEndpoint E a) (\<lambda>_.
      pbind (pif (Endpoint_IsReadWriteAllowed E) (ret ENDPOINT_READYWAIT_NoError)
               (pbind (Endpoint_ClearIN E) (\<lambda>_. Endpoint_WaitUntilReady E I))) (\<lambda>ErrorCode.
      if ErrorCode \<noteq> ENDPOINT_READYWAIT_NoError then ret ErrorCode
      else pbind (Endpoint_Write_8 E c) (\<lambda>_. ret ENDPOINT_READYWAIT_NoError))) s = Ok (0, s\<lparr>world := w\<rparr>) \<and>
    written (V w) = written (V (world s)) @ [c] \<and> length (bank_in (V w)) \<le> 16 \<and> arrived (V w) = arrived (V (world s))"
proof -
  let ?v = "(V (world s))\<lparr>sel := tx\<rparr>"
  obtain w1 where w1: "Endpoint_SelectEndpoint E a s = Ok ((), s\<lparr>world := w1\<rparr>)" "V w1 = ?v"
    using link_select [OF r, of a s] ad by auto
  obtain w2 where w2: "Endpoint_IsReadWriteAllowed E (s\<lparr>world := w1\<rparr>) = Ok (length (bank_in ?v) < 16, s\<lparr>world := w2\<rparr>)" "V w2 = ?v"
    using link_in_runs(1) [OF r i, of "s\<lparr>world := w1\<rparr>"] w1(2) by auto
  have "\<exists>w3. pif (Endpoint_IsReadWriteAllowed E) (ret ENDPOINT_READYWAIT_NoError)
      (pbind (Endpoint_ClearIN E) (\<lambda>_. Endpoint_WaitUntilReady E I)) (s\<lparr>world := w1\<rparr>) = Ok (ENDPOINT_READYWAIT_NoError, s\<lparr>world := w3\<rparr>) \<and>
      sel (V w3) = tx \<and> written (V w3) = written ?v \<and> length (bank_in (V w3)) < 16 \<and> arrived (V w3) = arrived ?v"
  proof (cases "length (bank_in ?v) < 16")
    case True
    with w2 show ?thesis by (intro exI [of _ w2]) (simp add: prog_simps)
  next
    case False
    obtain w3 where w3: "Endpoint_ClearIN E (s\<lparr>world := w2\<rparr>) = Ok ((), s\<lparr>world := w3\<rparr>)"
        "V w3 = ?v\<lparr>released := released ?v @ [bank_in ?v], bank_in := []\<rparr>"
      using link_in_runs(4) [OF r i, of "s\<lparr>world := w2\<rparr>"] w2(2) by auto
    obtain w4 where "Endpoint_WaitUntilReady E I (s\<lparr>world := w3\<rparr>) = Ok (ENDPOINT_READYWAIT_NoError, s\<lparr>world := w4\<rparr>)" "V w4 = V w3"
      using link_wait [OF r i _ fuel, of "s\<lparr>world := w3\<rparr>" I] w3(2) by auto
    with w2(1) w3 False show ?thesis by (intro exI [of _ w4]) (simp add: prog_simps written_def)
  qed
  then obtain w3 where w3: "pif (Endpoint_IsReadWriteAllowed E) (ret ENDPOINT_READYWAIT_NoError)
      (pbind (Endpoint_ClearIN E) (\<lambda>_. Endpoint_WaitUntilReady E I)) (s\<lparr>world := w1\<rparr>) = Ok (ENDPOINT_READYWAIT_NoError, s\<lparr>world := w3\<rparr>)"
      "sel (V w3) = tx" "written (V w3) = written ?v" "length (bank_in (V w3)) < 16" "arrived (V w3) = arrived ?v" by blast
  obtain w4 where "Endpoint_Write_8 E c (s\<lparr>world := w3\<rparr>) = Ok ((), s\<lparr>world := w4\<rparr>)" "V w4 = (V w3)\<lparr>bank_in := bank_in (V w3) @ [c]\<rparr>"
    using link_in_runs(5) [OF r i, of "s\<lparr>world := w3\<rparr>" c] w3(2,4) by auto
  with w1(1) w3 show ?thesis
    by (intro exI [of _ w4])
      (simp add: pbind_def [of "Endpoint_SelectEndpoint _ _"] pbind_def [of "pif _ _ _"] pbind_def [of "Endpoint_Write_8 _ _"] ret_def
        written_def ENDPOINT_READYWAIT_NoError_def)
qed

text \<open>Releasing the bank: a full one is followed by an empty packet.\<close>

lemma flush_body:
  assumes r: "link_reads E V" and i: "link_in E V tx" and ad: "a AND ENDPOINT_EPNUM_MASK = tx" and fuel: "0 < polls E"
    and b: "length (bank_in (V (world s))) \<le> 16"
  shows "\<exists>w. pbind (Endpoint_SelectEndpoint E a) (\<lambda>_.
      pbind (Endpoint_BytesInEndpoint E) (\<lambda>b.
      if b = 0 then ret ENDPOINT_READYWAIT_NoError
      else
        pbind (Endpoint_IsReadWriteAllowed E) (\<lambda>rwal.
        pbind (Endpoint_ClearIN E) (\<lambda>_.
        if \<not> rwal then
          pbind (Endpoint_WaitUntilReady E I) (\<lambda>ErrorCode.
          if ErrorCode \<noteq> ENDPOINT_READYWAIT_NoError then ret ErrorCode
          else pbind (Endpoint_ClearIN E) (\<lambda>_. ret ENDPOINT_READYWAIT_NoError))
        else ret ENDPOINT_READYWAIT_NoError)))) s = Ok (ENDPOINT_READYWAIT_NoError, s\<lparr>world := w\<rparr>) \<and>
    concat (released (V w)) = written (V (world s)) \<and> bank_in (V w) = [] \<and> arrived (V w) = arrived (V (world s))"
proof -
  let ?v = "(V (world s))\<lparr>sel := tx\<rparr>" and ?n = "length (bank_in (V (world s)))"
  obtain w1 where w1: "Endpoint_SelectEndpoint E a s = Ok ((), s\<lparr>world := w1\<rparr>)" "V w1 = ?v"
    using link_select [OF r, of a s] ad by auto
  have "fst (rd E UEBCLX (snd (rd E UEBCHX w1))) = of_nat ?n"
    using in_simps(4) [OF i, of "snd (rd E UEBCHX w1)"] w1(2) reads_simps(2) [OF r] by simp
  then obtain w2 where w2: "Endpoint_BytesInEndpoint E (s\<lparr>world := w1\<rparr>) = Ok (of_nat ?n, s\<lparr>world := w2\<rparr>)" "V w2 = ?v"
    using link_count [OF r, of "s\<lparr>world := w1\<rparr>" ?n] w1(2) b by auto
  have zero: "(of_nat ?n :: u16) = 0 \<longleftrightarrow> bank_in (V (world s)) = []"
    using b by (simp add: word_unat_eq_iff unat_of_nat_u16)
  obtain w3 where w3: "Endpoint_IsReadWriteAllowed E (s\<lparr>world := w2\<rparr>) = Ok (?n < 16, s\<lparr>world := w3\<rparr>)" "V w3 = ?v"
    using link_in_runs(1) [OF r i, of "s\<lparr>world := w2\<rparr>"] w2(2) by auto
  obtain w4 where w4: "Endpoint_ClearIN E (s\<lparr>world := w3\<rparr>) = Ok ((), s\<lparr>world := w4\<rparr>)"
      "V w4 = ?v\<lparr>released := released ?v @ [bank_in ?v], bank_in := []\<rparr>"
    using link_in_runs(4) [OF r i, of "s\<lparr>world := w3\<rparr>"] w3(2) by auto
  obtain w5 where w5: "Endpoint_WaitUntilReady E I (s\<lparr>world := w4\<rparr>) = Ok (ENDPOINT_READYWAIT_NoError, s\<lparr>world := w5\<rparr>)" "V w5 = V w4"
    using link_wait [OF r i _ fuel, of "s\<lparr>world := w4\<rparr>" I] w4(2) by auto
  obtain w6 where w6: "Endpoint_ClearIN E (s\<lparr>world := w5\<rparr>) = Ok ((), s\<lparr>world := w6\<rparr>)"
      "V w6 = (V w4)\<lparr>released := released (V w4) @ [[]], bank_in := []\<rparr>"
    using link_in_runs(4) [OF r i, of "s\<lparr>world := w5\<rparr>"] w5(2) w4(2) by auto
  note run = prog_simps w1(1) w2(1) zero
  consider "bank_in (V (world s)) = []" | "bank_in (V (world s)) \<noteq> []" "?n < 16" | "bank_in (V (world s)) \<noteq> []" "\<not> ?n < 16" by blast
  then show ?thesis
  proof cases
    case 1
    then show ?thesis using w2(2) by (intro exI [of _ w2]) (simp add: run written_def)
  next
    case 2
    then show ?thesis using w3 w4 by (intro exI [of _ w4]) (simp add: run written_def)
  next
    case 3
    then show ?thesis using w3 w4 w5 w6 by (intro exI [of _ w6]) (simp add: run written_def)
  qed
qed

text \<open>Receiving one byte, or -1.\<close>

lemma receive_byte_body:
  assumes r: "link_reads E V" and q: "link_out E V rx" and ad: "a AND ENDPOINT_EPNUM_MASK = rx"
    and p: "list_all (\<lambda>p. length p \<le> 16) (arrived (V (world s)))"
  shows "\<exists>w x. pbind (Endpoint_SelectEndpoint E a) (\<lambda>_.
      pif (Endpoint_IsOUTReceived E)
        (pbind (Endpoint_BytesInEndpoint E) (\<lambda>b.
         pbind (if b \<noteq> 0 then pbind (Endpoint_Read_8 E) (\<lambda>x. ret (uint x)) else ret (-1)) (\<lambda>ReceivedByte.
         pbind (Endpoint_BytesInEndpoint E) (\<lambda>b.
         pbind (pwhen (b = 0) (Endpoint_ClearOUT E)) (\<lambda>_. ret ReceivedByte)))))
        (ret (-1))) s = Ok (x, s\<lparr>world := w\<rparr>) \<and> (if x < 0 then FDEV_EOF else x) = fst (take_char (arrived (V (world s)))) \<and>
    V w = (V (world s))\<lparr>sel := rx, arrived := snd (take_char (arrived (V (world s))))\<rparr>"
proof -
  let ?a = "arrived (V (world s))"
  obtain w1 where w1: "Endpoint_SelectEndpoint E a s = Ok ((), s\<lparr>world := w1\<rparr>)"
      "V w1 = (V (world s))\<lparr>sel := rx\<rparr>"
    using link_select [OF r, of a s] ad by auto
  obtain w2 where w2: "Endpoint_IsOUTReceived E (s\<lparr>world := w1\<rparr>) = Ok (?a \<noteq> [], s\<lparr>world := w2\<rparr>)" "V w2 = V w1"
    using link_out_runs(1) [OF r q, of "s\<lparr>world := w1\<rparr>"] w1(2) by auto
  note run = prog_simps w1(1) w2(1)
  show ?thesis
  proof (cases ?a)
    case Nil
    then show ?thesis using w1(2) w2(2) by (intro exI [of _ w2] exI [of _ "- 1"]) (simp add: run)
  next
    case (Cons p ps)
    then have len: "length p \<le> 16" using p by simp
    obtain w3 where w3: "Endpoint_BytesInEndpoint E (s\<lparr>world := w2\<rparr>) = Ok (of_nat (length p), s\<lparr>world := w3\<rparr>)" "V w3 = V w1"
      using link_out_runs(4) [OF r q, of "s\<lparr>world := w2\<rparr>" p ps] w1(2) w2(2) Cons len by auto
    show ?thesis
    proof (cases p)
      case Nil
      obtain w where "pbind (Endpoint_BytesInEndpoint E) (\<lambda>b. pbind (pwhen (b = 0) (Endpoint_ClearOUT E)) (\<lambda>_. ret (- 1 :: int))) (s\<lparr>world := w3\<rparr>) =
          Ok (- 1, s\<lparr>world := w\<rparr>)" "V w = (V w1)\<lparr>arrived := ps\<rparr>"
        using close_packet [OF r q, of w3 "[]" ps "- 1 :: int" s] w3(2) w1(2) Cons Nil by auto
      then show ?thesis using w1(2) w3(1) Cons Nil count_zero [of p]
        by (intro exI [of _ w] exI [of _ "- 1"]) (simp add: run)
    next
      case C: (Cons b bs)
      obtain w4 where w4: "Endpoint_Read_8 E (s\<lparr>world := w3\<rparr>) = Ok (b, s\<lparr>world := w4\<rparr>)" "V w4 = (V w1)\<lparr>arrived := bs # ps\<rparr>"
        using link_out_runs(3) [OF r q, of "s\<lparr>world := w3\<rparr>" b bs ps] w3(2) w1(2) Cons C by auto
      obtain w where "pbind (Endpoint_BytesInEndpoint E) (\<lambda>c. pbind (pwhen (c = 0) (Endpoint_ClearOUT E)) (\<lambda>_. ret (uint b))) (s\<lparr>world := w4\<rparr>) =
          Ok (uint b, s\<lparr>world := w\<rparr>)" "V w = (V w1)\<lparr>arrived := (if bs = [] then ps else bs # ps)\<rparr>"
        using close_packet [OF r q, of w4 bs ps "uint b" s] w4(2) w1(2) len C by auto
      then show ?thesis using w1(2) w3(1) w4(1) Cons C count_zero [of p] len
        by (intro exI [of _ w] exI [of _ "uint b"]) (simp add: run)
    qed
  qed
qed


text \<open>Writing a stream: full banks are released on the way. The rounds that \<open>stream_loop\<close> takes are one per byte and one per release.\<close>

lemma stream_write_body:
  assumes r: "link_reads E V" and i: "link_in E V tx" and fuel: "0 < polls E"
  shows "sel (V (world s)) = tx \<Longrightarrow> length (bank_in (V (world s))) \<le> 16 \<Longrightarrow> k + unat len \<le> length buf \<Longrightarrow>
    unat len + (length (bank_in (V (world s))) + unat len + 15) div 16 < n \<Longrightarrow>
    \<exists>w. stream_loop E I (Endpoint_ClearIN E) (+) (write_byte E) n buf (int k) len t None s =
        Ok ((ENDPOINT_RWSTREAM_NoError, None, buf), s\<lparr>world := w\<rparr>) \<and>
      sel (V w) = tx \<and> length (bank_in (V w)) \<le> 16 \<and> written (V w) = written (V (world s)) @ take (unat len) (drop k buf) \<and>
      arrived (V w) = arrived (V (world s))"
proof (induction n arbitrary: s k len t)
  case 0
  then show ?case by simp
next
  case (Suc n)
  let ?v = "V (world s)"
  obtain w1 where w1: "Endpoint_IsReadWriteAllowed E s = Ok (length (bank_in ?v) < 16, s\<lparr>world := w1\<rparr>)" "V w1 = ?v"
    using link_in_runs(1) [OF r i Suc.prems(1)] by blast
  consider "len = 0" | "len \<noteq> 0" "length (bank_in ?v) < 16" | "len \<noteq> 0" "length (bank_in ?v) = 16" using Suc.prems(2) by linarith
  then show ?case
  proof cases
    case 1
    with Suc.prems show ?thesis by (intro exI [of _ "world s"]) (simp add: prog_simps)
  next
    case 2
    have pos: "0 < unat len" using 2(1) by (simp add: unat_gt_0)
    then have len: "unat (len - 1) = unat len - 1" "k < length buf" using 2(1) Suc.prems(3) by (simp_all add: unat_minus_one)
    obtain w2 where w2: "Endpoint_Write_8 E (buf ! k) (s\<lparr>world := w1\<rparr>) = Ok ((), s\<lparr>world := w2\<rparr>)" "V w2 = ?v\<lparr>bank_in := bank_in ?v @ [buf ! k]\<rparr>"
      using link_in_runs(5) [OF r i, of "s\<lparr>world := w1\<rparr>" "buf ! k"] w1(2) Suc.prems(1) 2(2) by auto
    have run: "write_byte E (int k) buf (s\<lparr>world := w1\<rparr>) = Ok (buf, s\<lparr>world := w2\<rparr>)"
      using w2(1) len(2) by (simp add: write_byte_def prog_simps)
    have "unat (len - 1) + (length (bank_in (V w2)) + unat (len - 1) + 15) div 16 < n"
      using Suc.prems(4) pos w2(2) len(1) by simp
    then obtain w where w: "stream_loop E I (Endpoint_ClearIN E) (+) (write_byte E) n buf (int (Suc k)) (len - 1) (t + 1) None (s\<lparr>world := w2\<rparr>) =
          Ok ((ENDPOINT_RWSTREAM_NoError, None, buf), s\<lparr>world := w\<rparr>)"
        "sel (V w) = tx" "length (bank_in (V w)) \<le> 16" "written (V w) = written (V w2) @ take (unat len - 1) (drop (Suc k) buf)"
        "arrived (V w) = arrived (V w2)"
      using Suc.IH [of "s\<lparr>world := w2\<rparr>" "Suc k" "len - 1" "t + 1"] Suc.prems(1,3) w2(2) 2(2) len(1) pos by auto
    have "take (unat len) (drop k buf) = buf ! k # take (unat len - 1) (drop (Suc k) buf)"
      using len(2) pos by (cases "unat len") (simp_all add: Cons_nth_drop_Suc [symmetric])
    with w w1(1) w2(2) run 2 show ?thesis
      by (intro exI [of _ w]) (simp add: prog_simps written_def add.commute)
  next
    case 3
    obtain w2 where w2: "Endpoint_ClearIN E (s\<lparr>world := w1\<rparr>) = Ok ((), s\<lparr>world := w2\<rparr>)"
        "V w2 = ?v\<lparr>released := released ?v @ [bank_in ?v], bank_in := []\<rparr>"
      using link_in_runs(4) [OF r i, of "s\<lparr>world := w1\<rparr>"] w1(2) Suc.prems(1) by auto
    obtain w3 where w3: "Endpoint_WaitUntilReady E I (s\<lparr>world := w2\<rparr>) = Ok (ENDPOINT_READYWAIT_NoError, s\<lparr>world := w3\<rparr>)" "V w3 = V w2"
      using link_wait [OF r i _ fuel, of "s\<lparr>world := w2\<rparr>" I] w2(2) Suc.prems(1) by auto
    have "unat len + (length (bank_in (V w3)) + unat len + 15) div 16 < n"
      using Suc.prems(4) 3 w2(2) w3(2) by simp
    then obtain w where w: "stream_loop E I (Endpoint_ClearIN E) (+) (write_byte E) n buf (int k) len t None (s\<lparr>world := w3\<rparr>) =
          Ok ((ENDPOINT_RWSTREAM_NoError, None, buf), s\<lparr>world := w\<rparr>)"
        "sel (V w) = tx" "length (bank_in (V w)) \<le> 16" "written (V w) = written (V w3) @ take (unat len) (drop k buf)" "arrived (V w) = arrived (V w3)"
      using Suc.IH [of "s\<lparr>world := w3\<rparr>" k len t] Suc.prems w2(2) w3(2) by auto
    with w1(1) w2 w3 3 show ?thesis
      by (intro exI [of _ w]) (simp add: prog_simps written_def ENDPOINT_READYWAIT_NoError_def)
  qed
qed

lemma write_stream_body:
  assumes r: "link_reads E V" and i: "link_in E V tx" and t: "sel (V (world s)) = tx" and b: "length (bank_in (V (world s))) \<le> 16"
    and len: "unat len \<le> length buf" and fuel: "(unat len + 31) div 16 \<le> polls E"
  shows "\<exists>w. Endpoint_Write_Stream_LE E I buf len None s = Ok ((ENDPOINT_RWSTREAM_NoError, None, buf), s\<lparr>world := w\<rparr>) \<and>
    sel (V w) = tx \<and> length (bank_in (V w)) \<le> 16 \<and> written (V w) = written (V (world s)) @ take (unat len) buf \<and>
    arrived (V w) = arrived (V (world s))"
proof -
  have pos: "0 < polls E" using fuel by (cases "polls E") simp_all
  obtain w1 where w1: "Endpoint_WaitUntilReady E I s = Ok (ENDPOINT_READYWAIT_NoError, s\<lparr>world := w1\<rparr>)" "V w1 = V (world s)"
    using link_wait [OF r i t pos] by blast
  have "(length (bank_in (V w1)) + unat len + 15) div 16 \<le> (unat len + 31) div 16"
    using b w1(2) by (intro div_le_mono) simp
  then have "unat len + (length (bank_in (V w1)) + unat len + 15) div 16 < Suc (unat len + polls E)" using fuel by linarith
  then obtain w where w: "stream_loop E I (Endpoint_ClearIN E) (+) (write_byte E) (Suc (unat len + polls E)) buf (int 0) len 0 None (s\<lparr>world := w1\<rparr>) =
        Ok ((ENDPOINT_RWSTREAM_NoError, None, buf), s\<lparr>world := w\<rparr>)"
      "sel (V w) = tx" "length (bank_in (V w)) \<le> 16" "written (V w) = written (V w1) @ take (unat len) buf" "arrived (V w) = arrived (V w1)"
    using stream_write_body [OF r i pos, of "s\<lparr>world := w1\<rparr>" 0 len buf "Suc (unat len + polls E)" I 0] t b w1(2) len
    by (auto simp del: stream_loop.simps)
  from w w1 show ?thesis
    by (intro exI [of _ w])
      (simp add: Endpoint_Write_Stream_LE_def Template_Endpoint_RW_def offset_LE_def pbind_def ENDPOINT_READYWAIT_NoError_def Let_def
        del: stream_loop.simps)
qed

section \<open>The contract of a character device\<close>

text \<open>The characters of a string, as \<^verbatim>\<open>stdio\<close> hands them to the device one after the other; the first error ends it.\<close>

fun put_all :: "(u8 \<Rightarrow> ('s, int) prog) \<Rightarrow> u8 list \<Rightarrow> ('s, int) prog" where
  "put_all put_char [] = ret 0"
| "put_all put_char (c # cs) = pbind (put_char c) (\<lambda>e. if e \<noteq> 0 then ret e else put_all put_char cs)"

fun get_all :: "('s, int) prog \<Rightarrow> nat \<Rightarrow> ('s, int list) prog" where
  "get_all get_char 0 = ret []"
| "get_all get_char (Suc n) = pbind get_char (\<lambda>c. pbind (get_all get_char n) (\<lambda>cs. ret (c # cs)))"

lemma take_char_props:
  "filter (\<lambda>c. 0 \<le> c) [fst (take_char a)] @ map uint (concat (snd (take_char a))) = map uint (concat a)"
  "a \<noteq> [] \<Longrightarrow> length (concat (snd (take_char a))) + length (snd (take_char a)) < length (concat a) + length a"
  "list_all (\<lambda>p. length p \<le> k) a \<Longrightarrow> list_all (\<lambda>p. length p \<le> k) (snd (take_char a))"
  by (cases a rule: take_char.cases; auto simp: FDEV_EOF_def)+

locale char_device =
  fixes ok :: "'s \<Rightarrow> bool"
    and out :: "'s \<Rightarrow> u8 list"
    and gone :: "'s \<Rightarrow> u8 list"
    and inp :: "'s \<Rightarrow> u8 list list"
    and put_char :: "u8 \<Rightarrow> ('s, int) prog"
    and get_char :: "('s, int) prog"
    and task :: "('s, unit) prog"
  assumes put_char: "ok s \<Longrightarrow> \<exists>s'. put_char c s = Ok (0, s') \<and> ok s' \<and> out s' = out s @ [c] \<and> inp s' = inp s"
    and get_char: "ok s \<Longrightarrow> \<exists>s'. get_char s = Ok (fst (take_char (inp s)), s') \<and> ok s' \<and> out s' = out s \<and> inp s' = snd (take_char (inp s))"
    and task: "ok s \<Longrightarrow> \<exists>s'. task s = Ok ((), s') \<and> ok s' \<and> gone s' = out s \<and> inp s' = inp s"
begin

lemma puts: "ok s \<Longrightarrow> \<exists>s'. put_all put_char cs s = Ok (0, s') \<and> ok s' \<and> out s' = out s @ cs \<and> inp s' = inp s"
proof (induction cs arbitrary: s)
  case Nil
  then show ?case by (simp add: prog_simps)
next
  case (Cons c cs)
  obtain s1 where s1: "put_char c s = Ok (0, s1)" "ok s1" "out s1 = out s @ [c]" "inp s1 = inp s"
    using put_char [OF Cons.prems] by blast
  with Cons.IH [OF s1(2)] show ?case by (auto simp: prog_simps)
qed

lemma puts_then_task:
  assumes "ok s"
  shows "\<exists>s'. pbind (put_all put_char cs) (\<lambda>e. pbind task (\<lambda>_. ret e)) s = Ok (0, s') \<and> ok s' \<and> gone s' = out s @ cs \<and> inp s' = inp s"
proof -
  obtain s1 where s1: "put_all put_char cs s = Ok (0, s1)" "ok s1" "out s1 = out s @ cs" "inp s1 = inp s" using puts [OF assms] by blast
  with task [OF s1(2)] show ?thesis by (auto simp: prog_simps)
qed

lemma gets:
  "ok s \<Longrightarrow> length (concat (inp s)) + length (inp s) \<le> n \<Longrightarrow>
   \<exists>s' cs. get_all get_char n s = Ok (cs, s') \<and> ok s' \<and> filter (\<lambda>c. 0 \<le> c) cs = map uint (concat (inp s)) \<and> inp s' = [] \<and> out s' = out s"
proof (induction n arbitrary: s)
  case 0
  then show ?case by (simp add: prog_simps)
next
  case (Suc n)
  obtain s1 where s1: "get_char s = Ok (fst (take_char (inp s)), s1)" "ok s1" "out s1 = out s" "inp s1 = snd (take_char (inp s))"
    using get_char [OF Suc.prems(1)] by blast
  have "length (concat (inp s1)) + length (inp s1) \<le> n"
    using Suc.prems(2) take_char_props(2) [of "inp s"] s1(4) by (cases "inp s = []") auto
  then obtain s2 cs where "get_all get_char n s1 = Ok (cs, s2)" "ok s2" "filter (\<lambda>c. 0 \<le> c) cs = map uint (concat (inp s1))"
      "inp s2 = []" "out s2 = out s1"
    using Suc.IH [OF s1(2)] by blast
  with s1 show ?case
    using take_char_props(1) [of "inp s"]
    by (intro exI [of _ s2] exI [of _ "fst (take_char (inp s)) # cs"]) (simp add: prog_simps split: if_splits)
qed

end

section \<open>A controller with such a host\<close>

text \<open>A controller whose only state is the two data endpoints, with such a host.\<close>

definition link_avr :: "link usb_avr" where
  "link_avr = \<lparr>
     rd = (\<lambda>r l.
       case r of
         UENUM \<Rightarrow> (sel l, l)
       | UECFG0X \<Rightarrow> (if sel l = 3 then EPDIR else 0, l)
       | UEINTX \<Rightarrow>
           (if sel l = 3 then TXINI OR (if length (bank_in l) < 16 then RWAL else 0)
            else if sel l = 4 \<and> arrived l \<noteq> [] then RXOUTI else 0, l)
       | UEBCLX \<Rightarrow> (of_nat (if sel l = 3 then length (bank_in l) else if arrived l = [] then 0 else length (hd (arrived l))), l)
       | UEDATX \<Rightarrow> (hd (hd (arrived l)), l\<lparr>arrived := tl (hd (arrived l)) # tl (arrived l)\<rparr>)
       | _ \<Rightarrow> (0, l)),
     wr = (\<lambda>r v l.
       case r of
         UENUM \<Rightarrow> l\<lparr>sel := v\<rparr>
       | UEINTX \<Rightarrow>
           if v AND FIFOCON \<noteq> 0 then l
           else if sel l = 3 then l\<lparr>released := released l @ [bank_in l], bank_in := []\<rparr> else l\<lparr>arrived := tl (arrived l)\<rparr>
       | UEDATX \<Rightarrow> l\<lparr>bank_in := bank_in l @ [v]\<rparr>
       | _ \<Rightarrow> l),
     delay_ms = (\<lambda>_ l. l), getc = (\<lambda>l. (None, l)), put = (\<lambda>_ l. l), mainloop = (\<lambda>l. l), polls = 1,
     signature_byte = (\<lambda>_ l. (0, l)), gen_pending = (\<lambda>l. (False, l)), com_pending = (\<lambda>l. (False, l)),
     wdt_disable = (\<lambda>l. l), clock_prescale_set = (\<lambda>_ l. l)\<rparr>"

lemma link_avr_serial: "serial_link link_avr (\<lambda>l. l) 3 4" "0 < polls link_avr"
  by (auto simp: serial_link_def link_reads_def link_in_def link_out_def link_avr_def ENDPOINT_CONTROLEP_def usb_bits)

end
