(* ===== verification/Usb_Host.thy ===== *)
theory Usb_Host
  imports Usb_Correct Bulk_Link
begin

text \<open>
  The stack against a well-behaved host. The hypothesis \<open>control_in\<close> describes the control endpoint of the data sheet together with
  a host that reads: which flags the interrupt register shows, what writing them and the data register does. From it
  follows that \<^verbatim>\<open>USB_Device_GetDescriptor\<close> returns and delivers exactly the bytes that the host asked for, in packets that end the way
  the host expects.
\<close>

section \<open>A host that reads\<close>

text \<open>
  What there is to see of the endpoint: the bank being filled, the packets sent, how many bytes the host wants, whether a
  SETUP packet waits, and whether the status stage has been acknowledged. The host ends the data stage after a
  packet of less than eight bytes or when it has what it wants, by sending the empty OUT packet of the status stage.
\<close>

record pipe =
  bank :: "u8 list"
  sent :: "u8 list list"
  wanted :: nat
  setup_waits :: bool
  acked :: bool

definition host_done :: "pipe \<Rightarrow> bool" where
  "host_done p \<longleftrightarrow> sent p \<noteq> [] \<and> length (last (sent p)) < 8 \<or> wanted p \<le> length (concat (sent p))"

definition intx_flags :: "pipe \<Rightarrow> u8 \<Rightarrow> bool" where
  "intx_flags p v \<longleftrightarrow> v AND TXINI \<noteq> 0 \<and> (v AND RXSTPI \<noteq> 0) = setup_waits p \<and> (v AND RXOUTI \<noteq> 0) = (host_done p \<and> \<not> acked p)"

definition intx_write :: "u8 \<Rightarrow> pipe \<Rightarrow> pipe" where
  "intx_write v p =
     (let q = p\<lparr>setup_waits := setup_waits p \<and> v AND RXSTPI \<noteq> 0,
                acked := acked p \<or> host_done p \<and> v AND RXOUTI = 0\<rparr> in
      if v AND TXINI = 0 then q\<lparr>sent := sent p @ [bank p], bank := []\<rparr> else q)"

definition control_in :: "'w usb_avr \<Rightarrow> ('w \<Rightarrow> pipe) \<Rightarrow> bool" where
  "control_in E V \<longleftrightarrow>
     (\<forall>w. intx_flags (V w) (fst (rd E UEINTX w)) \<and> V (snd (rd E UEINTX w)) = V w \<and>
       (\<forall>v. V (wr E UEINTX v w) = intx_write v (V w)) \<and>
       (\<forall>b. length (bank (V w)) < 8 \<longrightarrow> V (wr E UEDATX b w) = (V w)\<lparr>bank := bank (V w) @ [b]\<rparr>) \<and>
       fst (rd E UEBCHX w) = 0 \<and> V (snd (rd E UEBCHX w)) = V w \<and>
       fst (rd E UEBCLX w) = of_nat (length (bank (V w))) \<and> V (snd (rd E UEBCLX w)) = V w \<and>
       \<not> fst (gen_pending E w) \<and> V (snd (gen_pending E w)) = V w)"

subsection \<open>The steps of the stack, seen through the view\<close>

lemma intx_masks:
  "(v AND NOT (TXINI OR FIFOCON)) AND TXINI = 0" "(v AND NOT (TXINI OR FIFOCON)) AND RXSTPI = v AND RXSTPI"
  "(v AND NOT (TXINI OR FIFOCON)) AND RXOUTI = v AND RXOUTI"
  "(v AND NOT (RXOUTI OR FIFOCON)) AND TXINI = v AND TXINI" "(v AND NOT (RXOUTI OR FIFOCON)) AND RXSTPI = v AND RXSTPI"
  "(v AND NOT (RXOUTI OR FIFOCON)) AND RXOUTI = 0"
  "(v AND NOT RXSTPI) AND TXINI = v AND TXINI" "(v AND NOT RXSTPI) AND RXSTPI = 0" "(v AND NOT RXSTPI) AND RXOUTI = v AND RXOUTI"
  unfolding mask_and by (simp_all add: usb_bits)

lemma in_test:
  assumes "control_in E V"
  shows "\<exists>w. Endpoint_IsINReady E s = Ok (True, s\<lparr>world := w\<rparr>) \<and> V w = V (world s)"
    "\<exists>w. Endpoint_IsSETUPReceived E s = Ok (setup_waits (V (world s)), s\<lparr>world := w\<rparr>) \<and> V w = V (world s)"
    "\<exists>w. Endpoint_IsOUTReceived E s = Ok (host_done (V (world s)) \<and> \<not> acked (V (world s)), s\<lparr>world := w\<rparr>) \<and> V w = V (world s)"
  using assms unfolding control_in_def intx_flags_def Endpoint_IsINReady_def Endpoint_IsSETUPReceived_def Endpoint_IsOUTReceived_def
  by (auto simp: reg_test_def reg_rd_def prog_simps case_prod_unfold)

lemma in_clear:
  assumes "control_in E V"
  shows "\<exists>w. Endpoint_ClearIN E s = Ok ((), s\<lparr>world := w\<rparr>) \<and>
      V w = (V (world s))\<lparr>sent := sent (V (world s)) @ [bank (V (world s))], bank := []\<rparr>" (is ?A)
    "\<exists>w. Endpoint_ClearSETUP E s = Ok ((), s\<lparr>world := w\<rparr>) \<and> V w = (V (world s))\<lparr>setup_waits := False\<rparr>" (is ?B)
    "\<exists>w. Endpoint_ClearOUT E s = Ok ((), s\<lparr>world := w\<rparr>) \<and> sent (V w) = sent (V (world s))" (is ?C)
proof -
  define v where "v = fst (rd E UEINTX (world s))"
  define u where "u = snd (rd E UEINTX (world s))"
  have v: "intx_flags (V (world s)) v" and u: "V u = V (world s)" and wr: "V (wr E UEINTX x u) = intx_write x (V (world s))" for x
    using assms unfolding control_in_def v_def u_def by simp_all
  have run: "reg_and E UEINTX m s = Ok ((), s\<lparr>world := wr E UEINTX (v AND m) u\<rparr>)" for m
    by (simp add: reg_and_def reg_rd_def reg_wr_def prog_simps case_prod_unfold v_def u_def)
  note flags = v [unfolded intx_flags_def] and stored = wr intx_write_def intx_masks Let_def
  have "V (wr E UEINTX (v AND NOT (TXINI OR FIFOCON)) u) =
      (V (world s))\<lparr>sent := sent (V (world s)) @ [bank (V (world s))], bank := []\<rparr>"
    unfolding stored using flags by (cases "V (world s)") auto
  then show ?A unfolding Endpoint_ClearIN_def run by blast
  have "V (wr E UEINTX (v AND NOT RXSTPI) u) = (V (world s))\<lparr>setup_waits := False\<rparr>"
    unfolding stored using flags by (cases "V (world s)") auto
  then show ?B unfolding Endpoint_ClearSETUP_def run by blast
  have "sent (V (wr E UEINTX (v AND NOT (RXOUTI OR FIFOCON)) u)) = sent (V (world s))"
    unfolding stored using flags by (cases "V (world s)") auto
  then show ?C unfolding Endpoint_ClearOUT_def run by blast
qed

lemma in_count:
  assumes "control_in E V" and "length (bank (V (world s))) \<le> 8"
  shows "\<exists>w. Endpoint_BytesInEndpoint E s = Ok (of_nat (length (bank (V (world s)))), s\<lparr>world := w\<rparr>) \<and> V w = V (world s)"
proof -
  let ?n = "length (bank (V (world s)))"
  have "of_le16 (of_nat ?n) 0 = of_nat ?n"
    using assms(2) by (intro word_unat_eq_iff [THEN iffD2]) (simp add: of_le16_def unsigned_of_nat take_bit_nat_eq_self unat_of_nat_u16 unsigned_ucast_eq)
  then show ?thesis
    using assms(1) unfolding control_in_def Endpoint_BytesInEndpoint_def
    by (auto simp: reg_rd_def prog_simps case_prod_unfold)
qed

lemma in_put:
  assumes "control_in E V" and "length (bank (V (world s))) < 8" and "i < length buf"
  shows "\<exists>w. write_byte E (int i) buf s = Ok (buf, s\<lparr>world := w\<rparr>) \<and> V w = (V (world s))\<lparr>bank := bank (V (world s)) @ [buf ! i]\<rparr>"
  using assms unfolding control_in_def write_byte_def Endpoint_Write_8_def
  by (intro exI [of _ "wr E UEDATX (buf ! i) (world s)"]) (simp add: reg_wr_def prog_simps)

lemma in_gen:
  assumes "control_in E V"
  shows "\<exists>w. gen_point E A s = Ok ((), s\<lparr>world := w\<rparr>) \<and> V w = V (world s)"
  using assms unfolding control_in_def gen_point_def by (auto simp: outside_def prog_simps case_prod_unfold)

lemma in_abort:
  assumes "control_in E V" and "\<not> setup_waits (V (world s))"
    and "USB_DeviceState s \<notin> {DEVICE_STATE_Unattached, DEVICE_STATE_Suspended}"
  shows "\<exists>w. control_abort E (gen_point E A) s = Ok (None, s\<lparr>world := w\<rparr>) \<and> V w = V (world s)"
proof -
  obtain w1 where w1: "gen_point E A s = Ok ((), s\<lparr>world := w1\<rparr>)" "V w1 = V (world s)" using in_gen [OF assms(1)] by blast
  obtain w2 where "Endpoint_IsSETUPReceived E (s\<lparr>world := w1\<rparr>) = Ok (False, s\<lparr>world := w2\<rparr>)" "V w2 = V (world s)"
    using in_test(2) [OF assms(1), of "s\<lparr>world := w1\<rparr>"] w1(2) assms(2) by auto
  with w1 assms(3) show ?thesis by (intro exI [of _ w2]) (simp add: control_abort_def control_state_def prog_simps)
qed

subsection \<open>One packet\<close>

lemma in_fill:
  assumes c: "control_in E V"
  shows "length (bank (V (world s))) + j = 8 \<or> j = unat len \<and> length (bank (V (world s))) + j \<le> 8 \<Longrightarrow> j \<le> unat len \<Longrightarrow> j < k \<Longrightarrow>
    i + unat len \<le> length buf \<Longrightarrow>
    \<exists>w. control_fill E (+) buf k (int i) len (of_nat (length (bank (V (world s))))) s =
        Ok ((int (i + j), len - of_nat j, of_nat (length (bank (V (world s))) + j)), s\<lparr>world := w\<rparr>) \<and>
      V w = (V (world s))\<lparr>bank := bank (V (world s)) @ take j (drop i buf)\<rparr>"
proof (induction j arbitrary: s len k i)
  case 0
  then obtain k' where "k = Suc k'" by (cases k) auto
  moreover have "len = 0 \<or> length (bank (V (world s))) = 8" using 0 by (auto simp: unat_eq_0)
  ultimately show ?case by (intro exI [of _ "world s"]) (auto simp: FIXED_CONTROL_ENDPOINT_SIZE_def prog_simps)
next
  case (Suc j)
  let ?b = "length (bank (V (world s)))"
  obtain k' where k': "k = Suc k'" "j < k'" using Suc.prems(3) by (cases k) auto
  have b: "?b < 8" and "len \<noteq> 0" and i: "i < length buf" using Suc.prems by auto
  then have len: "len \<noteq> 0" "unat (len - 1) = unat len - 1" by (simp_all add: unat_minus_one)
  have go: "(of_nat ?b :: u16) < 8" using b by (simp add: word_less_nat_alt unat_of_nat_u16)
  obtain w1 where w1: "write_byte E (int i) buf s = Ok (buf, s\<lparr>world := w1\<rparr>)" "V w1 = (V (world s))\<lparr>bank := bank (V (world s)) @ [buf ! i]\<rparr>"
    using in_put [OF c b i] by blast
  have tk: "take (Suc j) (drop i buf) = buf ! i # take j (drop (Suc i) buf)"
    using i by (simp add: Cons_nth_drop_Suc [symmetric])
  have later: "length (bank (V w1)) + j = 8 \<or> j = unat (len - 1) \<and> length (bank (V w1)) + j \<le> 8" "j \<le> unat (len - 1)"
      "Suc i + unat (len - 1) \<le> length buf"
    using Suc.prems len w1(2) by auto
  obtain w where
    "control_fill E (+) buf k' (int (Suc i)) (len - 1) (of_nat (length (bank (V w1)))) (s\<lparr>world := w1\<rparr>) =
        Ok ((int (Suc i + j), len - 1 - of_nat j, of_nat (length (bank (V w1)) + j)), s\<lparr>world := w\<rparr>)"
    "V w = (V w1)\<lparr>bank := bank (V w1) @ take j (drop (Suc i) buf)\<rparr>"
    using Suc.IH [of "s\<lparr>world := w1\<rparr>" "len - 1" k' "Suc i"] later k'(2) by auto
  then show ?case using w1 len(1) go k'(1) tk
    by (intro exI [of _ w]) (simp add: FIXED_CONTROL_ENDPOINT_SIZE_def prog_simps add.commute algebra_simps)
qed

text \<open>One round of the sending loop while the host waits for data.\<close>

lemma in_round:
  assumes c: "control_in E V" and st: "USB_DeviceState s \<notin> {DEVICE_STATE_Unattached, DEVICE_STATE_Suspended}"
    and p: "\<not> setup_waits (V (world s))" "\<not> host_done (V (world s))" "bank (V (world s)) = []"
    and go: "\<not> (len = 0 \<and> \<not> full)" and i: "i + unat len \<le> length buf" and j: "j = min (unat len) 8"
  shows "\<exists>w. control_send E (gen_point E A) (+) buf (Suc n) (int i) len full s =
      control_send E (gen_point E A) (+) buf n (int (i + j)) (len - of_nat j) (j = 8) (s\<lparr>world := w\<rparr>) \<and>
    V w = (V (world s))\<lparr>sent := sent (V (world s)) @ [take j (drop i buf)], bank := []\<rparr>"
proof -
  obtain w1 where w1: "control_abort E (gen_point E A) s = Ok (None, s\<lparr>world := w1\<rparr>)" "V w1 = V (world s)"
    using in_abort [OF c p(1) st] by blast
  obtain w2 where w2: "Endpoint_IsOUTReceived E (s\<lparr>world := w1\<rparr>) = Ok (False, s\<lparr>world := w2\<rparr>)" "V w2 = V (world s)"
    using in_test(3) [OF c, of "s\<lparr>world := w1\<rparr>"] w1(2) p(2) by auto
  obtain w3 where w3: "Endpoint_IsINReady E (s\<lparr>world := w2\<rparr>) = Ok (True, s\<lparr>world := w3\<rparr>)" "V w3 = V (world s)"
    using in_test(1) [OF c, of "s\<lparr>world := w2\<rparr>"] w2(2) by auto
  obtain w4 where w4: "Endpoint_BytesInEndpoint E (s\<lparr>world := w3\<rparr>) = Ok (0, s\<lparr>world := w4\<rparr>)" "V w4 = V (world s)"
    using in_count [OF c, of "s\<lparr>world := w3\<rparr>"] w3(2) p(3) by auto
  have js: "j = 8 \<or> j = unat len \<and> j \<le> 8" "j \<le> unat len" "j < 9" unfolding j by auto
  obtain w5 where w5: "control_fill E (+) buf 9 (int i) len 0 (s\<lparr>world := w4\<rparr>) = Ok ((int (i + j), len - of_nat j, of_nat j), s\<lparr>world := w5\<rparr>)"
      "V w5 = (V (world s))\<lparr>bank := take j (drop i buf)\<rparr>"
    using in_fill [OF c, of "s\<lparr>world := w4\<rparr>" j len 9 i buf] w4(2) p(3) i js by auto
  obtain w6 where w6: "Endpoint_ClearIN E (s\<lparr>world := w5\<rparr>) = Ok ((), s\<lparr>world := w6\<rparr>)"
      "V w6 = (V (world s))\<lparr>sent := sent (V (world s)) @ [take j (drop i buf)], bank := []\<rparr>"
    using in_clear(1) [OF c, of "s\<lparr>world := w5\<rparr>"] w5(2) by auto
  have "(of_nat j :: u16) = 8 \<longleftrightarrow> j = 8"
    using j by (auto simp: word_unat_eq_iff unat_of_nat_u16)
  with w1 w2 w3 w4 w5 w6 go show ?thesis
    by (intro exI [of _ w6]) (auto simp: FIXED_CONTROL_ENDPOINT_SIZE_def prog_simps simp del: of_nat_add)
qed

subsection \<open>The whole data stage\<close>

text \<open>The data stage after \<open>i\<close> of \<open>T\<close> bytes: only full packets so far.\<close>

definition sending :: "u8 list \<Rightarrow> nat \<Rightarrow> nat \<Rightarrow> pipe \<Rightarrow> bool" where
  "sending buf T i p \<longleftrightarrow>
     \<not> setup_waits p \<and> \<not> acked p \<and> bank p = [] \<and> concat (sent p) = take i buf \<and> (\<forall>x\<in>set (sent p). length x = 8) \<and>
     i \<le> T \<and> T \<le> length buf \<and> T \<le> wanted p \<and> (T = 0 \<longrightarrow> wanted p = 0)"

text \<open>The data stage over: the host has the \<open>T\<close> bytes and has sent its status stage.\<close>

definition delivered :: "u8 list \<Rightarrow> nat \<Rightarrow> pipe \<Rightarrow> bool" where
  "delivered buf T p \<longleftrightarrow> concat (sent p) = take T buf \<and> host_done p \<and> \<not> acked p \<and> \<not> setup_waits p"

lemma sending_done: "sending buf T i p \<Longrightarrow> host_done p \<longleftrightarrow> wanted p \<le> i"
  unfolding sending_def host_done_def by (auto dest: last_in_set)

lemma sending_packet:
  assumes "sending buf T i p" and "i + j \<le> T" and q: "q = p\<lparr>sent := sent p @ [take j (drop i buf)], bank := []\<rparr>"
  shows "j = 8 \<Longrightarrow> sending buf T (i + j) q" "j < 8 \<Longrightarrow> i + j = T \<Longrightarrow> delivered buf T q"
  using assms(1,2) unfolding q sending_def delivered_def by (auto simp: take_add host_done_def)

lemma in_last:
  assumes c: "control_in E V" and st: "USB_DeviceState s \<notin> {DEVICE_STATE_Unattached, DEVICE_STATE_Suspended}"
    and p: "delivered buf T (V (world s))"
  shows "\<exists>w. control_send E (gen_point E A) (+) buf (Suc n) i 0 full s = Ok (None, s\<lparr>world := w\<rparr>) \<and> V w = V (world s)"
proof (cases full)
  case False
  then show ?thesis by (intro exI [of _ "world s"]) (simp add: prog_simps)
next
  case True
  obtain w1 where w1: "control_abort E (gen_point E A) s = Ok (None, s\<lparr>world := w1\<rparr>)" "V w1 = V (world s)"
    using in_abort [OF c _ st] p unfolding delivered_def by blast
  obtain w2 where "Endpoint_IsOUTReceived E (s\<lparr>world := w1\<rparr>) = Ok (True, s\<lparr>world := w2\<rparr>)" "V w2 = V (world s)"
    using in_test(3) [OF c, of "s\<lparr>world := w1\<rparr>"] w1(2) p unfolding delivered_def by auto
  with w1 True show ?thesis by (intro exI [of _ w2]) (simp add: prog_simps)
qed

lemma in_send:
  assumes c: "control_in E V"
  shows "USB_DeviceState s \<notin> {DEVICE_STATE_Unattached, DEVICE_STATE_Suspended} \<Longrightarrow>
    sending buf T i (V (world s)) \<Longrightarrow> T = i + unat len \<Longrightarrow> full = (sent (V (world s)) \<noteq> []) \<Longrightarrow> unat len div 8 + 2 \<le> n \<Longrightarrow>
    \<exists>w. control_send E (gen_point E A) (+) buf n (int i) len full s = Ok (None, s\<lparr>world := w\<rparr>) \<and> delivered buf T (V w)"
proof (induction n arbitrary: s i len full)
  case 0
  then show ?case by simp
next
  case (Suc n)
  note p = Suc.prems(2) and p' = Suc.prems(2) [unfolded sending_def]
  show ?case
  proof (cases "host_done (V (world s))")
    case True
    then have "unat len = 0" using p' Suc.prems(3) unfolding sending_done [OF p] by simp
    with True have "len = 0" "delivered buf T (V (world s))"
      using p' Suc.prems(3) unfolding delivered_def by (simp_all add: unat_eq_0)
    then show ?thesis using in_last [OF c Suc.prems(1)] by metis
  next
    case False
    define j where "j = min (unat len) 8"
    have go: "\<not> (len = 0 \<and> \<not> full)"
      using False p' Suc.prems(3,4) unfolding sending_done [OF p] by auto
    have len: "i + unat len \<le> length buf" using p' Suc.prems(3) by simp
    obtain w where w: "control_send E (gen_point E A) (+) buf (Suc n) (int i) len full s =
          control_send E (gen_point E A) (+) buf n (int (i + j)) (len - of_nat j) (j = 8) (s\<lparr>world := w\<rparr>)"
        and q: "V w = (V (world s))\<lparr>sent := sent (V (world s)) @ [take j (drop i buf)], bank := []\<rparr>"
      using in_round [OF c Suc.prems(1) _ False _ go len j_def] p' by blast
    have rest: "unat (len - of_nat j) = unat len - j" and j: "i + j \<le> T"
      using Suc.prems(3) by (simp_all add: j_def unat_sub word_le_nat_alt unat_of_nat_u16)
    note packet = sending_packet [OF p j q]
    show ?thesis
    proof (cases "j = 8")
      case True
      then have "T = i + j + unat (len - of_nat j)" "unat (len - of_nat j) div 8 + 2 \<le> n"
        using rest j Suc.prems(3,5) by auto
      with Suc.IH [of "s\<lparr>world := w\<rparr>" "i + j" "len - of_nat j" True] packet(1) True Suc.prems(1) q w
      show ?thesis by simp
    next
      case False
      then have "j < 8" "j = unat len" unfolding j_def by auto
      then have d: "delivered buf T (V w)" "len - of_nat j = 0" using packet(2) Suc.prems(3) rest by (auto simp: unat_eq_0 [symmetric])
      obtain n' where n: "n = Suc n'" using Suc.prems(5) by (cases n) auto
      obtain w' where "control_send E (gen_point E A) (+) buf (Suc n') (int (i + j)) 0 (j = 8) (s\<lparr>world := w\<rparr>) = Ok (None, s\<lparr>world := w'\<rparr>)"
          "V w' = V w"
        using in_last [OF c, of "s\<lparr>world := w\<rparr>" buf T A n' "int (i + j)" "j = 8"] d(1) Suc.prems(1) by auto
      then show ?thesis using d(1) unfolding n w [unfolded n d(2)] by (intro exI [of _ w']) (simp del: control_send.simps)
    qed
  qed
qed

lemma control_write_delivers:
  assumes c: "control_in E V" and st: "USB_DeviceState s \<notin> {DEVICE_STATE_Unattached, DEVICE_STATE_Suspended}"
    and p: "V (world s) = \<lparr>bank = [], sent = [], wanted = unat (wLength (USB_ControlRequest s)), setup_waits = False, acked = False\<rparr>"
    and size: "0 < Size" "unat Size \<le> length buf" and fuel: "unat (wLength (USB_ControlRequest s)) div 8 + 2 \<le> polls E"
  shows "\<exists>w. Endpoint_Write_Control_PStream_LE E (gen_point E A) buf Size s = Ok (ENDPOINT_RWCSTREAM_NoError, s\<lparr>world := w\<rparr>) \<and>
    concat (sent (V w)) = take (min (unat (wLength (USB_ControlRequest s))) (unat Size)) buf"
proof -
  let ?n = "wLength (USB_ControlRequest s)"
  define rest where "rest = (if Size > ?n then ?n else Size)"
  have T: "unat rest = min (unat ?n) (unat Size)" unfolding rest_def by (simp add: word_less_nat_alt)
  have "sending buf (unat rest) 0 (V (world s))"
    unfolding sending_def p T using size by (auto simp: word_less_nat_alt)
  moreover have "unat rest div 8 + 2 \<le> polls E"
    using fuel div_le_mono [of "unat rest" "unat ?n" 8] unfolding T by simp
  ultimately obtain w1 where w1: "control_send E (gen_point E A) (+) buf (polls E) 0 rest False s = Ok (None, s\<lparr>world := w1\<rparr>)"
      "delivered buf (unat rest) (V w1)"
    using in_send [OF c st, of buf "unat rest" 0 rest False "polls E"] p by auto
  obtain w2 where w2: "Endpoint_IsOUTReceived E (s\<lparr>world := w1\<rparr>) = Ok (True, s\<lparr>world := w2\<rparr>)" "V w2 = V w1"
    using in_test(3) [OF c, of "s\<lparr>world := w1\<rparr>"] w1(2) unfolding delivered_def by auto
  obtain m where m: "polls E = Suc m" using fuel by (cases "polls E") auto
  have "Size \<noteq> 0" using size(1) by auto
  then have "Endpoint_Write_Control_PStream_LE E (gen_point E A) buf Size s = Ok (ENDPOINT_RWCSTREAM_NoError, s\<lparr>world := w2\<rparr>)"
    using w1(1) w2(1) m unfolding Endpoint_Write_Control_PStream_LE_def Template_Endpoint_Control_W_def rest_def
    by (auto simp: prog_simps offset_LE_def split: if_splits)
  then show ?thesis using w1(2) w2(2) T unfolding delivered_def by auto
qed

section \<open>The properties\<close>

text \<open>C2: a host that asks for a descriptor gets it. When a SETUP packet waits with the request and the device is neither
  unattached nor suspended, \<^verbatim>\<open>USB_Device_GetDescriptor\<close> returns, and the packets that the host has received by then are
  the first \<^verbatim>\<open>wLength\<close> bytes of the descriptor (all of it, if it is no longer than that), nothing more and in order.
\<close>

theorem descriptor_delivered:
  assumes c: "control_in E V" and st: "USB_DeviceState s \<notin> {DEVICE_STATE_Unattached, DEVICE_STATE_Suspended}"
    and p: "V (world s) = \<lparr>bank = [], sent = [], wanted = unat (wLength (USB_ControlRequest s)), setup_waits = True, acked = False\<rparr>"
    and req: "wValue (USB_ControlRequest s) \<noteq> push_bit 8 DTYPE_String OR USE_INTERNAL_SERIAL"
    and desc: "get_descriptor A (wValue (USB_ControlRequest s)) (ucast (wIndex (USB_ControlRequest s))) = (Size, Some bytes)"
      "0 < Size" "unat Size = length bytes"
    and fuel: "unat (wLength (USB_ControlRequest s)) div 8 + 2 \<le> polls E"
  shows "\<exists>w. USB_Device_GetDescriptor E A s = Ok ((), s\<lparr>world := w\<rparr>) \<and>
    concat (sent (V w)) = take (unat (wLength (USB_ControlRequest s))) bytes"
proof -
  obtain w1 where w1: "Endpoint_ClearSETUP E s = Ok ((), s\<lparr>world := w1\<rparr>)" "V w1 = (V (world s))\<lparr>setup_waits := False\<rparr>"
    using in_clear(2) [OF c] by blast
  obtain w2 where w2: "Endpoint_Write_Control_PStream_LE E (gen_point E A) bytes Size (s\<lparr>world := w1\<rparr>) = Ok (ENDPOINT_RWCSTREAM_NoError, s\<lparr>world := w2\<rparr>)"
      "concat (sent (V w2)) = take (unat (wLength (USB_ControlRequest s))) bytes"
    using control_write_delivers [OF c, of "s\<lparr>world := w1\<rparr>" Size bytes A] w1(2) p st desc(2,3) fuel by (auto simp: min_def)
  obtain w3 where "Endpoint_ClearOUT E (s\<lparr>world := w2\<rparr>) = Ok ((), s\<lparr>world := w3\<rparr>)" "sent (V w3) = sent (V w2)"
    using in_clear(3) [OF c, of "s\<lparr>world := w2\<rparr>"] by auto
  moreover have "Size \<noteq> NO_DESCRIPTOR" using desc(2) unfolding NO_DESCRIPTOR_def by auto
  ultimately show ?thesis using w1 w2 desc(1) req
    by (intro exI [of _ w3]) (simp add: USB_Device_GetDescriptor_def prog_simps)
qed

text \<open>A controller whose only state is the endpoint, with such a host.\<close>

definition pipe_avr :: "pipe usb_avr" where
  "pipe_avr = \<lparr>
     rd = (\<lambda>r p. (if r = UEINTX then
                    TXINI OR (if setup_waits p then RXSTPI else 0) OR (if host_done p \<and> \<not> acked p then RXOUTI else 0)
                  else if r = UEBCLX then of_nat (length (bank p)) else 0, p)),
     wr = (\<lambda>r v p. if r = UEINTX then intx_write v p else if r = UEDATX then p\<lparr>bank := bank p @ [v]\<rparr> else p),
     delay_ms = (\<lambda>_ p. p), getc = (\<lambda>p. (None, p)), put = (\<lambda>_ p. p), mainloop = (\<lambda>p. p), polls = 10,
     signature_byte = (\<lambda>_ p. (0, p)), gen_pending = (\<lambda>p. (False, p)), com_pending = (\<lambda>p. (False, p)),
     wdt_disable = (\<lambda>p. p), clock_prescale_set = (\<lambda>_ p. p)\<rparr>"

lemma pipe_control_in: "control_in pipe_avr (\<lambda>p. p)"
  by (auto simp: control_in_def pipe_avr_def intx_flags_def usb_bits)

text \<open>The host asks for the first nine bytes of the configuration.\<close>

definition asking :: "pipe \<Rightarrow> (pipe, unit) serial" where
  "asking p = serial_boot p
     \<lparr>USB_DeviceState := DEVICE_STATE_Addressed,
      USB_ControlRequest := \<lparr>bmRequestType = 0x80, bRequest = REQ_GetDescriptor, wValue = 0x200, wIndex = 0, wLength = 9\<rparr>\<rparr>"

lemma asked_descriptor:
  "get_descriptor (serial_app pipe_avr call) 0x200 0 = (62, Some ConfigurationDescriptor)" "length ConfigurationDescriptor = 62"
  "take 9 ConfigurationDescriptor = [9, 2, 62, 0, 2, 1, 0, 192, 50]" "polls pipe_avr = 10"
  by (simp_all add: serial_app_def bus_app_def CALLBACK_USB_GetDescriptor_def desc_eval ConfigurationDescriptor_def config_bytes pipe_avr_def)

theorem descriptor_delivered_witness:
  "\<exists>w. USB_Device_GetDescriptor pipe_avr (serial_app pipe_avr (\<lambda>_ :: unit. ret ()))
       (asking \<lparr>bank = [], sent = [], wanted = 9, setup_waits = True, acked = False\<rparr>) = Ok ((), asking w) \<and>
     concat (sent w) = [9, 2, 62, 0, 2, 1, 0, 192, 50]"
  using descriptor_delivered [OF pipe_control_in, of "asking \<lparr>bank = [], sent = [], wanted = 9, setup_waits = True, acked = False\<rparr>"
      "serial_app pipe_avr (\<lambda>_ :: unit. ret ())" 62 ConfigurationDescriptor]
  by (simp add: asking_def serial_boot_def asked_descriptor DTYPE_String_def USE_INTERNAL_SERIAL_def)

end
