(* ===== verification/Usb_Host_Out.thy ===== *)
theory Usb_Host_Out
  imports Usb_Host
begin

text \<open>
  The stack against a host that writes: \<open>control_out\<close> describes the control endpoint during a request that brings data. From it follows what
  \<^verbatim>\<open>Endpoint_Read_Control_Stream_LE\<close> does with the data stage: it stores the bytes in order when they fit into the buffer, and
  otherwise writes behind its end.
\<close>

section \<open>A host that writes\<close>

text \<open>
  What there is to see of the endpoint: the packets from the host, the first of them without the bytes already read, and whether the SETUP
  packet still waits. The packets are there once the SETUP packet is acknowledged; reading takes the next byte, and acknowledging
  drops the first packet.
\<close>

record out_pipe =
  packets :: "u8 list list"
  header_waits :: bool

definition out_flags :: "out_pipe \<Rightarrow> u8 \<Rightarrow> bool" where
  "out_flags p v \<longleftrightarrow> v AND TXINI \<noteq> 0 \<and> (v AND RXSTPI \<noteq> 0) = header_waits p \<and> (v AND RXOUTI \<noteq> 0) = (\<not> header_waits p \<and> packets p \<noteq> [])"

definition out_write :: "u8 \<Rightarrow> out_pipe \<Rightarrow> out_pipe" where
  "out_write v p = p\<lparr>header_waits := header_waits p \<and> v AND RXSTPI \<noteq> 0,
                     packets := (if \<not> header_waits p \<and> v AND RXOUTI = 0 then tl (packets p) else packets p)\<rparr>"

definition control_out :: "'w usb_avr \<Rightarrow> ('w \<Rightarrow> out_pipe) \<Rightarrow> bool" where
  "control_out E V \<longleftrightarrow>
     (\<forall>w. out_flags (V w) (fst (rd E UEINTX w)) \<and> V (snd (rd E UEINTX w)) = V w \<and>
       (\<forall>v. V (wr E UEINTX v w) = out_write v (V w)) \<and>
       fst (rd E UEBCHX w) = 0 \<and> V (snd (rd E UEBCHX w)) = V w \<and> V (snd (rd E UEBCLX w)) = V w \<and>
       \<not> fst (gen_pending E w) \<and> V (snd (gen_pending E w)) = V w \<and>
       (\<forall>p ps. packets (V w) = p # ps \<and> \<not> header_waits (V w) \<longrightarrow>
          fst (rd E UEBCLX w) = of_nat (length p) \<and>
          (p \<noteq> [] \<longrightarrow> fst (rd E UEDATX w) = hd p \<and> V (snd (rd E UEDATX w)) = (V w)\<lparr>packets := tl p # ps\<rparr>)))"

lemma out_test:
  assumes "control_out E V"
  shows "\<exists>w. Endpoint_IsINReady E s = Ok (True, s\<lparr>world := w\<rparr>) \<and> V w = V (world s)"
    "\<exists>w. Endpoint_IsSETUPReceived E s = Ok (header_waits (V (world s)), s\<lparr>world := w\<rparr>) \<and> V w = V (world s)"
    "\<exists>w. Endpoint_IsOUTReceived E s = Ok (\<not> header_waits (V (world s)) \<and> packets (V (world s)) \<noteq> [], s\<lparr>world := w\<rparr>) \<and> V w = V (world s)"
  using assms unfolding control_out_def out_flags_def Endpoint_IsINReady_def Endpoint_IsSETUPReceived_def Endpoint_IsOUTReceived_def
  by (auto simp: reg_test_def reg_rd_def prog_simps case_prod_unfold)

lemma out_clear:
  assumes "control_out E V"
  shows "\<exists>w. Endpoint_ClearSETUP E s = Ok ((), s\<lparr>world := w\<rparr>) \<and> V w = (V (world s))\<lparr>header_waits := False\<rparr>" (is ?A)
    "\<not> header_waits (V (world s)) \<Longrightarrow>
      \<exists>w. Endpoint_ClearOUT E s = Ok ((), s\<lparr>world := w\<rparr>) \<and> V w = (V (world s))\<lparr>packets := tl (packets (V (world s)))\<rparr>" (is "_ \<Longrightarrow> ?B")
    "\<exists>w. Endpoint_ClearIN E s = Ok ((), s\<lparr>world := w\<rparr>) \<and> V w = V (world s)" (is ?C)
proof -
  define v where "v = fst (rd E UEINTX (world s))"
  define u where "u = snd (rd E UEINTX (world s))"
  have v: "out_flags (V (world s)) v" and u: "V u = V (world s)" and wr: "V (wr E UEINTX x u) = out_write x (V (world s))" for x
    using assms unfolding control_out_def v_def u_def by simp_all
  note run = reg_and_run [of E UEINTX _ s, folded v_def u_def]
  note flags = v [unfolded out_flags_def] and stored = wr out_write_def intx_masks
  have "V (wr E UEINTX (v AND NOT RXSTPI) u) = (V (world s))\<lparr>header_waits := False\<rparr>"
    unfolding stored using flags by (cases "V (world s)") auto
  then show ?A unfolding Endpoint_ClearSETUP_def run by blast
  show ?B if "\<not> header_waits (V (world s))"
  proof -
    have "V (wr E UEINTX (v AND NOT (RXOUTI OR FIFOCON)) u) = (V (world s))\<lparr>packets := tl (packets (V (world s)))\<rparr>"
      unfolding stored using that by (cases "V (world s)") simp
    then show ?thesis unfolding Endpoint_ClearOUT_def run by blast
  qed
  have "V (wr E UEINTX (v AND NOT (TXINI OR FIFOCON)) u) = V (world s)"
    unfolding stored using flags by (cases "V (world s)"; cases "packets (V (world s))") auto
  then show ?C unfolding Endpoint_ClearIN_def run by blast
qed

lemma out_count:
  assumes "control_out E V" and "packets (V (world s)) = p # ps" "\<not> header_waits (V (world s))" and "length p \<le> 16"
  shows "\<exists>w. Endpoint_BytesInEndpoint E s = Ok (of_nat (length p), s\<lparr>world := w\<rparr>) \<and> V w = V (world s)"
proof -
  have h: "fst (rd E UEBCHX w) = 0" "V (snd (rd E UEBCHX w)) = V w" "V (snd (rd E UEBCLX w)) = V w"
    "packets (V w) = p # ps \<Longrightarrow> \<not> header_waits (V w) \<Longrightarrow> fst (rd E UEBCLX w) = of_nat (length p)" for w
    using assms(1) unfolding control_out_def by blast+
  have "of_le16 (of_nat (length p)) 0 = of_nat (length p)"
    using assms(4) by (intro word_unat_eq_iff [THEN iffD2])
      (simp add: of_le16_def unsigned_of_nat take_bit_nat_eq_self unat_of_nat_u16 unsigned_ucast_eq)
  with assms(2,3) show ?thesis
    by (auto simp: Endpoint_BytesInEndpoint_def reg_rd_def prog_simps case_prod_unfold h)
qed

lemma out_read:
  assumes "control_out E V" and "packets (V (world s)) = (b # bs) # ps" "\<not> header_waits (V (world s))"
  shows "\<exists>w. Endpoint_Read_8 E s = Ok (b, s\<lparr>world := w\<rparr>) \<and> V w = (V (world s))\<lparr>packets := bs # ps\<rparr>"
proof -
  have "fst (rd E UEDATX (world s)) = b" "V (snd (rd E UEDATX (world s))) = (V (world s))\<lparr>packets := bs # ps\<rparr>"
    using assms unfolding control_out_def by fastforce+
  then show ?thesis by (auto simp: Endpoint_Read_8_def reg_rd_def case_prod_unfold)
qed

lemma out_abort:
  assumes c: "control_out E V" and p: "\<not> header_waits (V (world s))"
    and st: "USB_DeviceState s \<notin> {DEVICE_STATE_Unattached, DEVICE_STATE_Suspended}"
  shows "\<exists>w. control_abort E (gen_point E A) s = Ok (None, s\<lparr>world := w\<rparr>) \<and> V w = V (world s)"
proof -
  obtain w1 where w1: "gen_point E A s = Ok ((), s\<lparr>world := w1\<rparr>)" "V w1 = V (world s)"
    using c unfolding control_out_def gen_point_def by (auto simp: outside_def prog_simps case_prod_unfold)
  obtain w2 where "Endpoint_IsSETUPReceived E (s\<lparr>world := w1\<rparr>) = Ok (False, s\<lparr>world := w2\<rparr>)" "V w2 = V (world s)"
    using out_test(2) [OF c, of "s\<lparr>world := w1\<rparr>"] w1(2) p by auto
  with w1 st show ?thesis by (intro exI [of _ w2]) (simp add: control_abort_def control_state_def prog_simps)
qed

subsection \<open>Emptying a packet\<close>

lemma out_drain:
  assumes c: "control_out E V"
  shows "packets (V (world s)) = p # ps \<Longrightarrow> \<not> header_waits (V (world s)) \<Longrightarrow> length p \<le> 16 \<Longrightarrow> length p \<le> unat len \<Longrightarrow> length p < k \<Longrightarrow>
    i \<le> length buf \<Longrightarrow>
    if i + length p \<le> length buf
    then \<exists>w. control_drain E (+) k buf (int i) len s =
             Ok ((overlay buf i p, int (i + length p), len - of_nat (length p)), s\<lparr>world := w\<rparr>) \<and>
           V w = (V (world s))\<lparr>packets := [] # ps\<rparr>
    else control_drain E (+) k buf (int i) len s = Fail Out_Of_Bounds"
proof (induction p arbitrary: s len k buf i)
  case Nil
  obtain k' where k: "k = Suc k'" using Nil.prems(5) by (cases k) auto
  obtain w where w: "Endpoint_BytesInEndpoint E s = Ok (0, s\<lparr>world := w\<rparr>)" "V w = V (world s)"
    using out_count [OF c, of s "[]" ps] Nil.prems by auto
  have "V (world s) = (V (world s))\<lparr>packets := [] # ps\<rparr>" using Nil.prems(1) by (cases "V (world s)") simp
  then show ?case
    using w Nil.prems(6) unfolding k
    by (cases "len = 0") (auto simp: prog_simps intro: exI [of _ "world s"] exI [of _ w])
next
  case (Cons b bs)
  obtain k' where k: "k = Suc k'" "length bs < k'" using Cons.prems(5) by (cases k) auto
  have len: "len \<noteq> 0" using Cons.prems(4) by auto
  then have rest: "length bs \<le> unat (len - 1)" using Cons.prems(4) by (simp add: unat_minus_one)
  obtain w1 where w1: "Endpoint_BytesInEndpoint E s = Ok (of_nat (length (b # bs)), s\<lparr>world := w1\<rparr>)" "V w1 = V (world s)"
    using out_count [OF c Cons.prems(1-3)] by blast
  have nz: "(of_nat (length (b # bs)) :: u16) \<noteq> 0" using Cons.prems(3) by (simp only: word_unat_eq_iff unat_of_nat_u16) simp
  obtain w2 where w2: "Endpoint_Read_8 E (s\<lparr>world := w1\<rparr>) = Ok (b, s\<lparr>world := w2\<rparr>)" "V w2 = (V (world s))\<lparr>packets := bs # ps\<rparr>"
    using out_read [OF c, of "s\<lparr>world := w1\<rparr>" b bs ps] w1(2) Cons.prems(1,2) by auto
  show ?case
  proof (cases "i < length buf")
    case False
    with w1 w2 nz len k show ?thesis by (simp add: prog_simps read_byte_def aset_def)
  next
    case True
    have "control_drain E (+) k buf (int i) len s = control_drain E (+) k' (buf[i := b]) (int (Suc i)) (len - 1) (s\<lparr>world := w2\<rparr>)"
      using w1 w2 nz len True unfolding k(1) by (simp add: prog_simps read_byte_def aset_def add.commute)
    then show ?thesis
      using Cons.IH [of "s\<lparr>world := w2\<rparr>" "len - 1" k' "Suc i" "buf[i := b]"] w2(2) Cons.prems(2,3) rest k(2) True
      by (auto simp: overlay_Cons simp del: control_drain.simps split: if_splits)
  qed
qed

subsection \<open>The whole data stage\<close>

text \<open>Packets as the control endpoint takes them: none is empty, none is longer than eight bytes.\<close>

definition out_packets :: "u8 list list \<Rightarrow> bool" where
  "out_packets ps \<longleftrightarrow> (\<forall>p\<in>set ps. p \<noteq> [] \<and> length p \<le> 8)"

lemma out_receive:
  assumes c: "control_out E V"
  shows "USB_DeviceState s \<notin> {DEVICE_STATE_Unattached, DEVICE_STATE_Suspended} \<Longrightarrow> \<not> header_waits (V (world s)) \<Longrightarrow>
    packets (V (world s)) = ps \<Longrightarrow> out_packets ps \<Longrightarrow> unat len = length (concat ps) \<Longrightarrow> length ps < n \<Longrightarrow> i \<le> length buf \<Longrightarrow>
    if i + unat len \<le> length buf
    then \<exists>w. control_receive E (gen_point E A) (+) n buf (int i) len s = Ok ((None, overlay buf i (concat ps)), s\<lparr>world := w\<rparr>) \<and>
           V w = (V (world s))\<lparr>packets := []\<rparr>
    else control_receive E (gen_point E A) (+) n buf (int i) len s = Fail Out_Of_Bounds"
proof (induction ps arbitrary: s len n buf i)
  case Nil
  then have "len = 0" by (simp add: unat_eq_0)
  moreover have "V (world s) = (V (world s))\<lparr>packets := []\<rparr>" using Nil.prems(3) by (cases "V (world s)") simp
  moreover obtain n' where "n = Suc n'" using Nil.prems(6) by (cases n) auto
  ultimately show ?case using Nil.prems(7) by (auto simp: prog_simps intro: exI [of _ "world s"])
next
  case (Cons p ps)
  obtain n' where n: "n = Suc n'" "length ps < n'" using Cons.prems(6) by (cases n) auto
  have p: "p \<noteq> []" "length p \<le> 16" "out_packets ps" "length p \<le> unat len" "unat len = length p + length (concat ps)"
    using Cons.prems(4,5) by (auto simp: out_packets_def)
  then have len: "len \<noteq> 0" "unat (len - of_nat (length p)) = length (concat ps)"
    by (auto simp: unat_eq_0 [symmetric] unat_sub word_le_nat_alt unat_of_nat_u16)
  obtain w1 where w1: "control_abort E (gen_point E A) s = Ok (None, s\<lparr>world := w1\<rparr>)" "V w1 = V (world s)"
    using out_abort [OF c Cons.prems(2,1)] by blast
  obtain w2 where w2: "Endpoint_IsOUTReceived E (s\<lparr>world := w1\<rparr>) = Ok (True, s\<lparr>world := w2\<rparr>)" "V w2 = V (world s)"
    using out_test(3) [OF c, of "s\<lparr>world := w1\<rparr>"] w1(2) Cons.prems(2,3) by auto
  have step: "control_receive E (gen_point E A) (+) n buf (int i) len s =
      pbind (control_drain E (+) (Suc (unat len)) buf (int i) len) (\<lambda>(buf, DataStream, Length).
        pbind (Endpoint_ClearOUT E) (\<lambda>_. control_receive E (gen_point E A) (+) n' buf DataStream Length)) (s\<lparr>world := w2\<rparr>)"
    using w1 w2 len(1) unfolding n(1) by (simp add: prog_simps del: control_drain.simps)
  note drain = out_drain [OF c, of "s\<lparr>world := w2\<rparr>" p ps len "Suc (unat len)" i buf]
  show ?case
  proof (cases "i + length p \<le> length buf")
    case False
    with drain p w2(2) Cons.prems(2,3,7) show ?thesis unfolding step by (simp add: prog_simps del: control_drain.simps)
  next
    case True
    then obtain w3 where w3: "control_drain E (+) (Suc (unat len)) buf (int i) len (s\<lparr>world := w2\<rparr>) =
        Ok ((overlay buf i p, int (i + length p), len - of_nat (length p)), s\<lparr>world := w3\<rparr>)" "V w3 = (V (world s))\<lparr>packets := [] # ps\<rparr>"
      using drain p w2(2) Cons.prems(2,3,7) by (auto simp del: control_drain.simps)
    obtain w4 where w4: "Endpoint_ClearOUT E (s\<lparr>world := w3\<rparr>) = Ok ((), s\<lparr>world := w4\<rparr>)" "V w4 = (V (world s))\<lparr>packets := ps\<rparr>"
      using out_clear(2) [OF c, of "s\<lparr>world := w3\<rparr>"] w3(2) Cons.prems(2) by auto
    have rest: "control_receive E (gen_point E A) (+) n buf (int i) len s =
        control_receive E (gen_point E A) (+) n' (overlay buf i p) (int (i + length p)) (len - of_nat (length p)) (s\<lparr>world := w4\<rparr>)"
      using w3(1) w4(1) True unfolding step by (simp add: prog_simps del: control_drain.simps control_receive.simps)
    show ?thesis
      using Cons.IH [of "s\<lparr>world := w4\<rparr>" "len - of_nat (length p)" n' "i + length p" "overlay buf i p"]
        w4(2) Cons.prems(1,2) p(3,5) len(2) n(2) True
      unfolding rest by (auto simp: overlay_overlay ac_simps simp del: control_receive.simps split: if_splits)
  qed
qed

lemma control_read_takes:
  assumes c: "control_out E V" and st: "USB_DeviceState s \<notin> {DEVICE_STATE_Unattached, DEVICE_STATE_Suspended}"
    and p: "V (world s) = \<lparr>packets = ps, header_waits = False\<rparr>" "out_packets ps"
    and n: "unat n = length (concat ps)" "0 < n" and fuel: "length ps < polls E"
  shows "if unat n \<le> length buf
    then \<exists>w. Endpoint_Read_Control_Stream_LE E (gen_point E A) buf n s = Ok ((ENDPOINT_RWCSTREAM_NoError, overlay buf 0 (concat ps)), s\<lparr>world := w\<rparr>) \<and>
           V w = \<lparr>packets = [], header_waits = False\<rparr>
    else Endpoint_Read_Control_Stream_LE E (gen_point E A) buf n s = Fail Out_Of_Bounds"
proof -
  note receive = out_receive [OF c st, of ps n "polls E" 0 buf A]
  have n0: "n \<noteq> 0" using n(2) by auto
  show ?thesis
  proof (cases "unat n \<le> length buf")
    case True
    then obtain w1 where w1: "control_receive E (gen_point E A) (+) (polls E) buf 0 n s = Ok ((None, overlay buf 0 (concat ps)), s\<lparr>world := w1\<rparr>)"
        "V w1 = \<lparr>packets = [], header_waits = False\<rparr>"
      using receive p n(1) fuel by auto
    obtain w2 where r2: "Endpoint_IsINReady E (s\<lparr>world := w1\<rparr>) = Ok (True, s\<lparr>world := w2\<rparr>)" and v2: "V w2 = V w1"
      using out_test(1) [OF c, of "s\<lparr>world := w1\<rparr>"] by auto
    have f: "0 < polls E" using fuel by simp
    have "wait_for (polls E) (Endpoint_IsINReady E) (control_state (gen_point E A)) (s\<lparr>world := w1\<rparr>) = Ok (None, s\<lparr>world := w2\<rparr>)"
      by (rule wait_for_now) (fact r2 f)+
    with True w1 v2 n0 show ?thesis
      by (auto simp: Endpoint_Read_Control_Stream_LE_def Template_Endpoint_Control_R_def offset_LE_def prog_simps)
  next
    case False
    then show ?thesis
      using receive p n n0 fuel by (simp add: Endpoint_Read_Control_Stream_LE_def Template_Endpoint_Control_R_def offset_LE_def prog_simps)
  qed
qed

section \<open>A simulated controller\<close>

text \<open>A controller whose only state is the endpoint, with a host that writes.\<close>

definition out_avr :: "out_pipe usb_avr" where
  "out_avr = \<lparr>
     rd = (\<lambda>r p. if r = UEINTX then
                   (TXINI OR (if header_waits p then RXSTPI else 0) OR (if \<not> header_waits p \<and> packets p \<noteq> [] then RXOUTI else 0), p)
                 else if r = UEBCLX then (case packets p of [] \<Rightarrow> 0 | x # _ \<Rightarrow> of_nat (length x), p)
                 else if r = UEDATX then
                   (case packets p of (b # bs) # ps \<Rightarrow> (b, p\<lparr>packets := bs # ps\<rparr>) | _ \<Rightarrow> (0, p))
                 else (0, p)),
     wr = (\<lambda>r v p. if r = UEINTX then out_write v p else p),
     delay_ms = (\<lambda>_ p. p), getc = (\<lambda>p. (None, p)), put = (\<lambda>_ p. p), mainloop = (\<lambda>p. p), polls = 100,
     signature_byte = (\<lambda>_ p. (0, p)), gen_pending = (\<lambda>p. (False, p)), com_pending = (\<lambda>p. (False, p)),
     wdt_disable = (\<lambda>p. p), clock_prescale_set = (\<lambda>_ p. p)\<rparr>"

lemma out_avr_control: "control_out out_avr (\<lambda>p. p)" "polls out_avr = 100"
  by (auto simp: control_out_def out_avr_def out_flags_def usb_bits neq_Nil_conv)

end
