(* ===== verification/Cdc_Correct.thy ===== *)
theory Cdc_Correct
  imports Usb_Host_Out
begin

text \<open>
  The class requests of the serial port (\<^verbatim>\<open>CDC_Device_ProcessControlRequest\<close>) against a well-behaved host: the round trip of the
  line encoding, which the host sets with one request and reads back with another.
\<close>

section \<open>The line encoding\<close>

definition encoding_of_bytes :: "u8 list \<Rightarrow> CDC_LineEncoding" where
  "encoding_of_bytes b = \<lparr>BaudRateBPS = of_le32 (b ! 0) (b ! 1) (b ! 2) (b ! 3), CharFormat = b ! 4, ParityType = b ! 5, DataBits = b ! 6\<rparr>"

lemma encoding_fields:
  "r\<lparr>BaudRateBPS := a, CharFormat := b, ParityType := c, DataBits := d\<rparr> = \<lparr>BaudRateBPS = a, CharFormat = b, ParityType = c, DataBits = d\<rparr>"
  for r :: CDC_LineEncoding
  by (cases r) simp

lemma set_line_encoding_runs:
  assumes c: "control_out E V" and fuel: "0 < polls E" and dir: "bmRequestType (USB_ControlRequest s) AND 0x80 = 0"
    and p: "V (world s) = \<lparr>packets = [[b0, b1, b2, b3, b4, b5, b6]], header_waits = True\<rparr>"
  shows "\<exists>w. set_line_encoding E I s = Ok ((), s\<lparr>CDCInterfaceInfo := (CDCInterfaceInfo s)
    \<lparr>State := (cdc_state s)\<lparr>LineEncoding := encoding_of_bytes [b0, b1, b2, b3, b4, b5, b6]\<rparr>\<rparr>, world := w\<rparr>)"
proof -
  obtain w1 where w1: "Endpoint_ClearSETUP E s = Ok ((), s\<lparr>world := w1\<rparr>)" "V w1 = (V (world s))\<lparr>header_waits := False\<rparr>"
    using out_clear(1) [OF c, of s] p by auto
  obtain w2 where r2: "Endpoint_IsOUTReceived E (s\<lparr>world := w1\<rparr>) = Ok (True, s\<lparr>world := w2\<rparr>)"
      and v2: "V w2 = \<lparr>packets = [[b0, b1, b2, b3, b4, b5, b6]], header_waits = False\<rparr>"
    using out_test(3) [OF c, of "s\<lparr>world := w1\<rparr>"] w1(2) p by auto
  have w2: "wait_for (polls E) (Endpoint_IsOUTReceived E) (if_unattached I) (s\<lparr>world := w1\<rparr>) = Ok (None, s\<lparr>world := w2\<rparr>)"
    by (rule wait_for_now) (fact r2 fuel)+
  define nx where "nx w = snd (rd E UEDATX w)" for w
  have rd: "fst (rd E UEDATX w) = hd (hd (packets (V w)))"
      and nx: "V (nx w) = (V w)\<lparr>packets := tl (hd (packets (V w))) # tl (packets (V w))\<rparr>"
    if "packets (V w) \<noteq> []" "hd (packets (V w)) \<noteq> []" "\<not> header_waits (V w)" for w
    using c that unfolding control_out_def nx_def by (cases "packets (V w)"; simp)+
  note n1 = nx [of w2, unfolded v2, simplified]
  note n2 = nx [of "nx w2", unfolded n1, simplified]
  note n3 = nx [of "nx (nx w2)", unfolded n2, simplified]
  note n4 = nx [of "nx (nx (nx w2))", unfolded n3, simplified]
  note n5 = nx [of "nx (nx (nx (nx w2)))", unfolded n4, simplified]
  note n6 = nx [of "nx (nx (nx (nx (nx w2))))", unfolded n5, simplified]
  note bytes = rd [of w2, unfolded v2, simplified] rd [of "nx w2", unfolded n1, simplified] rd [of "nx (nx w2)", unfolded n2, simplified]
    rd [of "nx (nx (nx w2))", unfolded n3, simplified] rd [of "nx (nx (nx (nx w2)))", unfolded n4, simplified]
    rd [of "nx (nx (nx (nx (nx w2))))", unfolded n5, simplified] rd [of "nx (nx (nx (nx (nx (nx w2)))))", unfolded n6, simplified]
  define t where "t = s\<lparr>world := nx (nx (nx (nx (nx (nx (nx w2)))))), CDCInterfaceInfo := (CDCInterfaceInfo s)
    \<lparr>State := (cdc_state s)\<lparr>LineEncoding := encoding_of_bytes [b0, b1, b2, b3, b4, b5, b6]\<rparr>\<rparr>\<rparr>"
  obtain w3 where w3: "Endpoint_ClearOUT E t = Ok ((), t\<lparr>world := w3\<rparr>)"
    using reg_and_run [of E UEINTX _ t] unfolding Endpoint_ClearOUT_def by auto
  obtain w4 where r4: "Endpoint_IsINReady E (t\<lparr>world := w3\<rparr>) = Ok (True, t\<lparr>world := w4\<rparr>)"
    using out_test(1) [OF c, of "t\<lparr>world := w3\<rparr>"] by auto
  have w4: "wait_for (polls E) (Endpoint_IsINReady E) (if_unattached I) (t\<lparr>world := w3\<rparr>) = Ok (None, t\<lparr>world := w4\<rparr>)"
    by (rule wait_for_now) (fact r4 fuel)+
  obtain w5 where w5: "Endpoint_ClearIN E (t\<lparr>world := w4\<rparr>) = Ok ((), t\<lparr>world := w5\<rparr>)"
    using out_clear(3) [OF c, of "t\<lparr>world := w4\<rparr>"] by auto
  have "Endpoint_ClearStatusStage E I (t\<lparr>world := w3\<rparr>) = Ok ((), t\<lparr>world := w5\<rparr>)"
    using w4 w5 dir by (simp add: Endpoint_ClearStatusStage_def t_def prog_simps)
  then have "set_line_encoding E I s = Ok ((), t\<lparr>world := w5\<rparr>)"
    using w1(1) w2 w3 by (simp add: set_line_encoding_def prog_simps Endpoint_Read_32_LE_def Endpoint_Read_8_def reg_rd_def
        case_prod_unfold set_cdc_state_def CDC_Device_Event_Stub_def bytes t_def encoding_of_bytes_def encoding_fields flip: nx_def)
  then show ?thesis unfolding t_def by auto
qed

lemma get_line_encoding_runs:
  assumes c: "control_in E V" and fuel: "0 < polls E" and dir: "bmRequestType (USB_ControlRequest s) AND 0x80 \<noteq> 0"
    and p: "V (world s) = \<lparr>bank = [], sent = [], wanted = 7, setup_waits = True, acked = False\<rparr>"
    and enc: "LineEncoding (cdc_state s) = encoding_of_bytes [b0, b1, b2, b3, b4, b5, b6]"
  shows "\<exists>w. get_line_encoding E I s = Ok ((), s\<lparr>world := w\<rparr>) \<and> sent (V w) = [[b0, b1, b2, b3, b4, b5, b6]]"
proof -
  obtain w1 where w1: "Endpoint_ClearSETUP E s = Ok ((), s\<lparr>world := w1\<rparr>)" "V w1 = (V (world s))\<lparr>setup_waits := False\<rparr>"
    using in_clear(2) [OF c, of s] by auto
  obtain w2 where r2: "Endpoint_IsINReady E (s\<lparr>world := w1\<rparr>) = Ok (True, s\<lparr>world := w2\<rparr>)"
      and v2: "V w2 = \<lparr>bank = [], sent = [], wanted = 7, setup_waits = False, acked = False\<rparr>"
    using in_test(1) [OF c, of "s\<lparr>world := w1\<rparr>"] w1(2) p by auto
  have w2: "wait_for (polls E) (Endpoint_IsINReady E) k (s\<lparr>world := w1\<rparr>) = Ok (None, s\<lparr>world := w2\<rparr>)" for k :: "('a, 'b) cdc_scheme \<Rightarrow> (unit option \<times> ('a, 'b) cdc_scheme) result"
    by (rule wait_for_now) (fact r2 fuel)+
  have put: "V (wr E UEDATX b w) = (V w)\<lparr>bank := bank (V w) @ [b]\<rparr>" if "length (bank (V w)) < 8" for w b
    using c that unfolding control_in_def by blast
  define w3 where "w3 = foldl (\<lambda>w b. wr E UEDATX b w) w2 [b0, b1, b2, b3, b4, b5, b6]"
  have v3: "V w3 = \<lparr>bank = [b0, b1, b2, b3, b4, b5, b6], sent = [], wanted = 7, setup_waits = False, acked = False\<rparr>"
    unfolding w3_def by (simp add: put v2)
  obtain w4 where w4: "Endpoint_ClearIN E (s\<lparr>world := w3\<rparr>) = Ok ((), s\<lparr>world := w4\<rparr>)"
      and v4: "V w4 = \<lparr>bank = [], sent = [[b0, b1, b2, b3, b4, b5, b6]], wanted = 7, setup_waits = False, acked = False\<rparr>"
    using in_clear(1) [OF c, of "s\<lparr>world := w3\<rparr>"] v3 by auto
  obtain w5 where r5: "Endpoint_IsOUTReceived E (s\<lparr>world := w4\<rparr>) = Ok (True, s\<lparr>world := w5\<rparr>)" and v5: "V w5 = V w4"
    using in_test(3) [OF c, of "s\<lparr>world := w4\<rparr>"] v4 by (auto simp: host_done_def)
  have w5: "wait_for (polls E) (Endpoint_IsOUTReceived E) (if_unattached I) (s\<lparr>world := w4\<rparr>) = Ok (None, s\<lparr>world := w5\<rparr>)"
    by (rule wait_for_now) (fact r5 fuel)+
  obtain w6 where w6: "Endpoint_ClearOUT E (s\<lparr>world := w5\<rparr>) = Ok ((), s\<lparr>world := w6\<rparr>)" "sent (V w6) = sent (V w5)"
    using in_clear(3) [OF c, of "s\<lparr>world := w5\<rparr>"] by auto
  have "Endpoint_ClearStatusStage E I (s\<lparr>world := w4\<rparr>) = Ok ((), s\<lparr>world := w6\<rparr>)"
    using w5 w6 dir by (simp add: Endpoint_ClearStatusStage_def prog_simps)
  then have "get_line_encoding E I s = Ok ((), s\<lparr>world := w6\<rparr>)"
    using w1(1) w2 w4 by (simp add: get_line_encoding_def prog_simps Endpoint_Write_32_LE_def Endpoint_Write_8_def reg_wr_def
        enc encoding_of_bytes_def of_le32_bytes w3_def)
  then show ?thesis using w6(2) v5 v4 by auto
qed

lemma seven_bytes: "length bs = 7 \<Longrightarrow> \<exists>b0 b1 b2 b3 b4 b5 b6. bs = [b0, b1, b2, b3, b4, b5, b6]"
  by (simp add: numeral_eq_Suc length_Suc_conv) blast

text \<open>C12: the line encoding that the host sets is the one it reads back. The request \<^verbatim>\<open>SetLineEncoding\<close> with seven bytes returns, and
  in any later state with the interface structure that it left, \<^verbatim>\<open>GetLineEncoding\<close> returns and has sent one packet with the same
  seven bytes.
\<close>

theorem line_encoding_roundtrip:
  assumes out: "control_out E V" "0 < polls E"
    and set: "USB_ControlRequest s = \<lparr>bmRequestType = CLASS_HOSTTODEVICE_INTERFACE, bRequest = CDC_REQ_SetLineEncoding,
        wValue = 0, wIndex = ucast (ControlInterfaceNumber (cdc_config s)), wLength = 7\<rparr>"
      "V (world s) = \<lparr>packets = [bs], header_waits = True\<rparr>" "length bs = 7"
    and inn: "control_in E' V'" "0 < polls E'"
  shows "\<exists>s'. CDC_Device_ProcessControlRequest E I s = Ok ((), s') \<and>
    (\<forall>t. CDCInterfaceInfo t = CDCInterfaceInfo s' \<longrightarrow>
      USB_ControlRequest t = \<lparr>bmRequestType = CLASS_DEVICETOHOST_INTERFACE, bRequest = CDC_REQ_GetLineEncoding,
        wValue = 0, wIndex = ucast (ControlInterfaceNumber (cdc_config s)), wLength = 7\<rparr> \<longrightarrow>
      V' (world t) = \<lparr>bank = [], sent = [], wanted = 7, setup_waits = True, acked = False\<rparr> \<longrightarrow>
      (\<exists>w. CDC_Device_ProcessControlRequest E' I' t = Ok ((), t\<lparr>world := w\<rparr>) \<and> sent (V' w) = [bs]))"
proof -
  obtain b0 b1 b2 b3 b4 b5 b6 where bs: "bs = [b0, b1, b2, b3, b4, b5, b6]" using seven_bytes [OF set(3)] by blast
  let ?info = "(CDCInterfaceInfo s)\<lparr>State := (cdc_state s)\<lparr>LineEncoding := encoding_of_bytes bs\<rparr>\<rparr>"
  obtain w1 where w1: "Endpoint_IsSETUPReceived E s = Ok (True, s\<lparr>world := w1\<rparr>)" "V w1 = V (world s)"
    using out_test(2) [OF out(1), of s] set(2) by auto
  obtain w2 where "set_line_encoding E I (s\<lparr>world := w1\<rparr>) = Ok ((), s\<lparr>world := w1\<rparr>\<lparr>CDCInterfaceInfo := ?info, world := w2\<rparr>)"
    using set_line_encoding_runs [OF out, of "s\<lparr>world := w1\<rparr>" b0 b1 b2 b3 b4 b5 b6 I] w1(2) set(1,2)
    by (auto simp: bs cdc_consts)
  then have first: "CDC_Device_ProcessControlRequest E I s = Ok ((), s\<lparr>world := w1\<rparr>\<lparr>CDCInterfaceInfo := ?info, world := w2\<rparr>)"
    using w1(1) set(1) by (simp add: CDC_Device_ProcessControlRequest_def prog_simps Let_def cdc_consts)
  have "\<exists>w. CDC_Device_ProcessControlRequest E' I' t = Ok ((), t\<lparr>world := w\<rparr>) \<and> sent (V' w) = [bs]"
    if t: "CDCInterfaceInfo t = ?info" and get: "USB_ControlRequest t = \<lparr>bmRequestType = CLASS_DEVICETOHOST_INTERFACE,
        bRequest = CDC_REQ_GetLineEncoding, wValue = 0, wIndex = ucast (ControlInterfaceNumber (cdc_config s)), wLength = 7\<rparr>"
      "V' (world t) = \<lparr>bank = [], sent = [], wanted = 7, setup_waits = True, acked = False\<rparr>" for t
  proof -
    obtain u1 where u1: "Endpoint_IsSETUPReceived E' t = Ok (True, t\<lparr>world := u1\<rparr>)" "V' u1 = V' (world t)"
      using in_test(2) [OF inn(1), of t] get(2) by auto
    obtain u2 where "get_line_encoding E' I' (t\<lparr>world := u1\<rparr>) = Ok ((), t\<lparr>world := u2\<rparr>)" "sent (V' u2) = [bs]"
      using get_line_encoding_runs [OF inn, of "t\<lparr>world := u1\<rparr>" b0 b1 b2 b3 b4 b5 b6 I'] u1(2) get(1,2) t
      by (auto simp: bs cdc_consts)
    then show ?thesis
      using u1(1) get(1) t by (intro exI [of _ u2]) (simp add: CDC_Device_ProcessControlRequest_def prog_simps Let_def cdc_consts)
  qed
  with first show ?thesis by auto
qed

text \<open>9600 baud, one stop bit, no parity, eight bits.\<close>

definition line_request :: "u8 \<Rightarrow> u8 \<Rightarrow> USB_Request_Header" where
  "line_request t q = \<lparr>bmRequestType = t, bRequest = q, wValue = 0, wIndex = 0, wLength = 7\<rparr>"

theorem line_encoding_roundtrip_witness:
  "\<exists>s' t. CDC_Device_ProcessControlRequest out_avr (ret ())
       (serial_boot \<lparr>packets = [[0x80, 0x25, 0, 0, 0, 0, 8]], header_waits = True\<rparr>
         \<lparr>USB_ControlRequest := line_request CLASS_HOSTTODEVICE_INTERFACE CDC_REQ_SetLineEncoding\<rparr> :: (out_pipe, unit) serial) = Ok ((), s') \<and>
     CDC_Device_ProcessControlRequest pipe_avr (ret ())
       (serial_boot \<lparr>bank = [], sent = [], wanted = 7, setup_waits = True, acked = False\<rparr>
         \<lparr>USB_ControlRequest := line_request CLASS_DEVICETOHOST_INTERFACE CDC_REQ_GetLineEncoding, CDCInterfaceInfo := CDCInterfaceInfo s'\<rparr>
         :: (pipe, unit) serial) = Ok ((), t) \<and> sent (world t) = [[0x80, 0x25, 0, 0, 0, 0, 8]]"
proof -
  let ?s = "serial_boot \<lparr>packets = [[0x80, 0x25, 0, 0, 0, 0, 8]], header_waits = True\<rparr>
         \<lparr>USB_ControlRequest := line_request CLASS_HOSTTODEVICE_INTERFACE CDC_REQ_SetLineEncoding\<rparr> :: (out_pipe, unit) serial"
  let ?t = "\<lambda>s'. serial_boot \<lparr>bank = [], sent = [], wanted = 7, setup_waits = True, acked = False\<rparr>
         \<lparr>USB_ControlRequest := line_request CLASS_DEVICETOHOST_INTERFACE CDC_REQ_GetLineEncoding, CDCInterfaceInfo := CDCInterfaceInfo s'\<rparr>
         :: (pipe, unit) serial"
  have set: "USB_ControlRequest ?s = \<lparr>bmRequestType = CLASS_HOSTTODEVICE_INTERFACE, bRequest = CDC_REQ_SetLineEncoding,
      wValue = 0, wIndex = ucast (ControlInterfaceNumber (cdc_config ?s)), wLength = 7\<rparr>"
    by (simp add: line_request_def serial_boot_def VirtualSerial_CDC_Interface_def INTERFACE_ID_CDC_CCI_def)
  have w: "world ?s = \<lparr>packets = [[0x80, 0x25, 0, 0, 0, 0, 8]], header_waits = True\<rparr>" "0 < polls pipe_avr"
    by (simp_all add: serial_boot_def asked_descriptor)
  obtain s' where s': "CDC_Device_ProcessControlRequest out_avr (ret ()) ?s = Ok ((), s')"
    and later: "\<forall>t :: (pipe, unit) serial. CDCInterfaceInfo t = CDCInterfaceInfo s' \<longrightarrow>
      USB_ControlRequest t = \<lparr>bmRequestType = CLASS_DEVICETOHOST_INTERFACE, bRequest = CDC_REQ_GetLineEncoding,
        wValue = 0, wIndex = ucast (ControlInterfaceNumber (cdc_config ?s)), wLength = 7\<rparr> \<longrightarrow>
      world t = \<lparr>bank = [], sent = [], wanted = 7, setup_waits = True, acked = False\<rparr> \<longrightarrow>
      (\<exists>w. CDC_Device_ProcessControlRequest pipe_avr (ret ()) t = Ok ((), t\<lparr>world := w\<rparr>) \<and> sent w = [[0x80, 0x25, 0, 0, 0, 0, 8]])"
    using line_encoding_roundtrip [OF out_avr_control(1) _ set w(1) _ pipe_control_in w(2), of "ret ()" "ret ()"] by (auto simp: out_avr_control)
  have "\<exists>w. CDC_Device_ProcessControlRequest pipe_avr (ret ()) (?t s') = Ok ((), ?t s'\<lparr>world := w\<rparr>) \<and> sent w = [[0x80, 0x25, 0, 0, 0, 0, 8]]"
    by (rule later [rule_format])
      (simp_all add: line_request_def serial_boot_def VirtualSerial_CDC_Interface_def INTERFACE_ID_CDC_CCI_def)
  with s' show ?thesis by auto
qed

end
