(* ===== verification/Cdc_Console.thy ===== *)
theory Cdc_Console
  imports Cdc_Correct
begin

text \<open>
  The console on the serial port, seen by the host. The character device of the CDC class driver, with the main-loop handler of the
  firmware, is a \<open>char_device\<close> on every link that behaves as the data sheet says. Characters that the firmware writes reach
  the host in order and complete after the next turn of the main-loop handler, and the characters that the host sends are read in order.
\<close>

section \<open>The operations of the driver\<close>

text \<open>An open port whose endpoints are \<open>tx\<close> and \<open>rx\<close>.\<close>

definition open_port :: "u8 \<Rightarrow> u8 \<Rightarrow> ('w, 'z) cdc_scheme \<Rightarrow> bool" where
  "open_port tx rx s \<longleftrightarrow> \<not> cdc_closed s \<and> ep_Address (DataINEndpoint (cdc_config s)) AND ENDPOINT_EPNUM_MASK = tx \<and>
     ep_Address (DataOUTEndpoint (cdc_config s)) AND ENDPOINT_EPNUM_MASK = rx"

lemma open_port_world [simp]: "open_port tx rx (s\<lparr>world := w\<rparr>) = open_port tx rx s"
  by (simp add: open_port_def cdc_closed_def)

text \<open>The link between a driver and a host, with both banks in range.\<close>

definition console_ok :: "'w usb_avr \<Rightarrow> ('w \<Rightarrow> link) \<Rightarrow> u8 \<Rightarrow> u8 \<Rightarrow> ('w, 'z) cdc_scheme \<Rightarrow> bool" where
  "console_ok E V tx rx s \<longleftrightarrow> serial_link E V tx rx \<and> 0 < polls E \<and> open_port tx rx s \<and>
     length (bank_in (V (world s))) \<le> 16 \<and> list_all (\<lambda>p. length p \<le> 16) (arrived (V (world s)))"

lemma console_okD:
  assumes "console_ok E V tx rx s"
  shows "link_reads E V" "link_in E V tx" "link_out E V rx" "0 < polls E" "length (bank_in (V (world s))) \<le> 16"
    "list_all (\<lambda>p. length p \<le> 16) (arrived (V (world s)))" "\<not> cdc_closed s"
    "ep_Address (DataINEndpoint (cdc_config s)) AND ENDPOINT_EPNUM_MASK = tx"
    "ep_Address (DataOUTEndpoint (cdc_config s)) AND ENDPOINT_EPNUM_MASK = rx" "USB_DeviceState s \<noteq> DEVICE_STATE_Unattached"
  using assms by (auto simp: console_ok_def serial_link_def open_port_def cdc_closed_def)

lemma console_ok_world:
  "console_ok E V tx rx s \<Longrightarrow> length (bank_in (V w)) \<le> 16 \<Longrightarrow> list_all (\<lambda>p. length p \<le> 16) (arrived (V w)) \<Longrightarrow>
    console_ok E V tx rx (s\<lparr>world := w\<rparr>)"
  by (simp add: console_ok_def)

lemma putchar_runs:
  assumes k: "console_ok E V tx rx s"
  shows "\<exists>s'. CDC_Device_putchar E I c s = Ok (0, s') \<and> console_ok E V tx rx s' \<and>
    written (V (world s')) = written (V (world s)) @ [c] \<and> arrived (V (world s')) = arrived (V (world s))"
proof -
  note d = console_okD [OF k]
  obtain w where w: "CDC_Device_SendByte E I c s = Ok (0, s\<lparr>world := w\<rparr>)" "written (V w) = written (V (world s)) @ [c]"
      "length (bank_in (V w)) \<le> 16" "arrived (V w) = arrived (V (world s))"
    using send_byte_body [OF d(1,2,8,4,5), of I c] d(7) unfolding CDC_Device_SendByte_def pif_pget pbind_pget by auto
  then show ?thesis using console_ok_world [OF k, of w] d(6) by (simp add: CDC_Device_putchar_def prog_simps)
qed

lemma getchar_runs:
  assumes k: "console_ok E V tx rx s"
  shows "\<exists>s'. CDC_Device_getchar E s = Ok (fst (take_char (arrived (V (world s)))), s') \<and> console_ok E V tx rx s' \<and>
    written (V (world s')) = written (V (world s)) \<and> arrived (V (world s')) = snd (take_char (arrived (V (world s))))"
proof -
  note d = console_okD [OF k]
  obtain w x where w: "CDC_Device_ReceiveByte E s = Ok (x, s\<lparr>world := w\<rparr>)" "(if x < 0 then FDEV_EOF else x) = fst (take_char (arrived (V (world s))))"
      "V w = (V (world s))\<lparr>sel := rx, arrived := snd (take_char (arrived (V (world s))))\<rparr>"
    using receive_byte_body [OF d(1,3,9,6)] d(7) unfolding CDC_Device_ReceiveByte_def pif_pget pbind_pget by auto
  then show ?thesis using console_ok_world [OF k, of w] d(5) take_char_props(3) [OF d(6)]
    by (simp add: CDC_Device_getchar_def prog_simps written_def)
qed

lemma USBTask_runs:
  assumes k: "console_ok E V tx rx s"
  shows "\<exists>w. CDC_Device_USBTask E I s = Ok ((), s\<lparr>world := w\<rparr>) \<and>
    concat (released (V w)) = written (V (world s)) \<and> bank_in (V w) = [] \<and> arrived (V w) = arrived (V (world s))"
proof -
  note d = console_okD [OF k]
  obtain w1 where w1: "Endpoint_SelectEndpoint E (ep_Address (DataINEndpoint (cdc_config s))) s = Ok ((), s\<lparr>world := w1\<rparr>)"
      "V w1 = (V (world s))\<lparr>sel := tx\<rparr>"
    using link_select [OF d(1), of _ s] d(8) by metis
  obtain w2 where w2: "Endpoint_IsINReady E (s\<lparr>world := w1\<rparr>) = Ok (True, s\<lparr>world := w2\<rparr>)" "V w2 = V w1"
    using link_in_runs(2) [OF d(1,2), of "s\<lparr>world := w1\<rparr>"] w1(2) by auto
  have c2: "\<not> cdc_closed (s\<lparr>world := w2\<rparr>)" using d(7) by (simp add: cdc_closed_def)
  obtain w3 where "CDC_Device_Flush E I (s\<lparr>world := w2\<rparr>) = Ok (ENDPOINT_READYWAIT_NoError, s\<lparr>world := w3\<rparr>)"
      "concat (released (V w3)) = written (V w1)" "bank_in (V w3) = []" "arrived (V w3) = arrived (V w1)"
    using flush_body [OF d(1,2,8,4), of "s\<lparr>world := w2\<rparr>" I] w2(2) w1(2) d(5) c2
    unfolding CDC_Device_Flush_def pif_pget pbind_pget by auto
  with w1 w2 d(7) show ?thesis
    by (intro exI [of _ w3]) (simp add: CDC_Device_USBTask_def prog_simps written_def)
qed

text \<open>The task of the stack finds no control request and restores the selection.\<close>

lemma DeviceTask_idle:
  assumes r: "link_reads E V" and st: "USB_DeviceState s \<noteq> DEVICE_STATE_Unattached"
  shows "\<exists>w n. USB_USBTask E A s = Ok ((), s\<lparr>world := w\<rparr>) \<and> V w = (V (world s))\<lparr>sel := n\<rparr>"
proof -
  have "\<exists>p w1. Endpoint_GetCurrentEndpoint E s = Ok (p, s\<lparr>world := w1\<rparr>) \<and> V w1 = V (world s)"
    by (auto simp: Endpoint_GetCurrentEndpoint_def Endpoint_GetEndpointDirection_def reg_test_runs reg_rd_def prog_simps case_prod_unfold
        reads_simps [OF r])
  then obtain p w1 where w1: "Endpoint_GetCurrentEndpoint E s = Ok (p, s\<lparr>world := w1\<rparr>)" "V w1 = V (world s)" by blast
  obtain w2 where w2: "Endpoint_SelectEndpoint E ENDPOINT_CONTROLEP (s\<lparr>world := w1\<rparr>) = Ok ((), s\<lparr>world := w2\<rparr>)"
      "V w2 = (V (world s))\<lparr>sel := ENDPOINT_CONTROLEP\<rparr>"
    using link_select [OF r, of ENDPOINT_CONTROLEP "s\<lparr>world := w1\<rparr>"] w1(2) by (auto simp: ENDPOINT_CONTROLEP_def)
  have w3: "Endpoint_IsSETUPReceived E (s\<lparr>world := w2\<rparr>) = Ok (False, s\<lparr>world := snd (rd E UEINTX w2)\<rparr>)"
    using reads_simps(11) [OF r, of w2] w2(2) by (simp add: Endpoint_IsSETUPReceived_def reg_test_runs)
  obtain w4 where "Endpoint_SelectEndpoint E p (s\<lparr>world := snd (rd E UEINTX w2)\<rparr>) = Ok ((), s\<lparr>world := w4\<rparr>)"
      "V w4 = (V (world s))\<lparr>sel := p AND ENDPOINT_EPNUM_MASK\<rparr>"
    using link_select [OF r, of p "s\<lparr>world := snd (rd E UEINTX w2)\<rparr>"] w2(2) reads_simps(1) [OF r] by auto
  with w1 w2 w3 st show ?thesis
    by (intro exI [of _ w4] exI [of _ "p AND ENDPOINT_EPNUM_MASK"]) (simp add: USB_USBTask_def USB_DeviceTask_def prog_simps)
qed

lemma handler_runs:
  assumes k: "console_ok E V tx rx s"
  shows "\<exists>s'. USB_Mainloop_Handler E call s = Ok ((), s') \<and> console_ok E V tx rx s' \<and>
    concat (released (V (world s'))) = written (V (world s)) \<and> arrived (V (world s')) = arrived (V (world s))"
proof -
  note d = console_okD [OF k]
  obtain w2 where w2: "CDC_Device_USBTask E (irq_point E (serial_app E call)) s = Ok ((), s\<lparr>world := w2\<rparr>)"
      "concat (released (V w2)) = written (V (world s))" "bank_in (V w2) = []" "arrived (V w2) = arrived (V (world s))"
    using USBTask_runs [OF k] by blast
  obtain w3 n where w3: "USB_USBTask E (serial_app E call) (s\<lparr>world := w2\<rparr>) = Ok ((), s\<lparr>world := w3\<rparr>)" "V w3 = (V w2)\<lparr>sel := n\<rparr>"
    using DeviceTask_idle [OF d(1), of "s\<lparr>world := w2\<rparr>" "serial_app E call"] d(10) by auto
  from w2 w3 show ?thesis using console_ok_world [OF k, of w3] d(6)
    by (simp add: USB_Mainloop_Handler_def prog_simps)
qed

interpretation console: char_device "console_ok E V tx rx" "\<lambda>s. written (V (world s))" "\<lambda>s. concat (released (V (world s)))"
    "\<lambda>s. arrived (V (world s))" "CDC_Device_putchar E I" "CDC_Device_getchar E" "USB_Mainloop_Handler E call"
  by unfold_locales (use putchar_runs in blast, use getchar_runs in blast, use handler_runs in blast)

section \<open>The properties\<close>

definition opened :: "link \<Rightarrow> (link, unit) serial" where
  "opened l = serial_boot l\<lparr>USB_DeviceState := DEVICE_STATE_Configured,
     CDCInterfaceInfo := VirtualSerial_CDC_Interface\<lparr>State := zero_state\<lparr>LineEncoding := encoding_of_bytes [0x80, 0x25, 0, 0, 0, 0, 8]\<rparr>\<rparr>\<rparr>"

lemma opened_port: "open_port 3 4 (opened l)" "world (opened l) = l" "opened l\<lparr>world := m\<rparr> = opened m"
  by (simp_all add: open_port_def opened_def cdc_closed_def serial_boot_def VirtualSerial_CDC_Interface_def desc_consts ENDPOINT_EPNUM_MASK_def
      encoding_of_bytes_def of_le32_def ENDPOINT_DIR_IN_def ENDPOINT_DIR_OUT_def)

text \<open>C10: what the firmware prints reaches the host. On an open port, writing any string character by character through
  \<^verbatim>\<open>CDC_Device_putchar\<close> succeeds, and after the next turn of \<^verbatim>\<open>USB_Mainloop_Handler\<close> the host has received what it had, what was in the
  bank, and then exactly the string; the port is as good as before, and no input is lost.\<close>

theorem console_output_delivered:
  assumes "console_ok E V tx rx s"
  shows "\<exists>s'. pbind (put_all (CDC_Device_putchar E I) cs) (\<lambda>e. pbind (USB_Mainloop_Handler E call) (\<lambda>_. ret e)) s = Ok (0, s') \<and>
    console_ok E V tx rx s' \<and>
    concat (released (V (world s'))) = concat (released (V (world s))) @ bank_in (V (world s)) @ cs \<and>
    arrived (V (world s')) = arrived (V (world s))"
  using console.puts_then_task [OF assms] by (simp add: written_def)

theorem console_output_delivered_witness:
  "\<exists>s'. pbind (put_all (CDC_Device_putchar link_avr (ret ())) [0x68, 0x69])
      (\<lambda>e. pbind (USB_Mainloop_Handler link_avr (\<lambda>_. ret ())) (\<lambda>_. ret e))
      (opened \<lparr>sel = 0, bank_in = [0x3E], released = [], arrived = []\<rparr>) = Ok (0, s') \<and> concat (released (world s')) = [0x3E, 0x68, 0x69]"
  using console_output_delivered [of link_avr "\<lambda>l. l" 3 4 "opened \<lparr>sel = 0, bank_in = [0x3E], released = [], arrived = []\<rparr>"
      "ret ()" "[0x68, 0x69]" "\<lambda>_. ret ()"]
  by (auto simp: console_ok_def opened_port link_avr_serial)

text \<open>C11: what the host sends is read in order. On an open port, reading with \<^verbatim>\<open>CDC_Device_getchar\<close> often enough (once per byte and once per
  packet) gives, end-of-file marks aside, exactly the bytes of the packets that have arrived, whatever their sizes, empty ones included;
  every packet is acknowledged, and no output is lost.\<close>

theorem console_input_in_order:
  fixes s :: "('w, 'f) serial"
  assumes "console_ok E V tx rx s" and "length (concat (arrived (V (world s)))) + length (arrived (V (world s))) \<le> n"
  shows "\<exists>s' cs. get_all (CDC_Device_getchar E) n s = Ok (cs, s') \<and> console_ok E V tx rx s' \<and>
    filter (\<lambda>c. 0 \<le> c) cs = map uint (concat (arrived (V (world s)))) \<and>
    arrived (V (world s')) = [] \<and> written (V (world s')) = written (V (world s))"
  by (rule console.gets [OF assms])

theorem console_input_in_order_witness:
  "\<exists>s' cs. get_all (CDC_Device_getchar link_avr) 6 (opened \<lparr>sel = 0, bank_in = [], released = [], arrived = [[0x68, 0x69], [], [10]]\<rparr>) = Ok (cs, s') \<and>
     filter (\<lambda>c. 0 \<le> c) cs = [104, 105, 10]"
  using console_input_in_order [of link_avr "\<lambda>l. l" 3 4 "opened \<lparr>sel = 0, bank_in = [], released = [], arrived = [[0x68, 0x69], [], [10]]\<rparr>" 6]
  by (simp add: console_ok_def opened_port link_avr_serial) blast

end
