(* ===== verification/Printer_Device.thy ===== *)
theory Printer_Device
  imports Usb_Host
begin

text \<open>
  The printer class driver of LUFA in device mode, \<^verbatim>\<open>USB/Class/Device/PrinterClassDevice.c\<close>, in the order of the source. The interface
  structure is one object, so the state of the stack is extended by it. The argument \<open>I\<close> is the interrupt that may be taken
  where the code waits; the event of a soft reset is the weak stub. Its data operations are those of the serial driver,
  and its character device is interpreted as a \<open>char_device\<close>, too. The request for the port status never releases its bank.
\<close>

section \<open>The interface structure\<close>

record PRNT_Config =
  PRNT_InterfaceNumber :: u8
  PRNT_DataINEndpoint :: USB_Endpoint_Table
  PRNT_DataOUTEndpoint :: USB_Endpoint_Table
  IEEE1284String :: "u8 list"

record PRNT_State =
  PortStatus :: u8
  IsPrinterReset :: bool

record 'w prnt = "'w usb" +
  PRNT_config :: PRNT_Config
  PRNT_state :: PRNT_State

definition PRNT_PORTSTATUS_NOTERROR :: u8 where "PRNT_PORTSTATUS_NOTERROR = bv 3"
definition PRNT_PORTSTATUS_SELECT :: u8 where "PRNT_PORTSTATUS_SELECT = bv 4"
definition PRNT_REQ_GetDeviceID :: u8 where "PRNT_REQ_GetDeviceID = 0x00"
definition PRNT_REQ_GetPortStatus :: u8 where "PRNT_REQ_GetPortStatus = 0x01"
definition PRNT_REQ_SoftReset :: u8 where "PRNT_REQ_SoftReset = 0x02"

lemmas prnt_consts = PRNT_REQ_GetDeviceID_def PRNT_REQ_GetPortStatus_def PRNT_REQ_SoftReset_def

definition PRNT_Device_Event_Stub :: "('s, unit) prog" where
  "PRNT_Device_Event_Stub = ret ()"

definition set_prnt_reset :: "bool \<Rightarrow> (('w, 'z) prnt_scheme, unit) prog" where
  "set_prnt_reset b = pmod (\<lambda>s. s\<lparr>PRNT_state := (PRNT_state s)\<lparr>IsPrinterReset := b\<rparr>\<rparr>)"

section \<open>Class requests\<close>

definition get_device_id :: "'w usb_avr \<Rightarrow> (('w, 'z) prnt_scheme, unit) prog \<Rightarrow> (('w, 'z) prnt_scheme, unit) prog" where
  "get_device_id E I =
     pbind (Endpoint_ClearSETUP E) (\<lambda>_.
     pbind (wait_for (polls E) (Endpoint_IsINReady E) (if_unattached I)) (\<lambda>e.
     case e of
       Some _ \<Rightarrow> ret ()
     | None \<Rightarrow>
         pbind (pget (\<lambda>s. IEEE1284String (PRNT_config s))) (\<lambda>str.
         pbind (plift (strlen str)) (\<lambda>n.
         pseq [Endpoint_Write_16_BE E (of_nat n),
               pbind (Endpoint_Write_Control_Stream_LE E I str (of_nat n)) (\<lambda>_. ret ()),
               Endpoint_ClearStatusStage E I]))))"

definition get_port_status :: "'w usb_avr \<Rightarrow> (('w, 'z) prnt_scheme, unit) prog \<Rightarrow> (('w, 'z) prnt_scheme, unit) prog" where
  "get_port_status E I =
     pbind (Endpoint_ClearSETUP E) (\<lambda>_.
     pbind (wait_for (polls E) (Endpoint_IsINReady E) (if_unattached I)) (\<lambda>e.
     case e of
       Some _ \<Rightarrow> ret ()
     | None \<Rightarrow>
         pseq [pbind (pget (\<lambda>s. PortStatus (PRNT_state s))) (Endpoint_Write_8 E),
               Endpoint_ClearStatusStage E I]))"

definition PRNT_Device_ProcessControlRequest :: "'w usb_avr \<Rightarrow> (('w, 'z) prnt_scheme, unit) prog \<Rightarrow> (('w, 'z) prnt_scheme, unit) prog" where
  "PRNT_Device_ProcessControlRequest E I =
     pif (Endpoint_IsSETUPReceived E)
       (pbind (pget USB_ControlRequest) (\<lambda>r. pbind (pget PRNT_config) (\<lambda>c.
        let t = bmRequestType r; q = bRequest r in
        if wIndex r \<noteq> ucast (PRNT_InterfaceNumber c) then ret ()
        else if q = PRNT_REQ_GetDeviceID then
          pwhen (t = CLASS_DEVICETOHOST_INTERFACE) (get_device_id E I)
        else if q = PRNT_REQ_GetPortStatus then
          pwhen (t = CLASS_DEVICETOHOST_INTERFACE) (get_port_status E I)
        else if q = PRNT_REQ_SoftReset then
          pwhen (t = CLASS_HOSTTODEVICE_INTERFACE)
            (pseq [Endpoint_ClearSETUP E, Endpoint_ClearStatusStage E I, set_prnt_reset True, PRNT_Device_Event_Stub])
        else ret ())))
       (ret ())"

section \<open>Configuration and housekeeping\<close>

definition PRNT_Device_ConfigureEndpoints :: "'w usb_avr \<Rightarrow> (('w, 'z) prnt_scheme, bool) prog" where
  "PRNT_Device_ConfigureEndpoints E =
     pbind (pmod (\<lambda>s. s\<lparr>PRNT_state := \<lparr>PortStatus = PRNT_PORTSTATUS_NOTERROR OR PRNT_PORTSTATUS_SELECT, IsPrinterReset = False\<rparr>\<rparr>)) (\<lambda>_.
     pbind (pmod (\<lambda>s. s\<lparr>PRNT_config := (PRNT_config s)\<lparr>
       PRNT_DataINEndpoint := (PRNT_DataINEndpoint (PRNT_config s))\<lparr>ep_Type := EP_TYPE_BULK\<rparr>,
       PRNT_DataOUTEndpoint := (PRNT_DataOUTEndpoint (PRNT_config s))\<lparr>ep_Type := EP_TYPE_BULK\<rparr>\<rparr>\<rparr>)) (\<lambda>_.
     pbind (pget PRNT_config) (\<lambda>c.
     pif (Endpoint_ConfigureEndpointTable E [PRNT_DataINEndpoint c])
       (pif (Endpoint_ConfigureEndpointTable E [PRNT_DataOUTEndpoint c]) (ret True) (ret False))
       (ret False))))"

definition prnt_closed :: "('w, 'z) prnt_scheme \<Rightarrow> bool" where
  "prnt_closed s \<longleftrightarrow> USB_DeviceState s \<noteq> DEVICE_STATE_Configured"

definition PRNT_Device_Flush :: "'w usb_avr \<Rightarrow> (('w, 'z) prnt_scheme, unit) prog \<Rightarrow> (('w, 'z) prnt_scheme, u8) prog" where
  "PRNT_Device_Flush E I =
     pif (pget prnt_closed) (ret ENDPOINT_RWSTREAM_DeviceDisconnected)
     (pbind (pget PRNT_config) (\<lambda>c.
      pbind (Endpoint_SelectEndpoint E (ep_Address (PRNT_DataINEndpoint c))) (\<lambda>_.
      pbind (Endpoint_BytesInEndpoint E) (\<lambda>b.
      if b = 0 then ret ENDPOINT_READYWAIT_NoError
      else
        pbind (Endpoint_IsReadWriteAllowed E) (\<lambda>rwal.
        pbind (Endpoint_ClearIN E) (\<lambda>_.
        if \<not> rwal then
          pbind (Endpoint_WaitUntilReady E I) (\<lambda>ErrorCode.
          if ErrorCode \<noteq> ENDPOINT_READYWAIT_NoError then ret ErrorCode
          else pbind (Endpoint_ClearIN E) (\<lambda>_. ret ENDPOINT_READYWAIT_NoError))
        else ret ENDPOINT_READYWAIT_NoError))))))"

definition prnt_reset_endpoints :: "'w usb_avr \<Rightarrow> PRNT_Config \<Rightarrow> (('w, 'z) prnt_scheme, unit) prog" where
  "prnt_reset_endpoints E c =
     pseq [Endpoint_ResetEndpoint E (ep_Address (PRNT_DataOUTEndpoint c)),
           Endpoint_ResetEndpoint E (ep_Address (PRNT_DataINEndpoint c)),
           Endpoint_SelectEndpoint E (ep_Address (PRNT_DataOUTEndpoint c)),
           Endpoint_ClearStall E, Endpoint_ResetDataToggle E,
           Endpoint_SelectEndpoint E (ep_Address (PRNT_DataINEndpoint c)),
           Endpoint_ClearStall E, Endpoint_ResetDataToggle E,
           set_prnt_reset False]"

definition PRNT_Device_USBTask :: "'w usb_avr \<Rightarrow> (('w, 'z) prnt_scheme, unit) prog \<Rightarrow> (('w, 'z) prnt_scheme, unit) prog" where
  "PRNT_Device_USBTask E I =
     pif (pget prnt_closed) (ret ())
     (pbind (pget PRNT_config) (\<lambda>c.
      pseq [Endpoint_SelectEndpoint E (ep_Address (PRNT_DataINEndpoint c)),
            pif (Endpoint_IsINReady E) (pbind (PRNT_Device_Flush E I) (\<lambda>_. ret ())) (ret ()),
            pif (pget (\<lambda>s. IsPrinterReset (PRNT_state s))) (prnt_reset_endpoints E c) (ret ())]))"

section \<open>Data\<close>

definition prnt_send ::
    "'w usb_avr \<Rightarrow> (('w, 'z) prnt_scheme, u8 \<times> u16 option \<times> u8 list) prog \<Rightarrow> (('w, 'z) prnt_scheme, u8) prog" where
  "prnt_send E stream =
     pif (pget prnt_closed) (ret ENDPOINT_RWSTREAM_DeviceDisconnected)
     (pbind (pget PRNT_config) (\<lambda>c.
      pbind (Endpoint_SelectEndpoint E (ep_Address (PRNT_DataINEndpoint c))) (\<lambda>_.
      pbind stream (\<lambda>(ErrorCode, _). ret ErrorCode))))"

definition PRNT_Device_SendString :: "'w usb_avr \<Rightarrow> (('w, 'z) prnt_scheme, unit) prog \<Rightarrow> u8 list \<Rightarrow> (('w, 'z) prnt_scheme, u8) prog" where
  "PRNT_Device_SendString E I String =
     prnt_send E (pbind (plift (strlen String)) (\<lambda>n. Endpoint_Write_Stream_LE E I String (of_nat n) None))"

definition PRNT_Device_SendData :: "'w usb_avr \<Rightarrow> (('w, 'z) prnt_scheme, unit) prog \<Rightarrow> u8 list \<Rightarrow> u16 \<Rightarrow> (('w, 'z) prnt_scheme, u8) prog" where
  "PRNT_Device_SendData E I Buffer Length = prnt_send E (Endpoint_Write_Stream_LE E I Buffer Length None)"

definition PRNT_Device_SendByte :: "'w usb_avr \<Rightarrow> (('w, 'z) prnt_scheme, unit) prog \<Rightarrow> u8 \<Rightarrow> (('w, 'z) prnt_scheme, u8) prog" where
  "PRNT_Device_SendByte E I Data =
     pif (pget prnt_closed) (ret ENDPOINT_RWSTREAM_DeviceDisconnected)
     (pbind (pget PRNT_config) (\<lambda>c.
      pbind (Endpoint_SelectEndpoint E (ep_Address (PRNT_DataINEndpoint c))) (\<lambda>_.
      pbind (pif (Endpoint_IsReadWriteAllowed E) (ret ENDPOINT_READYWAIT_NoError)
               (pbind (Endpoint_ClearIN E) (\<lambda>_. Endpoint_WaitUntilReady E I))) (\<lambda>ErrorCode.
      if ErrorCode \<noteq> ENDPOINT_READYWAIT_NoError then ret ErrorCode
      else pbind (Endpoint_Write_8 E Data) (\<lambda>_. ret ENDPOINT_READYWAIT_NoError)))))"

definition PRNT_Device_BytesReceived :: "'w usb_avr \<Rightarrow> (('w, 'z) prnt_scheme, u16) prog" where
  "PRNT_Device_BytesReceived E =
     pif (pget prnt_closed) (ret 0)
     (pbind (pget PRNT_config) (\<lambda>c.
      pbind (Endpoint_SelectEndpoint E (ep_Address (PRNT_DataOUTEndpoint c))) (\<lambda>_.
      pif (Endpoint_IsOUTReceived E)
        (pbind (Endpoint_BytesInEndpoint E) (\<lambda>b.
         if b = 0 then pbind (Endpoint_ClearOUT E) (\<lambda>_. ret 0) else Endpoint_BytesInEndpoint E))
        (ret 0))))"

definition PRNT_Device_ReceiveByte :: "'w usb_avr \<Rightarrow> (('w, 'z) prnt_scheme, int) prog" where
  "PRNT_Device_ReceiveByte E =
     pif (pget prnt_closed) (ret (-1))
     (pbind (pget PRNT_config) (\<lambda>c.
      pbind (Endpoint_SelectEndpoint E (ep_Address (PRNT_DataOUTEndpoint c))) (\<lambda>_.
      pif (Endpoint_IsOUTReceived E)
        (pbind (Endpoint_BytesInEndpoint E) (\<lambda>b.
         pbind (if b \<noteq> 0 then pbind (Endpoint_Read_8 E) (\<lambda>x. ret (uint x)) else ret (-1)) (\<lambda>ReceivedByte.
         pbind (Endpoint_BytesInEndpoint E) (\<lambda>b.
         pbind (pwhen (b = 0) (Endpoint_ClearOUT E)) (\<lambda>_. ret ReceivedByte)))))
        (ret (-1)))))"

section \<open>The character device\<close>

definition PRNT_Device_putchar :: "'w usb_avr \<Rightarrow> (('w, 'z) prnt_scheme, unit) prog \<Rightarrow> u8 \<Rightarrow> (('w, 'z) prnt_scheme, int) prog" where
  "PRNT_Device_putchar E I c =
     pbind (PRNT_Device_SendByte E I c) (\<lambda>ErrorCode. ret (if ErrorCode \<noteq> 0 then FDEV_ERR else 0))"

definition PRNT_Device_getchar :: "'w usb_avr \<Rightarrow> (('w, 'z) prnt_scheme, int) prog" where
  "PRNT_Device_getchar E =
     pbind (PRNT_Device_ReceiveByte E) (\<lambda>ReceivedByte. ret (if ReceivedByte < 0 then FDEV_EOF else ReceivedByte))"

fun prnt_getchar_loop :: "'w usb_avr \<Rightarrow> (('w, 'z) prnt_scheme, unit) prog \<Rightarrow> (('w, 'z) prnt_scheme, unit) prog \<Rightarrow> nat \<Rightarrow> (('w, 'z) prnt_scheme, int) prog" where
  "prnt_getchar_loop E I task 0 = pfail Diverge"
| "prnt_getchar_loop E I task (Suc n) =
     pbind (PRNT_Device_ReceiveByte E) (\<lambda>ReceivedByte.
     if ReceivedByte < 0 then
       pbind I (\<lambda>_. pbind (pget USB_DeviceState) (\<lambda>d.
       if d = DEVICE_STATE_Unattached then ret FDEV_EOF
       else pbind (PRNT_Device_USBTask E I) (\<lambda>_. pbind task (\<lambda>_. prnt_getchar_loop E I task n))))
     else ret ReceivedByte)"

definition PRNT_Device_getchar_Blocking :: "'w usb_avr \<Rightarrow> (('w, 'z) prnt_scheme, unit) prog \<Rightarrow> (('w, 'z) prnt_scheme, unit) prog \<Rightarrow> (('w, 'z) prnt_scheme, int) prog" where
  "PRNT_Device_getchar_Blocking E I task = prnt_getchar_loop E I task (polls E)"

end
