(* ===== verification/Printer_Correct.thy ===== *)
theory Printer_Correct
  imports Printer_Device
begin

text \<open>
  Properties of the printer class driver: its character device satisfies the contract \<open>char_device\<close>, so that what is written reaches the host
  and what the host sends is read; and the request for the port status leaves its byte in the bank and waits for a host that waits for it.
\<close>

section \<open>The character device\<close>

definition printer_ok :: "'w usb_avr \<Rightarrow> ('w \<Rightarrow> link) \<Rightarrow> u8 \<Rightarrow> u8 \<Rightarrow> ('w, 'z) prnt_scheme \<Rightarrow> bool" where
  "printer_ok E V tx rx s \<longleftrightarrow> serial_link E V tx rx \<and> 0 < polls E \<and> \<not> prnt_closed s \<and> \<not> IsPrinterReset (PRNT_state s) \<and>
     ep_Address (PRNT_DataINEndpoint (PRNT_config s)) AND ENDPOINT_EPNUM_MASK = tx \<and>
     ep_Address (PRNT_DataOUTEndpoint (PRNT_config s)) AND ENDPOINT_EPNUM_MASK = rx \<and>
     length (bank_in (V (world s))) \<le> 16 \<and> list_all (\<lambda>p. length p \<le> 16) (arrived (V (world s)))"

lemma printer_okD:
  assumes "printer_ok E V tx rx s"
  shows "link_reads E V" "link_in E V tx" "link_out E V rx" "0 < polls E" "length (bank_in (V (world s))) \<le> 16"
    "list_all (\<lambda>p. length p \<le> 16) (arrived (V (world s)))" "\<not> prnt_closed s"
    "ep_Address (PRNT_DataINEndpoint (PRNT_config s)) AND ENDPOINT_EPNUM_MASK = tx"
    "ep_Address (PRNT_DataOUTEndpoint (PRNT_config s)) AND ENDPOINT_EPNUM_MASK = rx" "\<not> IsPrinterReset (PRNT_state s)"
  using assms by (auto simp: printer_ok_def serial_link_def)

lemma printer_ok_world:
  "printer_ok E V tx rx s \<Longrightarrow> length (bank_in (V w)) \<le> 16 \<Longrightarrow> list_all (\<lambda>p. length p \<le> 16) (arrived (V w)) \<Longrightarrow>
    printer_ok E V tx rx (s\<lparr>world := w\<rparr>)"
  by (simp add: printer_ok_def prnt_closed_def)

lemma prnt_putchar_runs:
  assumes k: "printer_ok E V tx rx s"
  shows "\<exists>s'. PRNT_Device_putchar E I c s = Ok (0, s') \<and> printer_ok E V tx rx s' \<and>
    written (V (world s')) = written (V (world s)) @ [c] \<and> arrived (V (world s')) = arrived (V (world s))"
proof -
  note d = printer_okD [OF k]
  obtain w where w: "PRNT_Device_SendByte E I c s = Ok (0, s\<lparr>world := w\<rparr>)" "written (V w) = written (V (world s)) @ [c]"
      "length (bank_in (V w)) \<le> 16" "arrived (V w) = arrived (V (world s))"
    using send_byte_body [OF d(1,2,8,4,5), of I c] d(7) unfolding PRNT_Device_SendByte_def pif_pget pbind_pget by auto
  then show ?thesis using printer_ok_world [OF k, of w] d(6) by (simp add: PRNT_Device_putchar_def prog_simps)
qed

lemma prnt_getchar_runs:
  assumes k: "printer_ok E V tx rx s"
  shows "\<exists>s'. PRNT_Device_getchar E s = Ok (fst (take_char (arrived (V (world s)))), s') \<and> printer_ok E V tx rx s' \<and>
    written (V (world s')) = written (V (world s)) \<and> arrived (V (world s')) = snd (take_char (arrived (V (world s))))"
proof -
  note d = printer_okD [OF k]
  obtain w x where w: "PRNT_Device_ReceiveByte E s = Ok (x, s\<lparr>world := w\<rparr>)" "(if x < 0 then FDEV_EOF else x) = fst (take_char (arrived (V (world s))))"
      "V w = (V (world s))\<lparr>sel := rx, arrived := snd (take_char (arrived (V (world s))))\<rparr>"
    using receive_byte_body [OF d(1,3,9,6)] d(7) unfolding PRNT_Device_ReceiveByte_def pif_pget pbind_pget by auto
  then show ?thesis using printer_ok_world [OF k, of w] d(5) take_char_props(3) [OF d(6)]
    by (simp add: PRNT_Device_getchar_def prog_simps written_def)
qed

lemma prnt_task_runs:
  assumes k: "printer_ok E V tx rx s"
  shows "\<exists>s'. PRNT_Device_USBTask E I s = Ok ((), s') \<and> printer_ok E V tx rx s' \<and>
    concat (released (V (world s'))) = written (V (world s)) \<and> arrived (V (world s')) = arrived (V (world s))"
proof -
  note d = printer_okD [OF k]
  obtain w1 where w1: "Endpoint_SelectEndpoint E (ep_Address (PRNT_DataINEndpoint (PRNT_config s))) s = Ok ((), s\<lparr>world := w1\<rparr>)"
      "V w1 = (V (world s))\<lparr>sel := tx\<rparr>"
    using link_select [OF d(1), of _ s] d(8) by metis
  obtain w2 where w2: "Endpoint_IsINReady E (s\<lparr>world := w1\<rparr>) = Ok (True, s\<lparr>world := w2\<rparr>)" "V w2 = V w1"
    using link_in_runs(2) [OF d(1,2), of "s\<lparr>world := w1\<rparr>"] w1(2) by auto
  have c2: "\<not> prnt_closed (s\<lparr>world := w2\<rparr>)" using d(7) by (simp add: prnt_closed_def)
  obtain w3 where "PRNT_Device_Flush E I (s\<lparr>world := w2\<rparr>) = Ok (ENDPOINT_READYWAIT_NoError, s\<lparr>world := w3\<rparr>)"
      "concat (released (V w3)) = written (V w1)" "bank_in (V w3) = []" "arrived (V w3) = arrived (V w1)"
    using flush_body [OF d(1,2,8,4), of "s\<lparr>world := w2\<rparr>" I] w2(2) w1(2) d(5) c2
    unfolding PRNT_Device_Flush_def pif_pget pbind_pget by auto
  with w1 w2 d(6,7,10) printer_ok_world [OF k, of w3] show ?thesis
    by (simp add: PRNT_Device_USBTask_def prog_simps written_def)
qed

interpretation printer: char_device "printer_ok E V tx rx" "\<lambda>s. written (V (world s))" "\<lambda>s. concat (released (V (world s)))"
    "\<lambda>s. arrived (V (world s))" "PRNT_Device_putchar E I" "PRNT_Device_getchar E" "PRNT_Device_USBTask E J"
  by unfold_locales (use prnt_putchar_runs in blast, use prnt_getchar_runs in blast, use prnt_task_runs in blast)

section \<open>The port status\<close>

lemma wait_out_stuck:
  assumes c: "control_in E V"
  shows "\<not> setup_waits (V (world s)) \<Longrightarrow> \<not> host_done (V (world s)) \<Longrightarrow> USB_DeviceState s \<noteq> DEVICE_STATE_Unattached \<Longrightarrow>
    wait_for n (Endpoint_IsOUTReceived E) (if_unattached (gen_point E A)) s = Fail Diverge"
proof (induction n arbitrary: s)
  case 0
  then show ?case by (simp add: prog_simps)
next
  case (Suc n)
  obtain w1 where w1: "Endpoint_IsOUTReceived E s = Ok (False, s\<lparr>world := w1\<rparr>)" "V w1 = V (world s)"
    using in_test(3) [OF c, of s] Suc.prems(2) by auto
  obtain w2 where w2: "gen_point E A (s\<lparr>world := w1\<rparr>) = Ok ((), s\<lparr>world := w2\<rparr>)" "V w2 = V (world s)"
    using in_gen [OF c, of A "s\<lparr>world := w1\<rparr>"] w1(2) by auto
  have "wait_for n (Endpoint_IsOUTReceived E) (if_unattached (gen_point E A)) (s\<lparr>world := w2\<rparr>) = Fail Diverge"
    using Suc.IH [of "s\<lparr>world := w2\<rparr>"] Suc.prems w2(2) by simp
  moreover have "if_unattached (gen_point E A) (s\<lparr>world := w1\<rparr>) = Ok (None, s\<lparr>world := w2\<rparr>)"
    using w2(1) Suc.prems(3) by (simp add: if_unattached_def prog_simps)
  ultimately show ?case using w1(1) by (simp add: prog_simps)
qed

text \<open>C36: a host that asks the printer for its port status waits forever, and so does the driver: the request handler writes the status byte
  but does not release the bank, and then waits for the status stage, which the host sends only after the byte.\<close>

theorem port_status_stuck:
  assumes c: "control_in E V" and fuel: "0 < polls E"
    and p: "V (world s) = \<lparr>bank = [], sent = [], wanted = 1, setup_waits = True, acked = False\<rparr>"
    and st: "USB_DeviceState s \<noteq> DEVICE_STATE_Unattached"
    and req: "USB_ControlRequest s = \<lparr>bmRequestType = CLASS_DEVICETOHOST_INTERFACE, bRequest = PRNT_REQ_GetPortStatus,
        wValue = 0, wIndex = ucast (PRNT_InterfaceNumber (PRNT_config s)), wLength = 1\<rparr>"
  shows "PRNT_Device_ProcessControlRequest E (gen_point E A) s = Fail Diverge"
proof -
  obtain w0 where w0: "Endpoint_IsSETUPReceived E s = Ok (True, s\<lparr>world := w0\<rparr>)" "V w0 = V (world s)"
    using in_test(2) [OF c, of s] p by auto
  obtain w1 where w1: "Endpoint_ClearSETUP E (s\<lparr>world := w0\<rparr>) = Ok ((), s\<lparr>world := w1\<rparr>)" "V w1 = (V (world s))\<lparr>setup_waits := False\<rparr>"
    using in_clear(2) [OF c, of "s\<lparr>world := w0\<rparr>"] w0(2) by auto
  obtain w2 where r2: "Endpoint_IsINReady E (s\<lparr>world := w1\<rparr>) = Ok (True, s\<lparr>world := w2\<rparr>)" and v2: "V w2 = V w1"
    using in_test(1) [OF c, of "s\<lparr>world := w1\<rparr>"] by auto
  have w2: "wait_for (polls E) (Endpoint_IsINReady E) (if_unattached (gen_point E A)) (s\<lparr>world := w1\<rparr>) = Ok (None, s\<lparr>world := w2\<rparr>)"
    by (rule wait_for_now) (fact r2 fuel)+
  define w3 where "w3 = wr E UEDATX (PortStatus (PRNT_state s)) w2"
  have w3: "Endpoint_Write_8 E (PortStatus (PRNT_state s)) (s\<lparr>world := w2\<rparr>) = Ok ((), s\<lparr>world := w3\<rparr>)"
    by (simp add: Endpoint_Write_8_def reg_wr_def w3_def)
  have "V w3 = \<lparr>bank = [PortStatus (PRNT_state s)], sent = [], wanted = 1, setup_waits = False, acked = False\<rparr>"
    using c v2 w1(2) p unfolding control_in_def w3_def by simp
  then have "wait_for (polls E) (Endpoint_IsOUTReceived E) (if_unattached (gen_point E A)) (s\<lparr>world := w3\<rparr>) = Fail Diverge"
    by (intro wait_out_stuck [OF c]) (simp_all add: host_done_def st)
  with w0 w1 w2 w3 req show ?thesis
    by (simp add: PRNT_Device_ProcessControlRequest_def get_port_status_def Endpoint_ClearStatusStage_def prog_simps Let_def prnt_consts cdc_consts)
qed

definition printer_asked :: "pipe prnt" where
  "printer_asked = \<lparr>world = \<lparr>bank = [], sent = [], wanted = 1, setup_waits = True, acked = False\<rparr>, USB_IsInitialized = True,
     USB_DeviceState = DEVICE_STATE_Configured,
     USB_ControlRequest = \<lparr>bmRequestType = CLASS_DEVICETOHOST_INTERFACE, bRequest = PRNT_REQ_GetPortStatus, wValue = 0, wIndex = 0, wLength = 1\<rparr>,
     USB_Device_ConfigurationNumber = 1, USB_Device_CurrentlySelfPowered = False, USB_Device_RemoteWakeupEnabled = False,
     PRNT_config = \<lparr>PRNT_InterfaceNumber = 0,
       PRNT_DataINEndpoint = \<lparr>ep_Address = 0x83, ep_Size = 16, ep_Type = EP_TYPE_BULK, ep_Banks = 1\<rparr>,
       PRNT_DataOUTEndpoint = \<lparr>ep_Address = 0x04, ep_Size = 16, ep_Type = EP_TYPE_BULK, ep_Banks = 1\<rparr>, IEEE1284String = [0]\<rparr>,
     PRNT_state = \<lparr>PortStatus = PRNT_PORTSTATUS_NOTERROR OR PRNT_PORTSTATUS_SELECT, IsPrinterReset = False\<rparr>\<rparr>"

theorem port_status_stuck_witness:
  "\<forall>A. PRNT_Device_ProcessControlRequest pipe_avr (gen_point pipe_avr A) printer_asked = Fail Diverge"
  by (intro allI port_status_stuck [OF pipe_control_in]) (simp_all add: asked_descriptor printer_asked_def)

end
