(* ===== verification/Mass_Storage.thy ===== *)
theory Mass_Storage
  imports Usb_Invariant
begin

text \<open>
  The mass storage class driver of LUFA in device mode, \<^verbatim>\<open>USB/Class/Device/MassStorageClassDevice.c\<close>: the two class requests,
  the command block with its checks, the status block, and the task that runs a command. The packed command block is its 31 bytes,
  and a read into a part of it stores only there. The callback that runs a SCSI command is the parameter \<open>scsi\<close>, the interrupt that may
  be taken where the code waits is \<open>I\<close>; the firmware's configuration handles control requests in it. A reset request sets a flag that ends
  every wait. The theorem: the callback only ever sees command blocks that passed all checks.
\<close>

section \<open>The interface structure\<close>

record MS_Config =
  MS_InterfaceNumber :: u8
  MS_DataINEndpoint :: USB_Endpoint_Table
  MS_DataOUTEndpoint :: USB_Endpoint_Table
  TotalLUNs :: u8

record MS_CommandStatusWrapper =
  csw_Signature :: u32
  csw_Tag :: u32
  csw_DataTransferResidue :: u32
  csw_Status :: u8

record 'w ms = "'w usb" +
  MS_config :: MS_Config
  CommandBlock :: "u8 list"
  CommandStatus :: MS_CommandStatusWrapper
  IsMassStoreReset :: bool

definition sizeof_CommandBlock :: nat where "sizeof_CommandBlock = 31"

definition block_32 :: "u8 list \<Rightarrow> nat \<Rightarrow> u32" where
  "block_32 cb i = of_le32 (cb ! i) (cb ! (i + 1)) (cb ! (i + 2)) (cb ! (i + 3))"

definition cbw_Signature :: "u8 list \<Rightarrow> u32" where "cbw_Signature cb = block_32 cb 0"
definition cbw_Tag :: "u8 list \<Rightarrow> u32" where "cbw_Tag cb = block_32 cb 4"
definition cbw_DataTransferLength :: "u8 list \<Rightarrow> u32" where "cbw_DataTransferLength cb = block_32 cb 8"
definition cbw_Flags :: "u8 list \<Rightarrow> u8" where "cbw_Flags cb = cb ! 12"
definition cbw_LUN :: "u8 list \<Rightarrow> u8" where "cbw_LUN cb = cb ! 13"
definition cbw_SCSICommandLength :: "u8 list \<Rightarrow> u8" where "cbw_SCSICommandLength cb = cb ! 14"

definition MS_CBW_SIGNATURE :: u32 where "MS_CBW_SIGNATURE = 0x43425355"
definition MS_CSW_SIGNATURE :: u32 where "MS_CSW_SIGNATURE = 0x53425355"
definition MS_COMMAND_DIR_DATA_IN :: u8 where "MS_COMMAND_DIR_DATA_IN = bv 7"
definition MS_SCSI_COMMAND_Pass :: u8 where "MS_SCSI_COMMAND_Pass = 0"
definition MS_SCSI_COMMAND_Fail :: u8 where "MS_SCSI_COMMAND_Fail = 1"
definition MS_REQ_GetMaxLUN :: u8 where "MS_REQ_GetMaxLUN = 0xFE"
definition MS_REQ_MassStorageReset :: u8 where "MS_REQ_MassStorageReset = 0xFF"

definition csw_bytes :: "MS_CommandStatusWrapper \<Rightarrow> u8 list" where
  "csw_bytes c = le32 (csw_Signature c) @ le32 (csw_Tag c) @ le32 (csw_DataTransferResidue c) @ [csw_Status c]"

definition set_ms_reset :: "bool \<Rightarrow> (('w, 'z) ms_scheme, unit) prog" where
  "set_ms_reset b = pmod (\<lambda>s. s\<lparr>IsMassStoreReset := b\<rparr>)"

section \<open>Requests and configuration\<close>

definition MS_Device_ProcessControlRequest :: "'w usb_avr \<Rightarrow> (('w, 'z) ms_scheme, unit) prog \<Rightarrow> (('w, 'z) ms_scheme, unit) prog" where
  "MS_Device_ProcessControlRequest E I =
     pif (Endpoint_IsSETUPReceived E)
       (pbind (pget USB_ControlRequest) (\<lambda>r. pbind (pget MS_config) (\<lambda>c.
        let t = bmRequestType r; q = bRequest r in
        if wIndex r \<noteq> ucast (MS_InterfaceNumber c) then ret ()
        else if q = MS_REQ_MassStorageReset then
          pwhen (t = CLASS_HOSTTODEVICE_INTERFACE)
            (pseq [Endpoint_ClearSETUP E, Endpoint_ClearStatusStage E I, set_ms_reset True])
        else if q = MS_REQ_GetMaxLUN then
          pwhen (t = CLASS_DEVICETOHOST_INTERFACE)
            (pseq [Endpoint_ClearSETUP E,
                   pbind (wait_for (polls E) (Endpoint_IsINReady E) (pbind I (\<lambda>_. ret (None :: unit option)))) (\<lambda>_. ret ()),
                   Endpoint_Write_8 E (TotalLUNs c - 1),
                   Endpoint_ClearIN E,
                   Endpoint_ClearStatusStage E I])
        else ret ())))
       (ret ())"

definition ms_typed :: "MS_Config \<Rightarrow> MS_Config" where
  "ms_typed c = c\<lparr>MS_DataINEndpoint := (MS_DataINEndpoint c)\<lparr>ep_Type := EP_TYPE_BULK\<rparr>,
                  MS_DataOUTEndpoint := (MS_DataOUTEndpoint c)\<lparr>ep_Type := EP_TYPE_BULK\<rparr>\<rparr>"

definition MS_Device_ConfigureEndpoints :: "'w usb_avr \<Rightarrow> (('w, 'z) ms_scheme, bool) prog" where
  "MS_Device_ConfigureEndpoints E =
     pbind (pmod (\<lambda>s. s\<lparr>CommandBlock := replicate sizeof_CommandBlock 0,
       CommandStatus := \<lparr>csw_Signature = 0, csw_Tag = 0, csw_DataTransferResidue = 0, csw_Status = 0\<rparr>, IsMassStoreReset := False\<rparr>)) (\<lambda>_.
     pbind (pmod (\<lambda>s. s\<lparr>MS_config := ms_typed (MS_config s)\<rparr>)) (\<lambda>_.
     pbind (pget MS_config) (\<lambda>c.
     pif (Endpoint_ConfigureEndpointTable E [MS_DataINEndpoint c])
       (pif (Endpoint_ConfigureEndpointTable E [MS_DataOUTEndpoint c]) (ret True) (ret False))
       (ret False))))"

section \<open>The command block\<close>

text \<open>\<^verbatim>\<open>while (Endpoint_Read_Stream_LE(...) == ENDPOINT_RWSTREAM_IncompleteTransfer)\<close>; \<open>False\<close> is the return on a reset.\<close>

fun block_loop :: "'w usb_avr \<Rightarrow> (('w, 'z) ms_scheme, unit) prog \<Rightarrow> nat \<Rightarrow> u16 \<Rightarrow> nat \<Rightarrow> u16 \<Rightarrow> (('w, 'z) ms_scheme, bool) prog" where
  "block_loop E I off len 0 BytesProcessed = pfail Diverge"
| "block_loop E I off len (Suc n) BytesProcessed =
     pbind (pget (\<lambda>s. drop off (CommandBlock s))) (\<lambda>buf.
     pbind (Endpoint_Read_Stream_LE E I buf len (Some BytesProcessed)) (\<lambda>(ErrorCode, p, buf).
     pbind (pmod (\<lambda>s. s\<lparr>CommandBlock := overlay (CommandBlock s) off (take (unat len) buf)\<rparr>)) (\<lambda>_.
     if ErrorCode = ENDPOINT_RWSTREAM_IncompleteTransfer then
       pif (pget IsMassStoreReset) (ret False)
         (block_loop E I off len n (case p of None \<Rightarrow> BytesProcessed | Some p \<Rightarrow> p))
     else ret True)))"

definition block_checked :: "MS_Config \<Rightarrow> u8 list \<Rightarrow> bool" where
  "block_checked c cb \<longleftrightarrow>
     \<not> (cbw_Signature cb \<noteq> MS_CBW_SIGNATURE \<or> cbw_LUN cb \<ge> TotalLUNs c \<or> cbw_Flags cb AND 0x1F \<noteq> 0 \<or>
        cbw_SCSICommandLength cb = 0 \<or> cbw_SCSICommandLength cb > 16)"

definition MS_Device_ReadInCommandBlock :: "'w usb_avr \<Rightarrow> (('w, 'z) ms_scheme, unit) prog \<Rightarrow> (('w, 'z) ms_scheme, bool) prog" where
  "MS_Device_ReadInCommandBlock E I =
     pbind (pget MS_config) (\<lambda>c.
     pbind (Endpoint_SelectEndpoint E (ep_Address (MS_DataOUTEndpoint c))) (\<lambda>_.
     pif (block_loop E I 0 (of_nat (sizeof_CommandBlock - 16)) (polls E) 0)
       (pbind (pget CommandBlock) (\<lambda>cb. pbind (pget MS_config) (\<lambda>c.
        if \<not> block_checked c cb then
          pbind (pseq [Endpoint_StallTransaction E,
                       Endpoint_SelectEndpoint E (ep_Address (MS_DataINEndpoint c)),
                       Endpoint_StallTransaction E]) (\<lambda>_. ret False)
        else
          pif (block_loop E I 15 (ucast (cbw_SCSICommandLength cb)) (polls E) 0)
            (pbind (Endpoint_ClearOUT E) (\<lambda>_. ret True))
            (ret False))))
       (ret False)))"

section \<open>The status block and the task\<close>

text \<open>\<^verbatim>\<open>while (Endpoint_IsStalled())\<close>; \<open>False\<close> is the return on a reset.\<close>

fun stall_loop :: "'w usb_avr \<Rightarrow> (('w, 'z) ms_scheme, unit) prog \<Rightarrow> nat \<Rightarrow> (('w, 'z) ms_scheme, bool) prog" where
  "stall_loop E I 0 = pfail Diverge"
| "stall_loop E I (Suc n) =
     pif (Endpoint_IsStalled E) (pbind I (\<lambda>_. pif (pget IsMassStoreReset) (ret False) (stall_loop E I n))) (ret True)"

fun status_loop :: "'w usb_avr \<Rightarrow> (('w, 'z) ms_scheme, unit) prog \<Rightarrow> nat \<Rightarrow> u16 \<Rightarrow> (('w, 'z) ms_scheme, bool) prog" where
  "status_loop E I 0 BytesProcessed = pfail Diverge"
| "status_loop E I (Suc n) BytesProcessed =
     pbind (pget (\<lambda>s. csw_bytes (CommandStatus s))) (\<lambda>buf.
     pbind (Endpoint_Write_Stream_LE E I buf 13 (Some BytesProcessed)) (\<lambda>(ErrorCode, p, _).
     if ErrorCode = ENDPOINT_RWSTREAM_IncompleteTransfer then
       pif (pget IsMassStoreReset) (ret False)
         (status_loop E I n (case p of None \<Rightarrow> BytesProcessed | Some p \<Rightarrow> p))
     else ret True))"

definition MS_Device_ReturnCommandStatus :: "'w usb_avr \<Rightarrow> (('w, 'z) ms_scheme, unit) prog \<Rightarrow> (('w, 'z) ms_scheme, unit) prog" where
  "MS_Device_ReturnCommandStatus E I =
     pbind (pget MS_config) (\<lambda>c.
     pbind (Endpoint_SelectEndpoint E (ep_Address (MS_DataOUTEndpoint c))) (\<lambda>_.
     pif (stall_loop E I (polls E))
       (pbind (Endpoint_SelectEndpoint E (ep_Address (MS_DataINEndpoint c))) (\<lambda>_.
        pif (stall_loop E I (polls E))
          (pif (status_loop E I (polls E) 0) (Endpoint_ClearIN E) (ret ()))
          (ret ())))
       (ret ())))"

definition set_status :: "bool \<Rightarrow> (('w, 'z) ms_scheme, unit) prog" where
  "set_status ok = pmod (\<lambda>s. s\<lparr>CommandStatus := \<lparr>csw_Signature = MS_CSW_SIGNATURE, csw_Tag = cbw_Tag (CommandBlock s),
     csw_DataTransferResidue = cbw_DataTransferLength (CommandBlock s),
     csw_Status = (if ok then MS_SCSI_COMMAND_Pass else MS_SCSI_COMMAND_Fail)\<rparr>\<rparr>)"

definition run_command :: "'w usb_avr \<Rightarrow> (('w, 'z) ms_scheme, unit) prog \<Rightarrow> (('w, 'z) ms_scheme, bool) prog \<Rightarrow> (('w, 'z) ms_scheme, unit) prog" where
  "run_command E I scsi =
     pbind (pget MS_config) (\<lambda>c.
     pbind (pget CommandBlock) (\<lambda>cb.
     pbind (pwhen (cbw_Flags cb AND MS_COMMAND_DIR_DATA_IN \<noteq> 0) (Endpoint_SelectEndpoint E (ep_Address (MS_DataINEndpoint c)))) (\<lambda>_.
     pbind scsi (\<lambda>SCSICommandResult.
     pseq [set_status SCSICommandResult,
           pbind (pget (\<lambda>s. csw_DataTransferResidue (CommandStatus s))) (\<lambda>residue.
           pwhen (\<not> SCSICommandResult \<and> residue \<noteq> 0) (Endpoint_StallTransaction E)),
           MS_Device_ReturnCommandStatus E I]))))"

definition ms_reset_endpoints :: "'w usb_avr \<Rightarrow> MS_Config \<Rightarrow> (('w, 'z) ms_scheme, unit) prog" where
  "ms_reset_endpoints E c =
     pseq [Endpoint_ResetEndpoint E (ep_Address (MS_DataOUTEndpoint c)),
           Endpoint_ResetEndpoint E (ep_Address (MS_DataINEndpoint c)),
           Endpoint_SelectEndpoint E (ep_Address (MS_DataOUTEndpoint c)),
           Endpoint_ClearStall E, Endpoint_ResetDataToggle E,
           Endpoint_SelectEndpoint E (ep_Address (MS_DataINEndpoint c)),
           Endpoint_ClearStall E, Endpoint_ResetDataToggle E,
           set_ms_reset False]"

definition MS_Device_USBTask :: "'w usb_avr \<Rightarrow> (('w, 'z) ms_scheme, unit) prog \<Rightarrow> (('w, 'z) ms_scheme, bool) prog \<Rightarrow> (('w, 'z) ms_scheme, unit) prog" where
  "MS_Device_USBTask E I scsi =
     pif (pget (\<lambda>s. USB_DeviceState s \<noteq> DEVICE_STATE_Configured)) (ret ())
     (pbind (pget MS_config) (\<lambda>c.
      pseq [Endpoint_SelectEndpoint E (ep_Address (MS_DataOUTEndpoint c)),
            pif (Endpoint_IsOUTReceived E)
              (pif (MS_Device_ReadInCommandBlock E I) (run_command E I scsi) (ret ()))
              (ret ()),
            pbind (pget MS_config) (\<lambda>c. pif (pget IsMassStoreReset) (ms_reset_endpoints E c) (ret ()))]))"

section \<open>Only checked blocks are run\<close>

context bus_invariant
begin

lemma k_read_byte [keeps_intros]: "keeps P (read_byte E i buf)"
  unfolding read_byte_def by (intro keeps_intros)

lemma k_stream_loop:
  assumes "keeps P I" "keeps P clr" "\<And>i buf. keeps P (xfer i buf)"
  shows "keeps P (stream_loop E I clr step xfer n buf i len t p)"
proof (induction n arbitrary: buf i len t p)
  case (Suc n)
  show ?case unfolding stream_loop.simps by (intro keeps_intros assms Suc.IH)
qed (simp add: keeps_intros)

lemma k_streams [keeps_intros]:
  assumes "keeps P I"
  shows "keeps P (Endpoint_Read_Stream_LE E I buf len p)" "keeps P (Endpoint_Write_Stream_LE E I buf len p)"
  unfolding Endpoint_Read_Stream_LE_def Endpoint_Write_Stream_LE_def Template_Endpoint_RW_def
  by (intro keeps_intros k_stream_loop assms)+

end

text \<open>The configuration, and the first fifteen bytes of the command block.\<close>

definition ms_fixed :: "MS_Config \<Rightarrow> u8 list \<Rightarrow> ('w, 'z) ms_scheme \<Rightarrow> bool" where
  "ms_fixed c h s \<longleftrightarrow> MS_config s = c \<and> length h = 15 \<and> take 15 (CommandBlock s) = h"

interpretation ms: bus_invariant "ms_fixed c h"
  by unfold_locales (simp_all add: ms_fixed_def)

lemma keeps_block_loop:
  assumes "keeps (ms_fixed c h) I"
  shows "keeps (ms_fixed c h) (block_loop E I 15 len n p)"
proof (induction n arbitrary: p)
  case (Suc n)
  have "keeps (ms_fixed c h) (pmod (\<lambda>s. s\<lparr>CommandBlock := overlay (CommandBlock s) 15 xs\<rparr>))" for xs
    by (rule keeps_pmod) (auto simp: ms_fixed_def overlay_def)
  then show ?case unfolding block_loop.simps by (intro keeps_intros ms.k_streams assms Suc.IH)
qed (simp add: keeps_intros)

lemma checked_header:
  assumes "ms_fixed c h s" and "ms_fixed c h t" and "block_checked c (CommandBlock s)"
  shows "block_checked c (CommandBlock t)"
proof -
  have "CommandBlock t ! i = CommandBlock s ! i" if "i < 15" for i
    using assms(1,2) that unfolding ms_fixed_def by (metis nth_take)
  then show ?thesis
    using assms(3) by (simp add: block_checked_def cbw_Signature_def cbw_LUN_def cbw_Flags_def cbw_SCSICommandLength_def block_32_def)
qed

definition ms_sized :: "('w, 'z) ms_scheme \<Rightarrow> bool" where
  "ms_sized s \<longleftrightarrow> length (CommandBlock s) = sizeof_CommandBlock"

interpretation ms_size: bus_invariant ms_sized
  by unfold_locales (simp_all add: ms_sized_def)

text \<open>Interrupts that leave the configuration and the command block alone, as the requests of this class do.\<close>

definition ms_quiet :: "(('w, 'z) ms_scheme, unit) prog \<Rightarrow> bool" where
  "ms_quiet I \<longleftrightarrow> keeps ms_sized I \<and> (\<forall>c h. keeps (ms_fixed c h) I)"

lemma sized_block_loop:
  assumes "keeps ms_sized I" and "off + unat len \<le> sizeof_CommandBlock"
  shows "keeps ms_sized (block_loop E I off len n p)"
proof (induction n arbitrary: p)
  case (Suc n)
  have "keeps ms_sized (pmod (\<lambda>s. s\<lparr>CommandBlock := overlay (CommandBlock s) off (take (unat len) xs)\<rparr>))" for xs
    by (rule keeps_pmod) (use assms(2) in \<open>auto simp: ms_sized_def overlay_def\<close>)
  then show ?case unfolding block_loop.simps by (intro keeps_intros ms_size.k_streams assms(1) Suc.IH)
qed (simp add: keeps_intros)

lemma read_checked:
  assumes q: "ms_quiet I" and s: "ms_sized s" and run: "MS_Device_ReadInCommandBlock E I s = Ok (True, t)"
  shows "block_checked (MS_config t) (CommandBlock t)"
proof -
  obtain u v x where u: "Endpoint_SelectEndpoint E (ep_Address (MS_DataOUTEndpoint (MS_config s))) s = Ok ((), u)"
      and v: "block_loop E I 0 (of_nat (sizeof_CommandBlock - 16)) (polls E) 0 u = Ok (True, v)"
      and chk: "block_checked (MS_config v) (CommandBlock v)"
      and x: "block_loop E I 15 (ucast (cbw_SCSICommandLength (CommandBlock v))) (polls E) 0 v = Ok (True, x)"
      and t: "Endpoint_ClearOUT E x = Ok ((), t)"
    using run unfolding MS_Device_ReadInCommandBlock_def
    by (auto simp: pbind_Ok_iff pif_def pget_def ret_def split: if_splits)
  have "ms_sized u" using keepsD [OF ms_size.k_endpoint(4) u s] .
  then have sz: "ms_sized v"
    using keepsD [OF sized_block_loop v] q by (simp add: ms_quiet_def sizeof_CommandBlock_def)
  define h where "h = take 15 (CommandBlock v)"
  have fv: "ms_fixed (MS_config v) h v" using sz by (simp add: ms_fixed_def h_def ms_sized_def sizeof_CommandBlock_def)
  have "keeps (ms_fixed (MS_config v) h) I" using q by (simp add: ms_quiet_def)
  from keepsD [OF keeps_block_loop [OF this] x fv] have "ms_fixed (MS_config v) h x" .
  from keepsD [OF ms.k_endpoint(16) t this] have ft: "ms_fixed (MS_config v) h t" .
  then show ?thesis using checked_header [OF fv ft chk] by (simp add: ms_fixed_def)
qed

definition guarded :: "fault \<Rightarrow> (('w, 'z) ms_scheme, bool) prog \<Rightarrow> (('w, 'z) ms_scheme, bool) prog" where
  "guarded e scsi = pif (pget (\<lambda>s. block_checked (MS_config s) (CommandBlock s))) scsi (pfail e)"

lemma run_guarded:
  assumes "block_checked (MS_config s) (CommandBlock s)"
  shows "run_command E I (guarded e scsi) s = run_command E I scsi s"
  using assms by (simp add: run_command_def guarded_def Endpoint_SelectEndpoint_def reg_wr_def prog_simps)

text \<open>The class requests of the driver are such interrupts.\<close>

lemma quiet_requests:
  assumes "ms_quiet I"
  shows "ms_quiet (MS_Device_ProcessControlRequest E I)"
proof -
  have r: "keeps ms_sized (set_ms_reset b)" "keeps (ms_fixed c h) (set_ms_reset b)" for b c h
    by (auto simp: set_ms_reset_def ms_sized_def ms_fixed_def intro: keeps_pmod)
  have "keeps ms_sized I" "keeps (ms_fixed c h) I" for c h using assms by (auto simp: ms_quiet_def)
  then show ?thesis
    unfolding ms_quiet_def MS_Device_ProcessControlRequest_def
    by (intro conjI allI keeps_intros r ms.k_endpoint ms_size.k_endpoint ms.k_ClearStatusStage ms_size.k_ClearStatusStage)
qed

lemma quiet_ret: "ms_quiet (ret ())"
  by (simp add: ms_quiet_def keeps_ret)

text \<open>C15: the SCSI callback of the mass storage driver only ever runs on command blocks that passed every check of the driver (signature, unit,
  flags, length of the command): whatever the host sends, the task behaves as if the callback failed on all others.\<close>

theorem scsi_only_checked:
  assumes "ms_quiet I" and "ms_sized s"
  shows "MS_Device_USBTask E I scsi s = MS_Device_USBTask E I (guarded e scsi) s"
proof -
  have "pif (MS_Device_ReadInCommandBlock E I) (run_command E I scsi) (ret ()) u =
      pif (MS_Device_ReadInCommandBlock E I) (run_command E I (guarded e scsi)) (ret ()) u" if "ms_sized u" for u
    by (auto simp: pif_def pbind_def run_guarded [OF read_checked [OF assms(1) that]] split: result.splits prod.splits)
  moreover have "ms_sized u" if "Endpoint_SelectEndpoint E a s = Ok ((), v)" "Endpoint_IsOUTReceived E v = Ok (b, u)" for a u v b
    using keepsD [OF ms_size.k_endpoint(12) that(2)] keepsD [OF ms_size.k_endpoint(4) that(1) assms(2)] by blast
  ultimately show ?thesis
    unfolding MS_Device_USBTask_def
    by (auto simp: pif_def [of "pget _"] pif_def [of "Endpoint_IsOUTReceived _"] pbind_def pget_def ret_def split: result.splits prod.splits)
qed

definition ms_start :: "'w \<Rightarrow> 'w ms" where
  "ms_start w = \<lparr>world = w, USB_IsInitialized = True, USB_DeviceState = DEVICE_STATE_Configured,
     USB_ControlRequest = \<lparr>bmRequestType = 0, bRequest = 0, wValue = 0, wIndex = 0, wLength = 0\<rparr>,
     USB_Device_ConfigurationNumber = 1, USB_Device_CurrentlySelfPowered = False, USB_Device_RemoteWakeupEnabled = False,
     MS_config = \<lparr>MS_InterfaceNumber = 0,
       MS_DataINEndpoint = \<lparr>ep_Address = 0x83, ep_Size = 64, ep_Type = EP_TYPE_BULK, ep_Banks = 1\<rparr>,
       MS_DataOUTEndpoint = \<lparr>ep_Address = 0x04, ep_Size = 64, ep_Type = EP_TYPE_BULK, ep_Banks = 1\<rparr>, TotalLUNs = 1\<rparr>,
     CommandBlock = replicate sizeof_CommandBlock 0,
     CommandStatus = \<lparr>csw_Signature = 0, csw_Tag = 0, csw_DataTransferResidue = 0, csw_Status = 0\<rparr>, IsMassStoreReset = False\<rparr>"

theorem scsi_only_checked_witness:
  "\<forall>E w. MS_Device_USBTask E (MS_Device_ProcessControlRequest E (ret ())) (\<lambda>s. Ok (True, s)) (ms_start w) =
     MS_Device_USBTask E (MS_Device_ProcessControlRequest E (ret ())) (guarded Assert_Failed (\<lambda>s. Ok (True, s))) (ms_start w)"
  by (intro allI scsi_only_checked quiet_requests quiet_ret) (simp add: ms_sized_def ms_start_def)

end
