(* ===== verification/Midi_Device.thy ===== *)
theory Midi_Device
  imports Bulk_Link
begin

text \<open>
  The MIDI class driver of LUFA in device mode, \<^verbatim>\<open>USB/Class/Device/MIDIClassDevice.c\<close>: configuration, task, and event packets of
  four bytes in both directions. On every link that behaves as the data sheet says, events are sent complete and in order, and
  after the task nothing waits in the bank.
\<close>

section \<open>The driver\<close>

record MIDI_Config =
  StreamingInterfaceNumber :: u8
  MIDI_DataINEndpoint :: USB_Endpoint_Table
  MIDI_DataOUTEndpoint :: USB_Endpoint_Table

record 'w midi = "'w usb" +
  MIDI_config :: MIDI_Config

record MIDI_EventPacket =
  Event :: u8
  Data1 :: u8
  Data2 :: u8
  Data3 :: u8

definition event_bytes :: "MIDI_EventPacket \<Rightarrow> u8 list" where
  "event_bytes e = [Event e, Data1 e, Data2 e, Data3 e]"

definition event_of_bytes :: "u8 list \<Rightarrow> MIDI_EventPacket" where
  "event_of_bytes b = \<lparr>Event = b ! 0, Data1 = b ! 1, Data2 = b ! 2, Data3 = b ! 3\<rparr>"

definition MIDI_Device_ConfigureEndpoints :: "'w usb_avr \<Rightarrow> (('w, 'z) midi_scheme, bool) prog" where
  "MIDI_Device_ConfigureEndpoints E =
     pbind (pmod (\<lambda>s. s\<lparr>MIDI_config := (MIDI_config s)\<lparr>
       MIDI_DataINEndpoint := (MIDI_DataINEndpoint (MIDI_config s))\<lparr>ep_Type := EP_TYPE_BULK\<rparr>,
       MIDI_DataOUTEndpoint := (MIDI_DataOUTEndpoint (MIDI_config s))\<lparr>ep_Type := EP_TYPE_BULK\<rparr>\<rparr>\<rparr>)) (\<lambda>_.
     pbind (pget MIDI_config) (\<lambda>c.
     pif (Endpoint_ConfigureEndpointTable E [MIDI_DataINEndpoint c])
       (pif (Endpoint_ConfigureEndpointTable E [MIDI_DataOUTEndpoint c]) (ret True) (ret False))
       (ret False)))"

definition midi_closed :: "('w, 'z) midi_scheme \<Rightarrow> bool" where
  "midi_closed s \<longleftrightarrow> USB_DeviceState s \<noteq> DEVICE_STATE_Configured"

definition MIDI_Device_Flush :: "'w usb_avr \<Rightarrow> (('w, 'z) midi_scheme, unit) prog \<Rightarrow> (('w, 'z) midi_scheme, u8) prog" where
  "MIDI_Device_Flush E I =
     pif (pget midi_closed) (ret ENDPOINT_RWSTREAM_DeviceDisconnected)
     (pbind (pget MIDI_config) (\<lambda>c.
      pbind (Endpoint_SelectEndpoint E (ep_Address (MIDI_DataINEndpoint c))) (\<lambda>_.
      pbind (Endpoint_BytesInEndpoint E) (\<lambda>b.
      if b \<noteq> 0 then
        pbind (Endpoint_ClearIN E) (\<lambda>_.
        pbind (Endpoint_WaitUntilReady E I) (\<lambda>ErrorCode.
        if ErrorCode \<noteq> ENDPOINT_READYWAIT_NoError then ret ErrorCode else ret ENDPOINT_READYWAIT_NoError))
      else ret ENDPOINT_READYWAIT_NoError))))"

definition MIDI_Device_USBTask :: "'w usb_avr \<Rightarrow> (('w, 'z) midi_scheme, unit) prog \<Rightarrow> (('w, 'z) midi_scheme, unit) prog" where
  "MIDI_Device_USBTask E I =
     pif (pget midi_closed) (ret ())
     (pbind (pget MIDI_config) (\<lambda>c.
      pbind (Endpoint_SelectEndpoint E (ep_Address (MIDI_DataINEndpoint c))) (\<lambda>_.
      pif (Endpoint_IsINReady E) (pbind (MIDI_Device_Flush E I) (\<lambda>_. ret ())) (ret ()))))"

definition MIDI_Device_SendEventPacket :: "'w usb_avr \<Rightarrow> (('w, 'z) midi_scheme, unit) prog \<Rightarrow> MIDI_EventPacket \<Rightarrow> (('w, 'z) midi_scheme, u8) prog" where
  "MIDI_Device_SendEventPacket E I e =
     pif (pget midi_closed) (ret ENDPOINT_RWSTREAM_DeviceDisconnected)
     (pbind (pget MIDI_config) (\<lambda>c.
      pbind (Endpoint_SelectEndpoint E (ep_Address (MIDI_DataINEndpoint c))) (\<lambda>_.
      pbind (Endpoint_Write_Stream_LE E I (event_bytes e) 4 None) (\<lambda>(ErrorCode, _).
      if ErrorCode \<noteq> ENDPOINT_RWSTREAM_NoError then ret ErrorCode
      else
        pbind (pif (Endpoint_IsReadWriteAllowed E) (ret ()) (Endpoint_ClearIN E)) (\<lambda>_. ret ENDPOINT_RWSTREAM_NoError)))))"

text \<open>\<open>None\<close> for \<^verbatim>\<open>false\<close>; the event is written even where the stream returns an error, which the source does not look at.\<close>

definition MIDI_Device_ReceiveEventPacket ::
    "'w usb_avr \<Rightarrow> (('w, 'z) midi_scheme, unit) prog \<Rightarrow> MIDI_EventPacket \<Rightarrow> (('w, 'z) midi_scheme, MIDI_EventPacket option) prog" where
  "MIDI_Device_ReceiveEventPacket E I e =
     pif (pget midi_closed) (ret None)
     (pbind (pget MIDI_config) (\<lambda>c.
      pbind (Endpoint_SelectEndpoint E (ep_Address (MIDI_DataOUTEndpoint c))) (\<lambda>_.
      pif (Endpoint_IsOUTReceived E)
        (pif (Endpoint_IsReadWriteAllowed E)
           (pbind (Endpoint_Read_Stream_LE E I (event_bytes e) 4 None) (\<lambda>(_, _, buf).
            pbind (pif (Endpoint_IsReadWriteAllowed E) (ret ()) (Endpoint_ClearOUT E)) (\<lambda>_.
            ret (Some (event_of_bytes buf)))))
           (ret None))
        (ret None))))"

section \<open>Events reach the host\<close>

definition midi_ok :: "'w usb_avr \<Rightarrow> ('w \<Rightarrow> link) \<Rightarrow> u8 \<Rightarrow> ('w, 'z) midi_scheme \<Rightarrow> bool" where
  "midi_ok E V tx s \<longleftrightarrow> link_reads E V \<and> link_in E V tx \<and> 2 \<le> polls E \<and> \<not> midi_closed s \<and>
     ep_Address (MIDI_DataINEndpoint (MIDI_config s)) AND ENDPOINT_EPNUM_MASK = tx \<and> length (bank_in (V (world s))) \<le> 16"

lemma midi_ok_world: "midi_ok E V tx s \<Longrightarrow> length (bank_in (V w)) \<le> 16 \<Longrightarrow> midi_ok E V tx (s\<lparr>world := w\<rparr>)"
  by (simp add: midi_ok_def midi_closed_def)

lemma SendEventPacket_runs:
  assumes k: "midi_ok E V tx s"
  shows "\<exists>s'. MIDI_Device_SendEventPacket E I e s = Ok (ENDPOINT_RWSTREAM_NoError, s') \<and> midi_ok E V tx s' \<and>
    written (V (world s')) = written (V (world s)) @ event_bytes e"
proof -
  have r: "link_reads E V" and i: "link_in E V tx" and fuel: "2 \<le> polls E" and cl: "\<not> midi_closed s"
    and ad: "ep_Address (MIDI_DataINEndpoint (MIDI_config s)) AND ENDPOINT_EPNUM_MASK = tx" and b: "length (bank_in (V (world s))) \<le> 16"
    using k by (auto simp: midi_ok_def)
  obtain w1 where w1: "Endpoint_SelectEndpoint E (ep_Address (MIDI_DataINEndpoint (MIDI_config s))) s = Ok ((), s\<lparr>world := w1\<rparr>)"
      "V w1 = (V (world s))\<lparr>sel := tx\<rparr>"
    using link_select [OF r, of _ s] ad by metis
  obtain w2 where w2: "Endpoint_Write_Stream_LE E I (event_bytes e) 4 None (s\<lparr>world := w1\<rparr>) = Ok ((ENDPOINT_RWSTREAM_NoError, None, event_bytes e), s\<lparr>world := w2\<rparr>)"
      "sel (V w2) = tx" "length (bank_in (V w2)) \<le> 16" "written (V w2) = written (V (world s)) @ event_bytes e"
    using write_stream_body [OF r i, of "s\<lparr>world := w1\<rparr>" 4 "event_bytes e" I] w1(2) b fuel by (auto simp: event_bytes_def written_def)
  obtain w3 where w3: "Endpoint_IsReadWriteAllowed E (s\<lparr>world := w2\<rparr>) = Ok (length (bank_in (V w2)) < 16, s\<lparr>world := w3\<rparr>)" "V w3 = V w2"
    using link_in_runs(1) [OF r i, of "s\<lparr>world := w2\<rparr>"] w2(2) by auto
  obtain w4 where w4: "Endpoint_ClearIN E (s\<lparr>world := w3\<rparr>) = Ok ((), s\<lparr>world := w4\<rparr>)"
      "V w4 = (V w2)\<lparr>released := released (V w2) @ [bank_in (V w2)], bank_in := []\<rparr>"
    using link_in_runs(4) [OF r i, of "s\<lparr>world := w3\<rparr>"] w2(2) w3(2) by auto
  define w where "w = (if length (bank_in (V w2)) < 16 then w3 else w4)"
  have "MIDI_Device_SendEventPacket E I e s = Ok (ENDPOINT_RWSTREAM_NoError, s\<lparr>world := w\<rparr>)"
    using w1(1) w2(1) w3(1) w4(1) cl by (simp add: MIDI_Device_SendEventPacket_def prog_simps w_def)
  moreover have "written (V w) = written (V w2)" "length (bank_in (V w)) \<le> 16"
    using w2(3) w3(2) w4(2) by (auto simp: w_def written_def)
  ultimately show ?thesis using w2(4) midi_ok_world [OF k] by auto
qed

fun send_events :: "'w usb_avr \<Rightarrow> (('w, 'z) midi_scheme, unit) prog \<Rightarrow> MIDI_EventPacket list \<Rightarrow> (('w, 'z) midi_scheme, unit) prog" where
  "send_events E I [] = MIDI_Device_USBTask E I"
| "send_events E I (e # es) =
     pbind (MIDI_Device_SendEventPacket E I e) (\<lambda>c. if c \<noteq> ENDPOINT_RWSTREAM_NoError then ret () else send_events E I es)"

lemma midi_task_runs:
  assumes k: "midi_ok E V tx s"
  shows "\<exists>s'. MIDI_Device_USBTask E I s = Ok ((), s') \<and> concat (released (V (world s'))) = written (V (world s))"
proof -
  have r: "link_reads E V" and i: "link_in E V tx" and fuel: "0 < polls E" and cl: "\<not> midi_closed s"
    and ad: "ep_Address (MIDI_DataINEndpoint (MIDI_config s)) AND ENDPOINT_EPNUM_MASK = tx" and b: "length (bank_in (V (world s))) \<le> 16"
    using k by (auto simp: midi_ok_def)
  let ?v = "(V (world s))\<lparr>sel := tx\<rparr>" and ?n = "length (bank_in (V (world s)))"
  have select: "\<exists>w'. Endpoint_SelectEndpoint E (ep_Address (MIDI_DataINEndpoint (MIDI_config s))) (s\<lparr>world := w\<rparr>) = Ok ((), s\<lparr>world := w'\<rparr>) \<and>
      V w' = (V w)\<lparr>sel := tx\<rparr>" for w
    using link_select [OF r, of _ "s\<lparr>world := w\<rparr>"] ad by fastforce
  obtain w1 where w1: "Endpoint_SelectEndpoint E (ep_Address (MIDI_DataINEndpoint (MIDI_config s))) s = Ok ((), s\<lparr>world := w1\<rparr>)" "V w1 = ?v"
    using select [of "world s"] by auto
  obtain w2 where w2: "Endpoint_IsINReady E (s\<lparr>world := w1\<rparr>) = Ok (True, s\<lparr>world := w2\<rparr>)" "V w2 = ?v"
    using link_in_runs(2) [OF r i, of "s\<lparr>world := w1\<rparr>"] w1(2) by auto
  obtain w3 where w3: "Endpoint_SelectEndpoint E (ep_Address (MIDI_DataINEndpoint (MIDI_config s))) (s\<lparr>world := w2\<rparr>) = Ok ((), s\<lparr>world := w3\<rparr>)"
      "V w3 = ?v"
    using select [of w2] w2(2) by auto
  have "fst (rd E UEBCLX (snd (rd E UEBCHX w3))) = of_nat ?n"
    using in_simps(4) [OF i, of "snd (rd E UEBCHX w3)"] w3(2) reads_simps(2) [OF r] by simp
  then obtain w4 where w4: "Endpoint_BytesInEndpoint E (s\<lparr>world := w3\<rparr>) = Ok (of_nat ?n, s\<lparr>world := w4\<rparr>)" "V w4 = ?v"
    using link_count [OF r, of "s\<lparr>world := w3\<rparr>" ?n] w3(2) b by auto
  obtain w5 where w5: "Endpoint_ClearIN E (s\<lparr>world := w4\<rparr>) = Ok ((), s\<lparr>world := w5\<rparr>)"
      "V w5 = ?v\<lparr>released := released ?v @ [bank_in ?v], bank_in := []\<rparr>"
    using link_in_runs(4) [OF r i, of "s\<lparr>world := w4\<rparr>"] w4(2) by auto
  obtain w6 where w6: "Endpoint_WaitUntilReady E I (s\<lparr>world := w5\<rparr>) = Ok (ENDPOINT_READYWAIT_NoError, s\<lparr>world := w6\<rparr>)" "V w6 = V w5"
    using link_wait [OF r i _ fuel, of "s\<lparr>world := w5\<rparr>" I] w5(2) by auto
  have cl2: "\<not> midi_closed (s\<lparr>world := w2\<rparr>)" using cl by (simp add: midi_closed_def)
  note run = MIDI_Device_USBTask_def MIDI_Device_Flush_def prog_simps
  show ?thesis
  proof (cases "bank_in (V (world s)) = []")
    case True
    then show ?thesis using w1(1) w2(1) w3(1) w4 cl cl2 by (intro exI [of _ "s\<lparr>world := w4\<rparr>"]) (simp add: run written_def)
  next
    case False
    then have "(of_nat ?n :: u16) \<noteq> 0" using count_zero [OF b] by simp
    then show ?thesis using w1(1) w2(1) w3(1) w4(1) w5 w6 cl cl2 by (intro exI [of _ "s\<lparr>world := w6\<rparr>"]) (simp add: run written_def)
  qed
qed

text \<open>Every list of events that is sent, followed by the task, reaches the host complete and in order.\<close>

theorem midi_events_delivered:
  "midi_ok E V tx s \<Longrightarrow> \<exists>s'. send_events E I es s = Ok ((), s') \<and>
     concat (released (V (world s'))) = written (V (world s)) @ concat (map event_bytes es)"
proof (induction es arbitrary: s)
  case Nil
  then show ?case using midi_task_runs [OF Nil] by simp
next
  case (Cons e es)
  obtain s1 where s1: "MIDI_Device_SendEventPacket E I e s = Ok (ENDPOINT_RWSTREAM_NoError, s1)" "midi_ok E V tx s1"
      "written (V (world s1)) = written (V (world s)) @ event_bytes e"
    using SendEventPacket_runs [OF Cons.prems] by blast
  with Cons.IH [OF s1(2)] show ?case by (auto simp: prog_simps)
qed

end
