(* ===== verification/Rndis_Message.thy ===== *)
theory Rndis_Message
  imports Usb_Controller
begin

text \<open>
  The RNDIS messages of LUFA's network class driver, the part of \<^verbatim>\<open>USB/Class/Device/RNDISClassDevice.c\<close> that works on the message
  buffer: \<^verbatim>\<open>RNDIS_Device_ProcessRNDISControlMessage\<close> with the queries and the settings, which turn the message in the buffer into the
  response in the same buffer. The packed structures of \<^verbatim>\<open>RNDISClassCommon.h\<close> are 32-bit fields at fixed offsets, and an access
  outside the buffer is a fault. The theorems: which messages make the code leave the buffer, and the round trip of the packet filter.
\<close>

section \<open>Structures and constants\<close>

record RNDIS_State =
  ResponseReady :: bool
  CurrRNDISState :: u8
  CurrPacketFilter :: u32

definition RNDIS_Uninitialized :: u8 where "RNDIS_Uninitialized = 0"
definition RNDIS_Initialized :: u8 where "RNDIS_Initialized = 1"
definition RNDIS_Data_Initialized :: u8 where "RNDIS_Data_Initialized = 2"

definition REMOTE_NDIS_PACKET_MSG :: u32 where "REMOTE_NDIS_PACKET_MSG = 1"
definition REMOTE_NDIS_INITIALIZE_MSG :: u32 where "REMOTE_NDIS_INITIALIZE_MSG = 2"
definition REMOTE_NDIS_HALT_MSG :: u32 where "REMOTE_NDIS_HALT_MSG = 3"
definition REMOTE_NDIS_QUERY_MSG :: u32 where "REMOTE_NDIS_QUERY_MSG = 4"
definition REMOTE_NDIS_SET_MSG :: u32 where "REMOTE_NDIS_SET_MSG = 5"
definition REMOTE_NDIS_RESET_MSG :: u32 where "REMOTE_NDIS_RESET_MSG = 6"
definition REMOTE_NDIS_KEEPALIVE_MSG :: u32 where "REMOTE_NDIS_KEEPALIVE_MSG = 8"

definition REMOTE_NDIS_INITIALIZE_CMPLT :: u32 where "REMOTE_NDIS_INITIALIZE_CMPLT = 0x80000002"
definition REMOTE_NDIS_QUERY_CMPLT :: u32 where "REMOTE_NDIS_QUERY_CMPLT = 0x80000004"
definition REMOTE_NDIS_SET_CMPLT :: u32 where "REMOTE_NDIS_SET_CMPLT = 0x80000005"
definition REMOTE_NDIS_RESET_CMPLT :: u32 where "REMOTE_NDIS_RESET_CMPLT = 0x80000006"
definition REMOTE_NDIS_KEEPALIVE_CMPLT :: u32 where "REMOTE_NDIS_KEEPALIVE_CMPLT = 0x80000008"

definition REMOTE_NDIS_STATUS_SUCCESS :: u32 where "REMOTE_NDIS_STATUS_SUCCESS = 0"
definition REMOTE_NDIS_STATUS_NOT_SUPPORTED :: u32 where "REMOTE_NDIS_STATUS_NOT_SUPPORTED = 0xC00000BB"
definition REMOTE_NDIS_MEDIA_STATE_CONNECTED :: u32 where "REMOTE_NDIS_MEDIA_STATE_CONNECTED = 0"
definition REMOTE_NDIS_MEDIUM_802_3 :: u32 where "REMOTE_NDIS_MEDIUM_802_3 = 0"
definition REMOTE_NDIS_DF_CONNECTIONLESS :: u32 where "REMOTE_NDIS_DF_CONNECTIONLESS = 1"
definition REMOTE_NDIS_VERSION_MAJOR :: u32 where "REMOTE_NDIS_VERSION_MAJOR = 1"
definition REMOTE_NDIS_VERSION_MINOR :: u32 where "REMOTE_NDIS_VERSION_MINOR = 0"
definition NDIS_HardwareStatus_Ready :: u32 where "NDIS_HardwareStatus_Ready = 0"
definition ETHERNET_FRAME_SIZE_MAX :: nat where "ETHERNET_FRAME_SIZE_MAX = 1500"

text \<open>The sizes of the packed structures.\<close>

definition sizeof_Message_Header :: nat where "sizeof_Message_Header = 8"
definition sizeof_Packet_Message :: nat where "sizeof_Packet_Message = 44"
definition sizeof_Initialize_Complete :: nat where "sizeof_Initialize_Complete = 52"
definition sizeof_Query_Complete :: nat where "sizeof_Query_Complete = 24"
definition sizeof_Set_Complete :: nat where "sizeof_Set_Complete = 16"
definition sizeof_Reset_Complete :: nat where "sizeof_Reset_Complete = 16"
definition sizeof_KeepAlive_Complete :: nat where "sizeof_KeepAlive_Complete = 16"

definition OID_GEN_SUPPORTED_LIST :: u32 where "OID_GEN_SUPPORTED_LIST = 0x00010101"
definition OID_GEN_HARDWARE_STATUS :: u32 where "OID_GEN_HARDWARE_STATUS = 0x00010102"
definition OID_GEN_MEDIA_SUPPORTED :: u32 where "OID_GEN_MEDIA_SUPPORTED = 0x00010103"
definition OID_GEN_MEDIA_IN_USE :: u32 where "OID_GEN_MEDIA_IN_USE = 0x00010104"
definition OID_GEN_MAXIMUM_FRAME_SIZE :: u32 where "OID_GEN_MAXIMUM_FRAME_SIZE = 0x00010106"
definition OID_GEN_LINK_SPEED :: u32 where "OID_GEN_LINK_SPEED = 0x00010107"
definition OID_GEN_TRANSMIT_BLOCK_SIZE :: u32 where "OID_GEN_TRANSMIT_BLOCK_SIZE = 0x0001010A"
definition OID_GEN_RECEIVE_BLOCK_SIZE :: u32 where "OID_GEN_RECEIVE_BLOCK_SIZE = 0x0001010B"
definition OID_GEN_VENDOR_ID :: u32 where "OID_GEN_VENDOR_ID = 0x0001010C"
definition OID_GEN_VENDOR_DESCRIPTION :: u32 where "OID_GEN_VENDOR_DESCRIPTION = 0x0001010D"
definition OID_GEN_CURRENT_PACKET_FILTER :: u32 where "OID_GEN_CURRENT_PACKET_FILTER = 0x0001010E"
definition OID_GEN_MAXIMUM_TOTAL_SIZE :: u32 where "OID_GEN_MAXIMUM_TOTAL_SIZE = 0x00010111"
definition OID_GEN_MEDIA_CONNECT_STATUS :: u32 where "OID_GEN_MEDIA_CONNECT_STATUS = 0x00010114"
definition OID_GEN_PHYSICAL_MEDIUM :: u32 where "OID_GEN_PHYSICAL_MEDIUM = 0x00010202"
definition OID_GEN_XMIT_OK :: u32 where "OID_GEN_XMIT_OK = 0x00020101"
definition OID_GEN_RCV_OK :: u32 where "OID_GEN_RCV_OK = 0x00020102"
definition OID_GEN_XMIT_ERROR :: u32 where "OID_GEN_XMIT_ERROR = 0x00020103"
definition OID_GEN_RCV_ERROR :: u32 where "OID_GEN_RCV_ERROR = 0x00020104"
definition OID_GEN_RCV_NO_BUFFER :: u32 where "OID_GEN_RCV_NO_BUFFER = 0x00020105"
definition OID_802_3_PERMANENT_ADDRESS :: u32 where "OID_802_3_PERMANENT_ADDRESS = 0x01010101"
definition OID_802_3_CURRENT_ADDRESS :: u32 where "OID_802_3_CURRENT_ADDRESS = 0x01010102"
definition OID_802_3_MULTICAST_LIST :: u32 where "OID_802_3_MULTICAST_LIST = 0x01010103"
definition OID_802_3_MAXIMUM_LIST_SIZE :: u32 where "OID_802_3_MAXIMUM_LIST_SIZE = 0x01010104"
definition OID_802_3_RCV_ERROR_ALIGNMENT :: u32 where "OID_802_3_RCV_ERROR_ALIGNMENT = 0x01020101"
definition OID_802_3_XMIT_ONE_COLLISION :: u32 where "OID_802_3_XMIT_ONE_COLLISION = 0x01020102"
definition OID_802_3_XMIT_MORE_COLLISIONS :: u32 where "OID_802_3_XMIT_MORE_COLLISIONS = 0x01020103"

definition AdapterSupportedOIDList :: "u32 list" where
  "AdapterSupportedOIDList =
     [OID_GEN_SUPPORTED_LIST, OID_GEN_PHYSICAL_MEDIUM, OID_GEN_HARDWARE_STATUS, OID_GEN_MEDIA_SUPPORTED, OID_GEN_MEDIA_IN_USE,
      OID_GEN_MAXIMUM_FRAME_SIZE, OID_GEN_MAXIMUM_TOTAL_SIZE, OID_GEN_LINK_SPEED, OID_GEN_TRANSMIT_BLOCK_SIZE,
      OID_GEN_RECEIVE_BLOCK_SIZE, OID_GEN_VENDOR_ID, OID_GEN_VENDOR_DESCRIPTION, OID_GEN_CURRENT_PACKET_FILTER,
      OID_GEN_MAXIMUM_TOTAL_SIZE, OID_GEN_MEDIA_CONNECT_STATUS, OID_GEN_XMIT_OK, OID_GEN_RCV_OK, OID_GEN_XMIT_ERROR,
      OID_GEN_RCV_ERROR, OID_GEN_RCV_NO_BUFFER, OID_802_3_PERMANENT_ADDRESS, OID_802_3_CURRENT_ADDRESS,
      OID_802_3_MULTICAST_LIST, OID_802_3_MAXIMUM_LIST_SIZE, OID_802_3_RCV_ERROR_ALIGNMENT, OID_802_3_XMIT_ONE_COLLISION,
      OID_802_3_XMIT_MORE_COLLISIONS]"

section \<open>Fields of the message buffer\<close>

definition field_32 :: "u8 list \<Rightarrow> nat \<Rightarrow> u32" where
  "field_32 buf i = of_le32 (buf ! i) (buf ! (i + 1)) (buf ! (i + 2)) (buf ! (i + 3))"

definition get_32 :: "u8 list \<Rightarrow> nat \<Rightarrow> u32 result" where
  "get_32 buf i = (if i + 4 \<le> length buf then Ok (field_32 buf i) else Fail Out_Of_Bounds)"

definition put_bytes :: "u8 list \<Rightarrow> nat \<Rightarrow> u8 list \<Rightarrow> u8 list result" where
  "put_bytes buf i bs = (if i + length bs \<le> length buf then Ok (overlay buf i bs) else Fail Out_Of_Bounds)"

definition put_32 :: "u8 list \<Rightarrow> nat \<Rightarrow> u32 \<Rightarrow> u8 list result" where
  "put_32 buf i v = put_bytes buf i (le32 v)"

fun put_fields :: "(nat \<times> u32) list \<Rightarrow> u8 list \<Rightarrow> u8 list result" where
  "put_fields [] buf = Ok buf"
| "put_fields ((i, v) # fs) buf = rbind (put_32 buf i v) (put_fields fs)"

section \<open>Queries and settings\<close>

record RNDIS_Config =
  RNDIS_ControlInterfaceNumber :: u8
  RNDIS_DataINEndpoint :: USB_Endpoint_Table
  RNDIS_DataOUTEndpoint :: USB_Endpoint_Table
  RNDIS_NotificationEndpoint :: USB_Endpoint_Table
  AdapterVendorDescription :: "u8 list"
  AdapterMACAddress :: "u8 list"
  MessageBuffer :: "u8 list option"
  MessageBufferLength :: u16

text \<open>
  \<^verbatim>\<open>RNDIS_Device_ProcessNDISQuery\<close> writes its answer to \<^verbatim>\<open>ResponseData\<close>, a place in the buffer. None is the return value
  false, which leaves \<^verbatim>\<open>ResponseSize\<close> unset; the vendor description is its characters before the terminating zero.
\<close>

definition answer :: "u8 list \<Rightarrow> nat \<Rightarrow> u16 \<Rightarrow> u8 list \<Rightarrow> (u16 \<times> u8 list) option result" where
  "answer buf ResponseData ResponseSize bs = rbind (put_bytes buf ResponseData bs) (\<lambda>buf. Ok (Some (ResponseSize, buf)))"

definition answer_32 :: "u8 list \<Rightarrow> nat \<Rightarrow> u32 \<Rightarrow> (u16 \<times> u8 list) option result" where
  "answer_32 buf ResponseData v = answer buf ResponseData 4 (le32 v)"

definition RNDIS_Device_ProcessNDISQuery ::
    "RNDIS_Config \<Rightarrow> RNDIS_State \<Rightarrow> u32 \<Rightarrow> u8 list \<Rightarrow> nat \<Rightarrow> (u16 \<times> u8 list) option result" where
  "RNDIS_Device_ProcessNDISQuery c st OId buf ResponseData =
     (if OId = OID_GEN_SUPPORTED_LIST then
        answer buf ResponseData (of_nat (4 * length AdapterSupportedOIDList)) (concat (map le32 AdapterSupportedOIDList))
      else if OId = OID_GEN_PHYSICAL_MEDIUM then answer_32 buf ResponseData 0
      else if OId = OID_GEN_HARDWARE_STATUS then answer_32 buf ResponseData NDIS_HardwareStatus_Ready
      else if OId = OID_GEN_MEDIA_SUPPORTED \<or> OId = OID_GEN_MEDIA_IN_USE then answer_32 buf ResponseData REMOTE_NDIS_MEDIUM_802_3
      else if OId = OID_GEN_VENDOR_ID then answer_32 buf ResponseData 0x00FFFFFF
      else if OId = OID_GEN_MAXIMUM_FRAME_SIZE \<or> OId = OID_GEN_TRANSMIT_BLOCK_SIZE \<or> OId = OID_GEN_RECEIVE_BLOCK_SIZE then
        answer_32 buf ResponseData (of_nat ETHERNET_FRAME_SIZE_MAX)
      else if OId = OID_GEN_VENDOR_DESCRIPTION then
        (let ResponseSize = of_nat (length (AdapterVendorDescription c) + 1) in
         answer buf ResponseData ResponseSize (take (unat ResponseSize) (AdapterVendorDescription c @ [0])))
      else if OId = OID_GEN_MEDIA_CONNECT_STATUS then answer_32 buf ResponseData REMOTE_NDIS_MEDIA_STATE_CONNECTED
      else if OId = OID_GEN_LINK_SPEED then answer_32 buf ResponseData 100000
      else if OId = OID_802_3_PERMANENT_ADDRESS \<or> OId = OID_802_3_CURRENT_ADDRESS then
        answer buf ResponseData 6 (AdapterMACAddress c)
      else if OId = OID_802_3_MAXIMUM_LIST_SIZE then answer_32 buf ResponseData 1
      else if OId = OID_GEN_CURRENT_PACKET_FILTER then answer_32 buf ResponseData (CurrPacketFilter st)
      else if OId = OID_GEN_XMIT_OK \<or> OId = OID_GEN_RCV_OK \<or> OId = OID_GEN_XMIT_ERROR \<or> OId = OID_GEN_RCV_ERROR \<or>
              OId = OID_GEN_RCV_NO_BUFFER \<or> OId = OID_802_3_RCV_ERROR_ALIGNMENT \<or> OId = OID_802_3_XMIT_ONE_COLLISION \<or>
              OId = OID_802_3_XMIT_MORE_COLLISIONS then
        answer_32 buf ResponseData 0
      else if OId = OID_GEN_MAXIMUM_TOTAL_SIZE then
        answer_32 buf ResponseData (ucast (MessageBufferLength c + of_nat ETHERNET_FRAME_SIZE_MAX))
      else Ok None)"

text \<open>\<^verbatim>\<open>SetData\<close> is a place relative to the start of the buffer, where nothing says that it is inside.\<close>

definition RNDIS_Device_ProcessNDISSet :: "RNDIS_State \<Rightarrow> u32 \<Rightarrow> u8 list \<Rightarrow> nat \<Rightarrow> (bool \<times> RNDIS_State) result" where
  "RNDIS_Device_ProcessNDISSet st OId buf SetData =
     (if OId = OID_GEN_CURRENT_PACKET_FILTER then
        rbind (get_32 buf SetData) (\<lambda>v.
        Ok (True, st\<lparr>CurrPacketFilter := v, CurrRNDISState := (if v \<noteq> 0 then RNDIS_Data_Initialized else RNDIS_Initialized)\<rparr>))
      else if OId = OID_802_3_MULTICAST_LIST then Ok (True, st)
      else Ok (False, st))"

section \<open>Messages\<close>

definition initialize_fields :: "u32 \<Rightarrow> (nat \<times> u32) list" where
  "initialize_fields RequestId =
     [(8, RequestId), (12, REMOTE_NDIS_STATUS_SUCCESS), (16, REMOTE_NDIS_VERSION_MAJOR), (20, REMOTE_NDIS_VERSION_MINOR),
      (24, REMOTE_NDIS_DF_CONNECTIONLESS), (28, REMOTE_NDIS_MEDIUM_802_3), (32, 1),
      (36, of_nat (sizeof_Packet_Message + ETHERNET_FRAME_SIZE_MAX)), (40, 0), (44, 0), (48, 0)]"

definition initialize_message :: "RNDIS_State \<Rightarrow> u8 list \<Rightarrow> (u8 list \<times> RNDIS_State) result" where
  "initialize_message st buf =
     rbind (put_fields [(0, REMOTE_NDIS_INITIALIZE_CMPLT), (4, of_nat sizeof_Initialize_Complete)] buf) (\<lambda>buf.
     rbind (get_32 buf 8) (\<lambda>RequestId.
     rbind (put_fields (initialize_fields RequestId) buf) (\<lambda>buf.
     Ok (buf, st\<lparr>ResponseReady := True, CurrRNDISState := RNDIS_Initialized\<rparr>))))"

definition halt_message :: "RNDIS_State \<Rightarrow> u8 list \<Rightarrow> (u8 list \<times> RNDIS_State) result" where
  "halt_message st buf =
     rbind (put_32 buf 4 0) (\<lambda>buf. Ok (buf, st\<lparr>ResponseReady := False, CurrRNDISState := RNDIS_Uninitialized\<rparr>))"

definition query_message :: "RNDIS_Config \<Rightarrow> RNDIS_State \<Rightarrow> u8 list \<Rightarrow> (u8 list \<times> RNDIS_State) result" where
  "query_message c st buf =
     rbind (get_32 buf 12) (\<lambda>Query_Oid.
     rbind (get_32 buf 20) (\<lambda>_.
     rbind (put_32 buf 0 REMOTE_NDIS_QUERY_CMPLT) (\<lambda>buf.
     rbind (get_32 buf 16) (\<lambda>_.
     rbind (RNDIS_Device_ProcessNDISQuery c (st\<lparr>ResponseReady := True\<rparr>) Query_Oid buf sizeof_Query_Complete) (\<lambda>a.
     rbind (case a of
         Some (ResponseSize, buf) \<Rightarrow>
           put_fields [(12, REMOTE_NDIS_STATUS_SUCCESS), (4, ucast (of_nat sizeof_Query_Complete + ResponseSize)), (16, ucast ResponseSize),
                       (20, of_nat (sizeof_Query_Complete - sizeof_Message_Header))] buf
       | None \<Rightarrow>
           put_fields [(12, REMOTE_NDIS_STATUS_NOT_SUPPORTED), (4, of_nat sizeof_Query_Complete), (16, 0), (20, 0)] buf) (\<lambda>buf.
     Ok (buf, st\<lparr>ResponseReady := True\<rparr>)))))))"

text \<open>The index that the code computes from the offset in the message, in the 16 bits of a pointer.\<close>

definition set_data :: "u32 \<Rightarrow> nat" where
  "set_data InformationBufferOffset = unat (ucast (of_nat sizeof_Message_Header + InformationBufferOffset) :: u16)"

definition set_message :: "RNDIS_State \<Rightarrow> u8 list \<Rightarrow> (u8 list \<times> RNDIS_State) result" where
  "set_message st buf =
     rbind (get_32 buf 12) (\<lambda>SET_Oid.
     rbind (put_fields [(0, REMOTE_NDIS_SET_CMPLT), (4, of_nat sizeof_Set_Complete)] buf) (\<lambda>buf.
     rbind (get_32 buf 8) (\<lambda>RequestId.
     rbind (put_32 buf 8 RequestId) (\<lambda>buf.
     rbind (get_32 buf 20) (\<lambda>InformationBufferOffset.
     rbind (get_32 buf 16) (\<lambda>_.
     rbind (RNDIS_Device_ProcessNDISSet (st\<lparr>ResponseReady := True\<rparr>) SET_Oid buf (set_data InformationBufferOffset)) (\<lambda>(ok, st).
     rbind (put_32 buf 12 (if ok then REMOTE_NDIS_STATUS_SUCCESS else REMOTE_NDIS_STATUS_NOT_SUPPORTED)) (\<lambda>buf.
     Ok (buf, st)))))))))"

definition reset_message :: "RNDIS_State \<Rightarrow> u8 list \<Rightarrow> (u8 list \<times> RNDIS_State) result" where
  "reset_message st buf =
     rbind (put_fields [(0, REMOTE_NDIS_RESET_CMPLT), (4, of_nat sizeof_Reset_Complete), (8, REMOTE_NDIS_STATUS_SUCCESS), (12, 0)] buf) (\<lambda>buf.
     Ok (buf, st\<lparr>ResponseReady := True\<rparr>))"

definition keepalive_message :: "RNDIS_State \<Rightarrow> u8 list \<Rightarrow> (u8 list \<times> RNDIS_State) result" where
  "keepalive_message st buf =
     rbind (put_fields [(0, REMOTE_NDIS_KEEPALIVE_CMPLT), (4, of_nat sizeof_KeepAlive_Complete)] buf) (\<lambda>buf.
     rbind (get_32 buf 8) (\<lambda>RequestId.
     rbind (put_fields [(8, RequestId), (12, REMOTE_NDIS_STATUS_SUCCESS)] buf) (\<lambda>buf.
     Ok (buf, st\<lparr>ResponseReady := True\<rparr>))))"

definition RNDIS_Device_ProcessRNDISControlMessage :: "RNDIS_Config \<Rightarrow> RNDIS_State \<Rightarrow> u8 list \<Rightarrow> (u8 list \<times> RNDIS_State) result" where
  "RNDIS_Device_ProcessRNDISControlMessage c st buf =
     rbind (get_32 buf 0) (\<lambda>MessageType.
     if MessageType = REMOTE_NDIS_INITIALIZE_MSG then initialize_message st buf
     else if MessageType = REMOTE_NDIS_HALT_MSG then halt_message st buf
     else if MessageType = REMOTE_NDIS_QUERY_MSG then query_message c st buf
     else if MessageType = REMOTE_NDIS_SET_MSG then set_message st buf
     else if MessageType = REMOTE_NDIS_RESET_MSG then reset_message st buf
     else if MessageType = REMOTE_NDIS_KEEPALIVE_MSG then keepalive_message st buf
     else Ok (buf, st))"

section \<open>Reading back a field\<close>

lemma length_le32 [simp]: "length (le32 v) = 4"
  by (simp add: le32_def)

lemma get_32_in: "i + 4 \<le> length buf \<Longrightarrow> get_32 buf i = Ok (field_32 buf i)"
  by (simp add: get_32_def)

lemma put_32_in: "i + 4 \<le> length buf \<Longrightarrow> put_32 buf i v = Ok (overlay buf i (le32 v))"
  by (simp add: put_32_def put_bytes_def)

lemma field_same: "i + 4 \<le> length buf \<Longrightarrow> field_32 (overlay buf i (le32 v)) i = v"
  by (simp add: field_32_def nth_overlay) (simp add: le32_def of_le32_le32)

lemma field_other:
  "i + length p \<le> length buf \<Longrightarrow> j + 4 \<le> length buf \<Longrightarrow> j + 4 \<le> i \<or> i + length p \<le> j \<Longrightarrow> field_32 (overlay buf i p) j = field_32 buf j"
  by (auto simp: field_32_def nth_overlay)

lemmas rndis_sizes = sizeof_Message_Header_def sizeof_Packet_Message_def sizeof_Initialize_Complete_def sizeof_Query_Complete_def
  sizeof_Set_Complete_def sizeof_Reset_Complete_def sizeof_KeepAlive_Complete_def ETHERNET_FRAME_SIZE_MAX_def

lemmas rndis_types = REMOTE_NDIS_INITIALIZE_MSG_def REMOTE_NDIS_HALT_MSG_def REMOTE_NDIS_QUERY_MSG_def REMOTE_NDIS_SET_MSG_def
  REMOTE_NDIS_RESET_MSG_def REMOTE_NDIS_KEEPALIVE_MSG_def

lemmas rndis_oids = OID_GEN_SUPPORTED_LIST_def OID_GEN_HARDWARE_STATUS_def OID_GEN_MEDIA_SUPPORTED_def OID_GEN_MEDIA_IN_USE_def OID_GEN_MAXIMUM_FRAME_SIZE_def
  OID_GEN_LINK_SPEED_def OID_GEN_TRANSMIT_BLOCK_SIZE_def OID_GEN_RECEIVE_BLOCK_SIZE_def OID_GEN_VENDOR_ID_def OID_GEN_VENDOR_DESCRIPTION_def
  OID_GEN_CURRENT_PACKET_FILTER_def OID_GEN_MAXIMUM_TOTAL_SIZE_def OID_GEN_MEDIA_CONNECT_STATUS_def OID_GEN_PHYSICAL_MEDIUM_def
  OID_802_3_PERMANENT_ADDRESS_def OID_802_3_CURRENT_ADDRESS_def OID_802_3_MAXIMUM_LIST_SIZE_def

lemmas fields = get_32_in put_32_in field_same field_other

lemma put_fields_in:
  "\<forall>(i, v)\<in>set fs. i + 4 \<le> length buf \<and> (j + 4 \<le> i \<or> i + 4 \<le> j) \<Longrightarrow> j + 4 \<le> length buf \<Longrightarrow>
    \<exists>buf'. put_fields fs buf = Ok buf' \<and> length buf' = length buf \<and> field_32 buf' j = field_32 buf j"
proof (induction fs arbitrary: buf)
  case Nil
  then show ?case by simp
next
  case (Cons f fs)
  obtain i v where f: "f = (i, v)" by (cases f)
  with Cons.prems have i: "i + 4 \<le> length buf" "j + 4 \<le> i \<or> i + 4 \<le> j" by auto
  with Cons.IH [of "overlay buf i (le32 v)"] Cons.prems show ?case by (auto simp: f fields)
qed

section \<open>Every message stays in the buffer\<close>

text \<open>A buffer that \<^verbatim>\<open>RNDIS_Device_ConfigureEndpoints\<close> accepts and that holds the longest answer.\<close>

definition roomy :: "RNDIS_Config \<Rightarrow> u8 list \<Rightarrow> bool" where
  "roomy c buf \<longleftrightarrow> 132 \<le> length buf \<and> length buf < 65536 \<and> 25 + length (AdapterVendorDescription c) \<le> length buf \<and> length (AdapterMACAddress c) = 6"

text \<open>The one message that leads outside: a packet filter at an offset behind the buffer.\<close>

definition stray_filter :: "u8 list \<Rightarrow> bool" where
  "stray_filter buf \<longleftrightarrow>
     field_32 buf 0 = REMOTE_NDIS_SET_MSG \<and> field_32 buf 12 = OID_GEN_CURRENT_PACKET_FILTER \<and> length buf < set_data (field_32 buf 20) + 4"

text \<open>A response: complete, and the length it states is inside the buffer.\<close>

definition response_in :: "u8 list \<Rightarrow> (u8 list \<times> RNDIS_State) result \<Rightarrow> bool" where
  "response_in buf r \<longleftrightarrow> (\<exists>buf' st'. r = Ok (buf', st') \<and> length buf' = length buf \<and> unat (field_32 buf' 4) \<le> length buf)"

lemma initialize_in:
  assumes "132 \<le> length buf"
  shows "response_in buf (initialize_message st buf)"
proof -
  obtain b1 where b1: "put_fields [(0, REMOTE_NDIS_INITIALIZE_CMPLT), (4, of_nat sizeof_Initialize_Complete)] buf = Ok b1"
      "length b1 = length buf" "field_32 b1 4 = of_nat sizeof_Initialize_Complete"
    using assms by (auto simp: fields)
  obtain b2 where "put_fields (initialize_fields (field_32 b1 8)) b1 = Ok b2" "length b2 = length buf" "field_32 b2 4 = field_32 b1 4"
    using put_fields_in [of "initialize_fields (field_32 b1 8)" b1 4] assms b1(2) by (auto simp: initialize_fields_def)
  with b1 assms show ?thesis
    by (simp add: response_in_def initialize_message_def get_32_in rndis_sizes del: put_fields.simps)
qed

lemma reset_in: "132 \<le> length buf \<Longrightarrow> response_in buf (reset_message st buf)"
  by (simp add: response_in_def reset_message_def fields rndis_sizes)

lemma keepalive_in: "132 \<le> length buf \<Longrightarrow> response_in buf (keepalive_message st buf)"
  by (simp add: response_in_def keepalive_message_def fields rndis_sizes)

lemma halt_in: "132 \<le> length buf \<Longrightarrow> response_in buf (halt_message st buf)"
  by (simp add: response_in_def halt_message_def fields rndis_sizes)

lemma set_in:
  assumes "132 \<le> length buf"
  shows "if field_32 buf 12 = OID_GEN_CURRENT_PACKET_FILTER \<and> length buf < set_data (field_32 buf 20) + 4
    then set_message st buf = Fail Out_Of_Bounds else response_in buf (set_message st buf)"
  using assms by (simp add: response_in_def set_message_def fields rndis_sizes RNDIS_Device_ProcessNDISSet_def get_32_def)

text \<open>An answer to a query: it is behind the header of the response and inside the buffer.\<close>

definition answered :: "u8 list \<Rightarrow> (u16 \<times> u8 list) option result \<Rightarrow> bool" where
  "answered buf r \<longleftrightarrow> r = Ok None \<or>
     (\<exists>n buf'. r = Ok (Some (n, buf')) \<and> length buf' = length buf \<and> sizeof_Query_Complete + unat n \<le> length buf)"

lemma answer_in:
  "24 + length bs \<le> length buf \<Longrightarrow> unat n = length bs \<Longrightarrow> answered buf (answer buf 24 n bs)"
  by (simp add: answered_def answer_def put_bytes_def sizeof_Query_Complete_def)

lemma oid_list_bytes: "length (concat (map le32 AdapterSupportedOIDList)) = 108"
  by (simp add: AdapterSupportedOIDList_def)

lemma query_answered:
  assumes "roomy c buf"
  shows "answered buf (RNDIS_Device_ProcessNDISQuery c st OId buf 24)"
proof -
  note r = assms [unfolded roomy_def]
  have word: "answered buf (answer_32 buf 24 v)" for v
    unfolding answer_32_def using r by (intro answer_in) auto
  have oids: "answered buf (answer buf 24 (of_nat (4 * length AdapterSupportedOIDList)) (concat (map le32 AdapterSupportedOIDList)))"
    using r by (intro answer_in) (simp_all only: oid_list_bytes, simp_all add: AdapterSupportedOIDList_def)
  have n: "unat (of_nat (length (AdapterVendorDescription c) + 1) :: u16) = length (AdapterVendorDescription c) + 1"
    using r by (subst unat_of_nat_u16) auto
  have desc: "answered buf (let n = of_nat (length (AdapterVendorDescription c) + 1) in
      answer buf 24 n (take (unat n) (AdapterVendorDescription c @ [0])))"
    using r unfolding Let_def n by (intro answer_in) (simp_all add: n [simplified])
  have mac: "answered buf (answer buf 24 6 (AdapterMACAddress c))"
    using r by (intro answer_in) auto
  show ?thesis
    unfolding RNDIS_Device_ProcessNDISQuery_def using word oids desc mac by (simp add: answered_def [of _ "Ok None"])
qed

lemma query_in:
  assumes "roomy c buf"
  shows "response_in buf (query_message c st buf)"
proof -
  define b1 where "b1 = overlay buf 0 (le32 REMOTE_NDIS_QUERY_CMPLT)"
  have r: "132 \<le> length buf" "length buf < 65536" "length b1 = length buf" "roomy c b1"
    using assms unfolding roomy_def b1_def by auto
  define a where "a = RNDIS_Device_ProcessNDISQuery c (st\<lparr>ResponseReady := True\<rparr>) (field_32 buf 12) b1 24"
  have a: "answered b1 a" unfolding a_def by (rule query_answered [OF r(4)])
  have run: "query_message c st buf = rbind a (\<lambda>a. rbind (case a of
         Some (ResponseSize, buf) \<Rightarrow>
           put_fields [(12, REMOTE_NDIS_STATUS_SUCCESS), (4, ucast (of_nat sizeof_Query_Complete + ResponseSize)), (16, ucast ResponseSize),
                       (20, of_nat (sizeof_Query_Complete - sizeof_Message_Header))] buf
       | None \<Rightarrow>
           put_fields [(12, REMOTE_NDIS_STATUS_NOT_SUPPORTED), (4, of_nat sizeof_Query_Complete), (16, 0), (20, 0)] b1) (\<lambda>buf.
     Ok (buf, st\<lparr>ResponseReady := True\<rparr>)))"
    using r(1) unfolding query_message_def a_def b1_def sizeof_Query_Complete_def by (simp add: fields)
  have fit: "unat (ucast (24 + n :: u16) :: u32) = 24 + unat n" if "24 + unat n \<le> length buf" for n :: u16
    using that r(2) by (simp add: unsigned_ucast_eq unat_word_ariths take_bit_nat_eq_self)
  show ?thesis
    using a r unfolding run answered_def response_in_def
    by (auto simp: fields fit sizeof_Query_Complete_def)
qed

text \<open>C17: for which messages the network driver stays in its message buffer. With a buffer of the size that
  \<^verbatim>\<open>RNDIS_Device_ConfigureEndpoints\<close> asks for and that holds the vendor description, every message is processed without leaving the buffer,
  and every response states a length inside it, with two exceptions: a packet filter whose offset, taken from the message, points
  outside makes the code read there; and a message of an unknown type is left as it came, whatever length it states.
\<close>

theorem rndis_messages_bounded:
  assumes "roomy c buf"
  shows "if stray_filter buf then RNDIS_Device_ProcessRNDISControlMessage c st buf = Fail Out_Of_Bounds
    else if field_32 buf 0 \<in> {REMOTE_NDIS_INITIALIZE_MSG, REMOTE_NDIS_HALT_MSG, REMOTE_NDIS_QUERY_MSG, REMOTE_NDIS_SET_MSG,
        REMOTE_NDIS_RESET_MSG, REMOTE_NDIS_KEEPALIVE_MSG} then response_in buf (RNDIS_Device_ProcessRNDISControlMessage c st buf)
    else RNDIS_Device_ProcessRNDISControlMessage c st buf = Ok (buf, st)"
proof -
  have len: "132 \<le> length buf" using assms by (simp add: roomy_def)
  show ?thesis
    using len initialize_in [OF len, of st] halt_in [OF len, of st] query_in [OF assms, of st] set_in [OF len, of st] reset_in [OF len, of st]
      keepalive_in [OF len, of st]
    unfolding RNDIS_Device_ProcessRNDISControlMessage_def stray_filter_def by (auto simp: get_32_in rndis_types)
qed

definition sample_config :: RNDIS_Config where
  "sample_config = \<lparr>RNDIS_ControlInterfaceNumber = 0, RNDIS_DataINEndpoint = \<lparr>ep_Address = 0x81, ep_Size = 64, ep_Type = 0, ep_Banks = 1\<rparr>,
     RNDIS_DataOUTEndpoint = \<lparr>ep_Address = 2, ep_Size = 64, ep_Type = 0, ep_Banks = 1\<rparr>,
     RNDIS_NotificationEndpoint = \<lparr>ep_Address = 0x83, ep_Size = 8, ep_Type = 0, ep_Banks = 1\<rparr>,
     AdapterVendorDescription = [0x4C, 0x55, 0x46, 0x41], AdapterMACAddress = [2, 0, 2, 0, 2, 0],
     MessageBuffer = Some (replicate 132 0), MessageBufferLength = 132\<rparr>"

definition sample_state :: RNDIS_State where
  "sample_state = \<lparr>ResponseReady = False, CurrRNDISState = RNDIS_Initialized, CurrPacketFilter = 0\<rparr>"

text \<open>A message with four fields before the data and \<open>offset\<close> as the place of the data.\<close>

definition sample_message :: "u32 \<Rightarrow> u32 \<Rightarrow> u32 \<Rightarrow> u8 list" where
  "sample_message t oid off = concat (map le32 [t, 32, 7, oid, 4, off, 0, 0x2D]) @ replicate 100 0"

lemma sample_simps [simp]:
  "length (sample_message t oid off) = 132" "roomy sample_config (sample_message t oid off)"
  "field_32 (sample_message t oid off) 0 = t" "field_32 (sample_message t oid off) 12 = oid" "field_32 (sample_message t oid off) 20 = off"
  "field_32 (sample_message t oid off) 28 = 0x2D"
  by (simp_all add: sample_message_def roomy_def sample_config_def)
    (simp_all add: field_32_def nth_append le32_def of_le32_le32 of_le32_def [of 45])

theorem rndis_messages_bounded_witness:
  "response_in (sample_message REMOTE_NDIS_QUERY_MSG OID_GEN_SUPPORTED_LIST 0)
     (RNDIS_Device_ProcessRNDISControlMessage sample_config sample_state (sample_message REMOTE_NDIS_QUERY_MSG OID_GEN_SUPPORTED_LIST 0)) \<and>
   RNDIS_Device_ProcessRNDISControlMessage sample_config sample_state (sample_message REMOTE_NDIS_SET_MSG OID_GEN_CURRENT_PACKET_FILTER 0x1000) =
     Fail Out_Of_Bounds"
  using rndis_messages_bounded [of sample_config "sample_message REMOTE_NDIS_QUERY_MSG OID_GEN_SUPPORTED_LIST 0" sample_state]
    rndis_messages_bounded [of sample_config "sample_message REMOTE_NDIS_SET_MSG OID_GEN_CURRENT_PACKET_FILTER 0x1000" sample_state]
  by (simp add: stray_filter_def set_data_def sizeof_Message_Header_def rndis_types)

section \<open>The packet filter\<close>

lemma set_filter_runs:
  assumes "132 \<le> length buf" "field_32 buf 12 = OID_GEN_CURRENT_PACKET_FILTER"
    and "12 \<le> set_data (field_32 buf 20)" "set_data (field_32 buf 20) + 4 \<le> length buf"
  shows "\<exists>buf'. set_message st buf = Ok (buf', st\<lparr>ResponseReady := True, CurrPacketFilter := field_32 buf (set_data (field_32 buf 20)),
    CurrRNDISState := (if field_32 buf (set_data (field_32 buf 20)) \<noteq> 0 then RNDIS_Data_Initialized else RNDIS_Initialized)\<rparr>)"
  using assms by (auto simp: set_message_def fields RNDIS_Device_ProcessNDISSet_def)

lemma query_filter_runs:
  assumes "132 \<le> length buf" "field_32 buf 12 = OID_GEN_CURRENT_PACKET_FILTER"
  shows "\<exists>buf'. query_message c st buf = Ok (buf', st\<lparr>ResponseReady := True\<rparr>) \<and>
    field_32 buf' 0 = REMOTE_NDIS_QUERY_CMPLT \<and> field_32 buf' 8 = field_32 buf 8 \<and> field_32 buf' 12 = REMOTE_NDIS_STATUS_SUCCESS \<and>
    field_32 buf' 24 = CurrPacketFilter st"
proof -
  define b1 where "b1 = overlay buf 0 (le32 REMOTE_NDIS_QUERY_CMPLT)"
  have b1: "put_32 buf 0 REMOTE_NDIS_QUERY_CMPLT = Ok b1" "length b1 = length buf" "field_32 b1 0 = REMOTE_NDIS_QUERY_CMPLT" "field_32 b1 8 = field_32 buf 8"
    using assms(1) unfolding b1_def by (simp_all add: fields)
  define b2 where "b2 = overlay b1 24 (le32 (CurrPacketFilter st))"
  have b2: "answer_32 b1 24 (CurrPacketFilter st) = Ok (Some (4, b2))" "length b2 = length buf" "field_32 b2 0 = field_32 b1 0"
      "field_32 b2 8 = field_32 b1 8" "field_32 b2 24 = CurrPacketFilter st"
    using assms(1) b1(2) unfolding b2_def by (simp_all add: fields answer_32_def answer_def put_bytes_def)
  have q: "RNDIS_Device_ProcessNDISQuery c (st\<lparr>ResponseReady := True\<rparr>) OID_GEN_CURRENT_PACKET_FILTER b1 24 = Ok (Some (4, b2))"
    using b2(1) by (simp add: RNDIS_Device_ProcessNDISQuery_def rndis_oids)
  show ?thesis
    using assms b1 b2 q by (auto simp: query_message_def fields sizeof_Query_Complete_def)
qed

text \<open>C18: the packet filter that the host sets is the one it reads back, and it decides whether the adapter passes data. A message that
  sets it, with its data behind the header and inside the buffer, is processed; the adapter then passes data exactly if the filter is not zero;
  and a later query for it is answered with that filter and the identifier of the query.
\<close>

theorem packet_filter_roundtrip:
  assumes "132 \<le> length buf" "field_32 buf 0 = REMOTE_NDIS_SET_MSG" "field_32 buf 12 = OID_GEN_CURRENT_PACKET_FILTER"
    and "12 \<le> set_data (field_32 buf 20)" "set_data (field_32 buf 20) + 4 \<le> length buf"
    and v: "v = field_32 buf (set_data (field_32 buf 20))"
  shows "\<exists>buf' st'. RNDIS_Device_ProcessRNDISControlMessage c st buf = Ok (buf', st') \<and>
    CurrRNDISState st' = (if v = 0 then RNDIS_Initialized else RNDIS_Data_Initialized) \<and>
    (\<forall>q. 132 \<le> length q \<longrightarrow> field_32 q 0 = REMOTE_NDIS_QUERY_MSG \<longrightarrow> field_32 q 12 = OID_GEN_CURRENT_PACKET_FILTER \<longrightarrow>
      (\<exists>r. RNDIS_Device_ProcessRNDISControlMessage c st' q = Ok (r, st'\<lparr>ResponseReady := True\<rparr>) \<and>
        field_32 r 0 = REMOTE_NDIS_QUERY_CMPLT \<and> field_32 r 8 = field_32 q 8 \<and> field_32 r 12 = REMOTE_NDIS_STATUS_SUCCESS \<and>
        field_32 r 24 = v))"
proof -
  define st' where "st' = st\<lparr>ResponseReady := True, CurrPacketFilter := v, CurrRNDISState := (if v \<noteq> 0 then RNDIS_Data_Initialized else RNDIS_Initialized)\<rparr>"
  obtain buf' where "set_message st buf = Ok (buf', st')"
    using set_filter_runs [OF assms(1,3,4,5), of st] unfolding st'_def v by auto
  then have "RNDIS_Device_ProcessRNDISControlMessage c st buf = Ok (buf', st')"
    using assms(1,2) by (simp add: RNDIS_Device_ProcessRNDISControlMessage_def get_32_in rndis_types)
  moreover have "\<exists>r. RNDIS_Device_ProcessRNDISControlMessage c st' q = Ok (r, st'\<lparr>ResponseReady := True\<rparr>) \<and>
        field_32 r 0 = REMOTE_NDIS_QUERY_CMPLT \<and> field_32 r 8 = field_32 q 8 \<and> field_32 r 12 = REMOTE_NDIS_STATUS_SUCCESS \<and> field_32 r 24 = v"
    if "132 \<le> length q" "field_32 q 0 = REMOTE_NDIS_QUERY_MSG" "field_32 q 12 = OID_GEN_CURRENT_PACKET_FILTER" for q
    using query_filter_runs [OF that(1,3), of c st'] that(1,2)
    by (simp add: RNDIS_Device_ProcessRNDISControlMessage_def get_32_in rndis_types) (simp add: st'_def)
  ultimately show ?thesis by (auto simp: st'_def)
qed

theorem packet_filter_roundtrip_witness:
  "\<exists>buf' st' r st''. RNDIS_Device_ProcessRNDISControlMessage sample_config sample_state
       (sample_message REMOTE_NDIS_SET_MSG OID_GEN_CURRENT_PACKET_FILTER 20) = Ok (buf', st') \<and>
     RNDIS_Device_ProcessRNDISControlMessage sample_config st' (sample_message REMOTE_NDIS_QUERY_MSG OID_GEN_CURRENT_PACKET_FILTER 0) = Ok (r, st'') \<and>
     field_32 r 24 = 0x2D"
proof -
  let ?m = "sample_message REMOTE_NDIS_SET_MSG OID_GEN_CURRENT_PACKET_FILTER 20"
  let ?q = "sample_message REMOTE_NDIS_QUERY_MSG OID_GEN_CURRENT_PACKET_FILTER 0"
  obtain buf' st' where m: "RNDIS_Device_ProcessRNDISControlMessage sample_config sample_state ?m = Ok (buf', st')"
    and q: "\<forall>q. 132 \<le> length q \<longrightarrow> field_32 q 0 = REMOTE_NDIS_QUERY_MSG \<longrightarrow> field_32 q 12 = OID_GEN_CURRENT_PACKET_FILTER \<longrightarrow>
      (\<exists>r. RNDIS_Device_ProcessRNDISControlMessage sample_config st' q = Ok (r, st'\<lparr>ResponseReady := True\<rparr>) \<and>
        field_32 r 0 = REMOTE_NDIS_QUERY_CMPLT \<and> field_32 r 8 = field_32 q 8 \<and> field_32 r 12 = REMOTE_NDIS_STATUS_SUCCESS \<and>
        field_32 r 24 = 0x2D)"
    using packet_filter_roundtrip [of ?m "0x2D" sample_config sample_state] by (auto simp: set_data_def sizeof_Message_Header_def)
  show ?thesis using m q [rule_format, of ?q] by auto
qed

end
