(* ===== verification/Rndis_Device.thy ===== *)
theory Rndis_Device
  imports Rndis_Message Usb_Host_Out
begin

text \<open>
  The USB side of LUFA's network class driver, \<^verbatim>\<open>USB/Class/Device/RNDISClassDevice.c\<close>: the two class requests that carry the
  messages of \<open>Rndis_Message\<close>, the configuration, the task that announces a response, and the packets. \<open>fresh\<close> gives the undefined
  contents of a local structure. The theorem says what a command from the host does to the message buffer: it is
  copied there, however long it is.
\<close>

section \<open>The interface\<close>

record 'w rndis = "'w usb" +
  RNDIS_config :: RNDIS_Config
  RNDIS_state :: RNDIS_State

definition RNDIS_REQ_SendEncapsulatedCommand :: u8 where "RNDIS_REQ_SendEncapsulatedCommand = 0x00"
definition RNDIS_REQ_GetEncapsulatedResponse :: u8 where "RNDIS_REQ_GetEncapsulatedResponse = 0x01"
definition RNDIS_NOTIF_ResponseAvailable :: u8 where "RNDIS_NOTIF_ResponseAvailable = 0x01"
definition RNDIS_ERROR_LOGICAL_CMD_FAILED :: u8 where "RNDIS_ERROR_LOGICAL_CMD_FAILED = 0x80"

definition RNDIS_DEVICE_MIN_MESSAGE_BUFFER_LENGTH :: nat where
  "RNDIS_DEVICE_MIN_MESSAGE_BUFFER_LENGTH = 4 * length AdapterSupportedOIDList + sizeof_Query_Complete"

text \<open>The message buffer behind its pointer.\<close>

definition message_buffer :: "(('w, 'z) rndis_scheme, u8 list) prog" where
  "message_buffer = pbind (pget (\<lambda>s. MessageBuffer (RNDIS_config s))) (\<lambda>m. case m of None \<Rightarrow> pfail Null_Deref | Some buf \<Rightarrow> ret buf)"

definition store_message :: "u8 list \<Rightarrow> (('w, 'z) rndis_scheme, unit) prog" where
  "store_message buf = pmod (\<lambda>s. s\<lparr>RNDIS_config := (RNDIS_config s)\<lparr>MessageBuffer := Some buf\<rparr>\<rparr>)"

section \<open>Class requests\<close>

definition process_message :: "(('w, 'z) rndis_scheme, unit) prog" where
  "process_message =
     pbind message_buffer (\<lambda>buf. pbind (pget RNDIS_config) (\<lambda>c. pbind (pget RNDIS_state) (\<lambda>st.
     pbind (plift (RNDIS_Device_ProcessRNDISControlMessage c st buf)) (\<lambda>(buf, st).
     pbind (store_message buf) (\<lambda>_. pmod (\<lambda>s. s\<lparr>RNDIS_state := st\<rparr>))))))"

definition send_command :: "'w usb_avr \<Rightarrow> (('w, 'z) rndis_scheme, unit) prog \<Rightarrow> (('w, 'z) rndis_scheme, unit) prog" where
  "send_command E I =
     pbind (Endpoint_ClearSETUP E) (\<lambda>_.
     pbind message_buffer (\<lambda>buf. pbind (pget (\<lambda>s. wLength (USB_ControlRequest s))) (\<lambda>n.
     pbind (Endpoint_Read_Control_Stream_LE E I buf n) (\<lambda>(_, buf).
     pbind (store_message buf) (\<lambda>_.
     pbind (Endpoint_ClearIN E) (\<lambda>_. process_message))))))"

definition get_response :: "'w usb_avr \<Rightarrow> (('w, 'z) rndis_scheme, unit) prog \<Rightarrow> (('w, 'z) rndis_scheme, unit) prog" where
  "get_response E I =
     pbind message_buffer (\<lambda>buf. pbind (plift (get_32 buf 4)) (\<lambda>MessageLength.
     pbind (if MessageLength = 0 then pbind (plift (aset buf 0 0)) (\<lambda>buf. plift (put_32 buf 4 1)) else ret buf) (\<lambda>buf.
     pbind (store_message buf) (\<lambda>_.
     pbind (Endpoint_ClearSETUP E) (\<lambda>_.
     pbind (plift (get_32 buf 4)) (\<lambda>MessageLength.
     pbind (Endpoint_Write_Control_Stream_LE E I buf (ucast MessageLength)) (\<lambda>_.
     pbind (Endpoint_ClearOUT E) (\<lambda>_.
     pbind message_buffer (\<lambda>buf. pbind (plift (put_32 buf 4 0)) store_message)))))))))"

definition RNDIS_Device_ProcessControlRequest :: "'w usb_avr \<Rightarrow> (('w, 'z) rndis_scheme, unit) prog \<Rightarrow> (('w, 'z) rndis_scheme, unit) prog" where
  "RNDIS_Device_ProcessControlRequest E I =
     pif (Endpoint_IsSETUPReceived E)
       (pbind (pget USB_ControlRequest) (\<lambda>r. pbind (pget RNDIS_config) (\<lambda>c.
        if wIndex r \<noteq> ucast (RNDIS_ControlInterfaceNumber c) then ret ()
        else if bRequest r = RNDIS_REQ_SendEncapsulatedCommand then
          pwhen (bmRequestType r = CLASS_HOSTTODEVICE_INTERFACE) (send_command E I)
        else if bRequest r = RNDIS_REQ_GetEncapsulatedResponse then
          pwhen (bmRequestType r = CLASS_DEVICETOHOST_INTERFACE) (get_response E I)
        else ret ())))
       (ret ())"

section \<open>Configuration and task\<close>

definition rndis_typed :: "RNDIS_Config \<Rightarrow> RNDIS_Config" where
  "rndis_typed c = c\<lparr>RNDIS_DataINEndpoint := (RNDIS_DataINEndpoint c)\<lparr>ep_Type := EP_TYPE_BULK\<rparr>,
     RNDIS_DataOUTEndpoint := (RNDIS_DataOUTEndpoint c)\<lparr>ep_Type := EP_TYPE_BULK\<rparr>,
     RNDIS_NotificationEndpoint := (RNDIS_NotificationEndpoint c)\<lparr>ep_Type := EP_TYPE_INTERRUPT\<rparr>\<rparr>"

definition RNDIS_Device_ConfigureEndpoints :: "'w usb_avr \<Rightarrow> (('w, 'z) rndis_scheme, bool) prog" where
  "RNDIS_Device_ConfigureEndpoints E =
     pbind (pmod (\<lambda>s. s\<lparr>RNDIS_state := \<lparr>ResponseReady = False, CurrRNDISState = 0, CurrPacketFilter = 0\<rparr>,
                         RNDIS_config := rndis_typed (RNDIS_config s)\<rparr>)) (\<lambda>_.
     pbind (pget RNDIS_config) (\<lambda>c.
     if MessageBuffer c = None then ret False
     else if unat (MessageBufferLength c) < RNDIS_DEVICE_MIN_MESSAGE_BUFFER_LENGTH then ret False
     else
       pif (Endpoint_ConfigureEndpointTable E [RNDIS_DataINEndpoint c])
         (pif (Endpoint_ConfigureEndpointTable E [RNDIS_DataOUTEndpoint c])
           (pif (Endpoint_ConfigureEndpointTable E [RNDIS_NotificationEndpoint c]) (ret True) (ret False))
           (ret False))
         (ret False)))"

definition response_available :: "u8 list" where
  "response_available = [CLASS_DEVICETOHOST_INTERFACE, RNDIS_NOTIF_ResponseAvailable, 0, 0, 0, 0, 0, 0]"

definition RNDIS_Device_USBTask :: "'w usb_avr \<Rightarrow> (('w, 'z) rndis_scheme, unit) prog \<Rightarrow> (('w, 'z) rndis_scheme, unit) prog" where
  "RNDIS_Device_USBTask E I =
     pif (pget (\<lambda>s. USB_DeviceState s \<noteq> DEVICE_STATE_Configured)) (ret ())
     (pbind (pget RNDIS_config) (\<lambda>c.
      pbind (Endpoint_SelectEndpoint E (ep_Address (RNDIS_NotificationEndpoint c))) (\<lambda>_.
      pif (pand (Endpoint_IsINReady E) (pget (\<lambda>s. ResponseReady (RNDIS_state s))))
        (pseq [pbind (Endpoint_Write_Stream_LE E I response_available 8 None) (\<lambda>_. ret ()),
               Endpoint_ClearIN E,
               pmod (\<lambda>s. s\<lparr>RNDIS_state := (RNDIS_state s)\<lparr>ResponseReady := False\<rparr>\<rparr>)])
        (ret ()))))"

section \<open>Packets\<close>

definition rndis_closed :: "('w, 'z) rndis_scheme \<Rightarrow> bool" where
  "rndis_closed s \<longleftrightarrow> USB_DeviceState s \<noteq> DEVICE_STATE_Configured \<or> CurrRNDISState (RNDIS_state s) \<noteq> RNDIS_Data_Initialized"

definition RNDIS_Device_IsPacketReceived :: "'w usb_avr \<Rightarrow> (('w, 'z) rndis_scheme, bool) prog" where
  "RNDIS_Device_IsPacketReceived E =
     pif (pget rndis_closed) (ret False)
     (pbind (pget RNDIS_config) (\<lambda>c.
      pbind (Endpoint_SelectEndpoint E (ep_Address (RNDIS_DataOUTEndpoint c))) (\<lambda>_. Endpoint_IsOUTReceived E)))"

text \<open>\<^verbatim>\<open>Buffer\<close> and \<^verbatim>\<open>PacketLength\<close> are passed in and returned with the code.\<close>

definition RNDIS_Device_ReadPacket ::
    "'w usb_avr \<Rightarrow> (('w, 'z) rndis_scheme, unit) prog \<Rightarrow> (nat \<Rightarrow> u8 list) \<Rightarrow> u8 list \<Rightarrow> u16 \<Rightarrow> (('w, 'z) rndis_scheme, u8 \<times> u16 \<times> u8 list) prog" where
  "RNDIS_Device_ReadPacket E I fresh Buffer PacketLength =
     pif (pget rndis_closed) (ret (ENDPOINT_RWSTREAM_DeviceDisconnected, PacketLength, Buffer))
     (pbind (pget RNDIS_config) (\<lambda>c.
      pbind (Endpoint_SelectEndpoint E (ep_Address (RNDIS_DataOUTEndpoint c))) (\<lambda>_.
      pif (Endpoint_IsOUTReceived E)
        (pbind (Endpoint_Read_Stream_LE E I (fresh sizeof_Packet_Message) (of_nat sizeof_Packet_Message) None) (\<lambda>(_, _, RNDISPacketHeader).
         pbind (plift (get_32 RNDISPacketHeader 12)) (\<lambda>DataLength.
         if DataLength > of_nat ETHERNET_FRAME_SIZE_MAX then
           pbind (Endpoint_StallTransaction E) (\<lambda>_. ret (RNDIS_ERROR_LOGICAL_CMD_FAILED, 0, Buffer))
         else
           pbind (Endpoint_Read_Stream_LE E I Buffer (ucast DataLength) None) (\<lambda>(_, _, Buffer).
           pbind (Endpoint_ClearOUT E) (\<lambda>_. ret (ENDPOINT_RWSTREAM_NoError, ucast DataLength, Buffer))))))
        (ret (ENDPOINT_RWSTREAM_NoError, 0, Buffer)))))"

definition packet_header :: "u16 \<Rightarrow> u8 list" where
  "packet_header PacketLength =
     concat (map le32 [REMOTE_NDIS_PACKET_MSG, ucast (of_nat sizeof_Packet_Message + PacketLength),
       of_nat (sizeof_Packet_Message - sizeof_Message_Header), ucast PacketLength, 0, 0, 0, 0, 0, 0, 0])"

definition RNDIS_Device_SendPacket ::
    "'w usb_avr \<Rightarrow> (('w, 'z) rndis_scheme, unit) prog \<Rightarrow> u8 list \<Rightarrow> u16 \<Rightarrow> (('w, 'z) rndis_scheme, u8) prog" where
  "RNDIS_Device_SendPacket E I Buffer PacketLength =
     pif (pget rndis_closed) (ret ENDPOINT_RWSTREAM_DeviceDisconnected)
     (pbind (pget RNDIS_config) (\<lambda>c.
      pbind (Endpoint_SelectEndpoint E (ep_Address (RNDIS_DataINEndpoint c))) (\<lambda>_.
      pbind (Endpoint_WaitUntilReady E I) (\<lambda>ErrorCode.
      if ErrorCode \<noteq> ENDPOINT_READYWAIT_NoError then ret ErrorCode
      else
        pbind (Endpoint_Write_Stream_LE E I (packet_header PacketLength) (of_nat sizeof_Packet_Message) None) (\<lambda>_.
        pbind (Endpoint_Write_Stream_LE E I Buffer PacketLength None) (\<lambda>_.
        pbind (Endpoint_ClearIN E) (\<lambda>_. ret ENDPOINT_RWSTREAM_NoError)))))))"

section \<open>A command of any length\<close>

text \<open>C16: the network driver copies a command into its message buffer whatever its length. A host sends a command of \<^verbatim>\<open>wLength\<close> bytes
  in packets: if it fits into the buffer, its bytes are copied to the start of the buffer and processed as a message; if it is longer than
  the buffer, the driver writes behind the end of it.\<close>

theorem encapsulated_command_unbounded:
  assumes c: "control_out E V" and st: "USB_DeviceState s \<notin> {DEVICE_STATE_Unattached, DEVICE_STATE_Suspended}"
    and p: "V (world s) = \<lparr>packets = ps, header_waits = True\<rparr>" "out_packets ps" and fuel: "length ps < polls E"
    and req: "USB_ControlRequest s = \<lparr>bmRequestType = CLASS_HOSTTODEVICE_INTERFACE, bRequest = RNDIS_REQ_SendEncapsulatedCommand,
        wValue = 0, wIndex = ucast (RNDIS_ControlInterfaceNumber (RNDIS_config s)), wLength = n\<rparr>"
    and n: "unat n = length (concat ps)" "0 < n"
    and buf: "MessageBuffer (RNDIS_config s) = Some buf"
  shows "if unat n \<le> length buf
    then \<exists>w. RNDIS_Device_ProcessControlRequest E (gen_point E A) s =
      process_message (s\<lparr>RNDIS_config := (RNDIS_config s)\<lparr>MessageBuffer := Some (overlay buf 0 (concat ps))\<rparr>, world := w\<rparr>)
    else RNDIS_Device_ProcessControlRequest E (gen_point E A) s = Fail Out_Of_Bounds"
proof -
  obtain w0 where w0: "Endpoint_IsSETUPReceived E s = Ok (True, s\<lparr>world := w0\<rparr>)" "V w0 = V (world s)"
    using out_test(2) [OF c, of s] p by auto
  obtain w1 where w1: "Endpoint_ClearSETUP E (s\<lparr>world := w0\<rparr>) = Ok ((), s\<lparr>world := w1\<rparr>)" "V w1 = \<lparr>packets = ps, header_waits = False\<rparr>"
    using out_clear(1) [OF c, of "s\<lparr>world := w0\<rparr>"] w0(2) p by auto
  have start: "RNDIS_Device_ProcessControlRequest E (gen_point E A) s =
      pbind (Endpoint_Read_Control_Stream_LE E (gen_point E A) buf n) (\<lambda>(_, buf).
        pbind (store_message buf) (\<lambda>_. pbind (Endpoint_ClearIN E) (\<lambda>_. process_message))) (s\<lparr>world := w1\<rparr>)"
    using w0 w1 req buf by (simp add: RNDIS_Device_ProcessControlRequest_def send_command_def message_buffer_def prog_simps)
  note read = control_read_takes [OF c, of "s\<lparr>world := w1\<rparr>" ps n buf A]
  show ?thesis
  proof (cases "unat n \<le> length buf")
    case True
    then obtain w2 where w2: "Endpoint_Read_Control_Stream_LE E (gen_point E A) buf n (s\<lparr>world := w1\<rparr>) =
        Ok ((ENDPOINT_RWCSTREAM_NoError, overlay buf 0 (concat ps)), s\<lparr>world := w2\<rparr>)"
      using read st w1(2) p(2) n fuel by auto
    define t where "t = s\<lparr>world := w2, RNDIS_config := (RNDIS_config s)\<lparr>MessageBuffer := Some (overlay buf 0 (concat ps))\<rparr>\<rparr>"
    obtain w3 where "Endpoint_ClearIN E t = Ok ((), t\<lparr>world := w3\<rparr>)" using out_clear(3) [OF c, of t] by auto
    with True w2 show ?thesis unfolding start t_def by (auto simp: store_message_def prog_simps)
  next
    case False
    then show ?thesis using read st w1(2) p(2) n fuel unfolding start by (simp add: prog_simps)
  qed
qed

text \<open>A command of 136 bytes, for a buffer of the smallest size that the driver accepts.\<close>

definition long_command :: "out_pipe rndis" where
  "long_command = \<lparr>world = \<lparr>packets = replicate 17 (replicate 8 0), header_waits = True\<rparr>, USB_IsInitialized = True,
     USB_DeviceState = DEVICE_STATE_Configured,
     USB_ControlRequest = \<lparr>bmRequestType = CLASS_HOSTTODEVICE_INTERFACE, bRequest = RNDIS_REQ_SendEncapsulatedCommand, wValue = 0, wIndex = 0, wLength = 136\<rparr>,
     USB_Device_ConfigurationNumber = 1, USB_Device_CurrentlySelfPowered = False, USB_Device_RemoteWakeupEnabled = False,
     RNDIS_config = sample_config, RNDIS_state = sample_state\<rparr>"

theorem encapsulated_command_unbounded_witness:
  "\<forall>A. RNDIS_Device_ProcessControlRequest out_avr (gen_point out_avr A) long_command = Fail Out_Of_Bounds"
proof
  fix A
  show "RNDIS_Device_ProcessControlRequest out_avr (gen_point out_avr A) long_command = Fail Out_Of_Bounds"
    using encapsulated_command_unbounded [OF out_avr_control(1), of long_command "replicate 17 (replicate 8 0)" 136 "replicate 132 0" A]
    by (simp add: long_command_def sample_config_def out_packets_def out_avr_control length_concat sum_list_replicate)
qed

end
