(* ===== verification/Audio_Device.thy ===== *)
theory Audio_Device
  imports Bulk_Link
begin

text \<open>
  The audio class driver of LUFA in device mode, \<^verbatim>\<open>USB/Class/Device/AudioClassDevice.c\<close> and the inline functions of its header: the
  requests, the configuration, and samples of 8, 16 and 24 bits. The callbacks of the application are the parameters \<open>endpoint_property\<close> and
  \<open>interface_property\<close>, whose last argument is None for the two NULL pointers of a question and the length with the data otherwise;
  \<open>start_stop\<close> is the stream event, \<open>fresh\<close> the undefined contents of a variable-length array. Samples are words, which C
  reads as signed. The theorem is about samples of 24 bits: which of them come back.
\<close>

section \<open>The interface structure\<close>

record Audio_Config =
  Audio_ControlInterfaceNumber :: u8
  Audio_StreamingInterfaceNumber :: u8
  Audio_DataINEndpoint :: USB_Endpoint_Table
  Audio_DataOUTEndpoint :: USB_Endpoint_Table

record 'w audio = "'w usb" +
  Audio_config :: Audio_Config
  InterfaceEnabled :: bool

type_synonym 's property_callback = "u8 \<Rightarrow> u8 \<Rightarrow> u16 \<Rightarrow> (u16 \<times> u8 list) option \<Rightarrow> ('s, bool \<times> u16 \<times> u8 list) prog"

definition REQ_SetInterface :: u8 where "REQ_SetInterface = 11"
definition AUDIO_REQ_SetCurrent :: u8 where "AUDIO_REQ_SetCurrent = 0x01"
definition AUDIO_REQ_SetMinimum :: u8 where "AUDIO_REQ_SetMinimum = 0x02"
definition AUDIO_REQ_SetMaximum :: u8 where "AUDIO_REQ_SetMaximum = 0x03"
definition AUDIO_REQ_SetResolution :: u8 where "AUDIO_REQ_SetResolution = 0x04"
definition AUDIO_REQ_GetCurrent :: u8 where "AUDIO_REQ_GetCurrent = 0x81"
definition AUDIO_REQ_GetMinimum :: u8 where "AUDIO_REQ_GetMinimum = 0x82"
definition AUDIO_REQ_GetMaximum :: u8 where "AUDIO_REQ_GetMaximum = 0x83"
definition AUDIO_REQ_GetResolution :: u8 where "AUDIO_REQ_GetResolution = 0x84"
definition AUDIO_REQ_GetStatus :: u8 where "AUDIO_REQ_GetStatus = 0xFF"
definition CONTROL_REQTYPE_RECIPIENT :: u8 where "CONTROL_REQTYPE_RECIPIENT = 0x1F"
definition REQREC_INTERFACE :: u8 where "REQREC_INTERFACE = 1"
definition REQREC_ENDPOINT :: u8 where "REQREC_ENDPOINT = 2"
definition REQTYPE_CLASS :: u8 where "REQTYPE_CLASS = push_bit 5 1"
definition EP_TYPE_ISOCHRONOUS :: u8 where "EP_TYPE_ISOCHRONOUS = 1"

section \<open>Requests\<close>

definition audio_addressed :: "USB_Request_Header \<Rightarrow> Audio_Config \<Rightarrow> bool" where
  "audio_addressed r c =
     (let index = ucast (wIndex r AND 0xFF) :: u8 in
      if bmRequestType r AND CONTROL_REQTYPE_RECIPIENT = REQREC_INTERFACE then
        index = Audio_ControlInterfaceNumber c \<or> index = Audio_StreamingInterfaceNumber c
      else if bmRequestType r AND CONTROL_REQTYPE_RECIPIENT = REQREC_ENDPOINT then
        index = ep_Address (Audio_DataINEndpoint c) \<or> index = ep_Address (Audio_DataOUTEndpoint c)
      else True)"

definition set_property ::
    "'w usb_avr \<Rightarrow> (('w, 'z) audio_scheme, unit) prog \<Rightarrow> (nat \<Rightarrow> u8 list) \<Rightarrow>
     ((u16 \<times> u8 list) option \<Rightarrow> (('w, 'z) audio_scheme, bool \<times> u16 \<times> u8 list) prog) \<Rightarrow> (('w, 'z) audio_scheme, unit) prog" where
  "set_property E I fresh callback =
     pbind (callback None) (\<lambda>(ok, _).
     pwhen ok
       (pbind (pget (\<lambda>s. wLength (USB_ControlRequest s))) (\<lambda>ValueLength.
        pbind (Endpoint_ClearSETUP E) (\<lambda>_.
        pbind (Endpoint_Read_Control_Stream_LE E I (fresh (unat ValueLength)) ValueLength) (\<lambda>(_, Value).
        pbind (Endpoint_ClearIN E) (\<lambda>_.
        pbind (callback (Some (ValueLength, Value))) (\<lambda>_. ret ())))))))"

definition get_property ::
    "'w usb_avr \<Rightarrow> (('w, 'z) audio_scheme, unit) prog \<Rightarrow> (nat \<Rightarrow> u8 list) \<Rightarrow>
     ((u16 \<times> u8 list) option \<Rightarrow> (('w, 'z) audio_scheme, bool \<times> u16 \<times> u8 list) prog) \<Rightarrow> (('w, 'z) audio_scheme, unit) prog" where
  "get_property E I fresh callback =
     pbind (pget (\<lambda>s. wLength (USB_ControlRequest s))) (\<lambda>ValueLength.
     pbind (callback (Some (ValueLength, fresh (unat ValueLength)))) (\<lambda>(ok, ValueLength, Value).
     pwhen ok
       (pbind (Endpoint_ClearSETUP E) (\<lambda>_.
        pbind (Endpoint_Write_Control_Stream_LE E I Value ValueLength) (\<lambda>_.
        Endpoint_ClearOUT E)))))"

text \<open>The arguments of the two callbacks: endpoint address and control, or entity and parameter.\<close>

definition property_call ::
    "(('w, 'z) audio_scheme) property_callback \<Rightarrow> (('w, 'z) audio_scheme) property_callback \<Rightarrow> USB_Request_Header \<Rightarrow>
     ((u16 \<times> u8 list) option \<Rightarrow> (('w, 'z) audio_scheme, bool \<times> u16 \<times> u8 list) prog) option" where
  "property_call endpoint_property interface_property r =
     (if bmRequestType r AND CONTROL_REQTYPE_RECIPIENT = REQREC_ENDPOINT then
        Some (endpoint_property (bRequest r) (ucast (wIndex r)) (drop_bit 8 (wValue r)))
      else if bmRequestType r AND CONTROL_REQTYPE_RECIPIENT = REQREC_INTERFACE then
        Some (interface_property (bRequest r) (ucast (drop_bit 8 (wIndex r))) (wValue r))
      else None)"

definition Audio_Device_ProcessControlRequest ::
    "'w usb_avr \<Rightarrow> (('w, 'z) audio_scheme, unit) prog \<Rightarrow> (nat \<Rightarrow> u8 list) \<Rightarrow> (('w, 'z) audio_scheme) property_callback \<Rightarrow>
     (('w, 'z) audio_scheme) property_callback \<Rightarrow> (('w, 'z) audio_scheme, unit) prog \<Rightarrow> (('w, 'z) audio_scheme, unit) prog" where
  "Audio_Device_ProcessControlRequest E I fresh endpoint_property interface_property start_stop =
     pif (Endpoint_IsSETUPReceived E)
       (pbind (pget USB_ControlRequest) (\<lambda>r. pbind (pget Audio_config) (\<lambda>c.
        let q = bRequest r; t = bmRequestType r; call = property_call endpoint_property interface_property r in
        if \<not> audio_addressed r c then ret ()
        else if q = REQ_SetInterface then
          pwhen (t = REQREC_INTERFACE)
            (pseq [Endpoint_ClearSETUP E, Endpoint_ClearStatusStage E I,
                   pmod (\<lambda>s. s\<lparr>InterfaceEnabled := (wValue r AND 0xFF \<noteq> 0)\<rparr>), start_stop])
        else if q = AUDIO_REQ_GetStatus then
          pwhen (t = REQTYPE_CLASS OR REQREC_INTERFACE \<or> t = REQTYPE_CLASS OR REQREC_ENDPOINT)
            (pseq [Endpoint_ClearSETUP E, Endpoint_ClearStatusStage E I])
        else if q \<in> {AUDIO_REQ_SetCurrent, AUDIO_REQ_SetMinimum, AUDIO_REQ_SetMaximum, AUDIO_REQ_SetResolution} then
          (case call of None \<Rightarrow> ret () | Some f \<Rightarrow> set_property E I fresh f)
        else if q \<in> {AUDIO_REQ_GetCurrent, AUDIO_REQ_GetMinimum, AUDIO_REQ_GetMaximum, AUDIO_REQ_GetResolution} then
          (case call of None \<Rightarrow> ret () | Some f \<Rightarrow> get_property E I fresh f)
        else ret ())))
       (ret ())"

definition Audio_Device_ConfigureEndpoints :: "'w usb_avr \<Rightarrow> (('w, 'z) audio_scheme, bool) prog" where
  "Audio_Device_ConfigureEndpoints E =
     pbind (pmod (\<lambda>s. s\<lparr>InterfaceEnabled := False, Audio_config := (Audio_config s)\<lparr>
       Audio_DataINEndpoint := (Audio_DataINEndpoint (Audio_config s))\<lparr>ep_Type := EP_TYPE_ISOCHRONOUS\<rparr>,
       Audio_DataOUTEndpoint := (Audio_DataOUTEndpoint (Audio_config s))\<lparr>ep_Type := EP_TYPE_ISOCHRONOUS\<rparr>\<rparr>\<rparr>)) (\<lambda>_.
     pbind (pget Audio_config) (\<lambda>c.
     pif (Endpoint_ConfigureEndpointTable E [Audio_DataINEndpoint c])
       (pif (Endpoint_ConfigureEndpointTable E [Audio_DataOUTEndpoint c]) (ret True) (ret False))
       (ret False)))"

definition Audio_Device_Event_Stub :: "('s, unit) prog" where
  "Audio_Device_Event_Stub = ret ()"

section \<open>Samples\<close>

definition Audio_Device_USBTask :: "(('w, 'z) audio_scheme, unit) prog" where
  "Audio_Device_USBTask = ret ()"

definition audio_closed :: "('w, 'z) audio_scheme \<Rightarrow> bool" where
  "audio_closed s \<longleftrightarrow> USB_DeviceState s \<noteq> DEVICE_STATE_Configured \<or> \<not> InterfaceEnabled s"

definition Audio_Device_IsSampleReceived :: "'w usb_avr \<Rightarrow> (('w, 'z) audio_scheme, bool) prog" where
  "Audio_Device_IsSampleReceived E =
     pif (pget audio_closed) (ret False)
     (pbind (pget Audio_config) (\<lambda>c.
      pbind (Endpoint_SelectEndpoint E (ep_Address (Audio_DataOUTEndpoint c))) (\<lambda>_. Endpoint_IsOUTReceived E)))"

definition Audio_Device_IsReadyForNextSample :: "'w usb_avr \<Rightarrow> (('w, 'z) audio_scheme, bool) prog" where
  "Audio_Device_IsReadyForNextSample E =
     pif (pget audio_closed) (ret False)
     (pbind (pget Audio_config) (\<lambda>c.
      pbind (Endpoint_SelectEndpoint E (ep_Address (Audio_DataINEndpoint c))) (\<lambda>_. Endpoint_IsINReady E)))"

definition sample_taken :: "'w usb_avr \<Rightarrow> 'a \<Rightarrow> (('w, 'z) audio_scheme, 'a) prog" where
  "sample_taken E x = pbind (Endpoint_BytesInEndpoint E) (\<lambda>b. pbind (pwhen (b = 0) (Endpoint_ClearOUT E)) (\<lambda>_. ret x))"

definition Audio_Device_ReadSample8 :: "'w usb_avr \<Rightarrow> (('w, 'z) audio_scheme, u8) prog" where
  "Audio_Device_ReadSample8 E = pbind (Endpoint_Read_8 E) (sample_taken E)"

definition Audio_Device_ReadSample16 :: "'w usb_avr \<Rightarrow> (('w, 'z) audio_scheme, u16) prog" where
  "Audio_Device_ReadSample16 E = pbind (Endpoint_Read_16_LE E) (sample_taken E)"

text \<open>
  C leaves open which operand of the \<^verbatim>\<open>|\<close> in \<^verbatim>\<open>Audio_Device_ReadSample24\<close> is evaluated first, and both read from the
  endpoint. \<open>low_first\<close> is the choice of the compiler: it stands for evaluating the right operand, the low 16 bits, first.
\<close>

definition Audio_Device_ReadSample24 :: "bool \<Rightarrow> 'w usb_avr \<Rightarrow> (('w, 'z) audio_scheme, u32) prog" where
  "Audio_Device_ReadSample24 low_first E =
     (if low_first
      then pbind (Endpoint_Read_16_LE E) (\<lambda>l. pbind (Endpoint_Read_8 E) (\<lambda>h. sample_taken E (push_bit 16 (ucast h) OR ucast l)))
      else pbind (Endpoint_Read_8 E) (\<lambda>h. pbind (Endpoint_Read_16_LE E) (\<lambda>l. sample_taken E (push_bit 16 (ucast h) OR ucast l))))"

definition sample_put :: "'w usb_avr \<Rightarrow> (('w, 'z) audio_scheme, unit) prog" where
  "sample_put E =
     pbind (Endpoint_BytesInEndpoint E) (\<lambda>b. pbind (pget Audio_config) (\<lambda>c.
     pwhen (b = ep_Size (Audio_DataINEndpoint c)) (Endpoint_ClearIN E)))"

definition Audio_Device_WriteSample8 :: "'w usb_avr \<Rightarrow> u8 \<Rightarrow> (('w, 'z) audio_scheme, unit) prog" where
  "Audio_Device_WriteSample8 E Sample = pseq [Endpoint_Write_8 E Sample, sample_put E]"

definition Audio_Device_WriteSample16 :: "'w usb_avr \<Rightarrow> u16 \<Rightarrow> (('w, 'z) audio_scheme, unit) prog" where
  "Audio_Device_WriteSample16 E Sample = pseq [Endpoint_Write_16_LE E Sample, sample_put E]"

definition Audio_Device_WriteSample24 :: "'w usb_avr \<Rightarrow> u32 \<Rightarrow> (('w, 'z) audio_scheme, unit) prog" where
  "Audio_Device_WriteSample24 E Sample =
     pseq [Endpoint_Write_16_LE E (ucast Sample), Endpoint_Write_8 E (ucast (drop_bit 16 Sample)), sample_put E]"

section \<open>Samples of 24 bits\<close>

definition bytes24 :: "u32 \<Rightarrow> u8 list" where
  "bytes24 x = [ucast x, ucast (drop_bit 8 x), ucast (drop_bit 16 x)]"

lemma Endpoint_16_bytes:
  "Endpoint_Read_16_LE E = pbind (Endpoint_Read_8 E) (\<lambda>b0. pbind (Endpoint_Read_8 E) (\<lambda>b1. ret (of_le16 b0 b1)))"
  "Endpoint_Write_16_LE E d = pseq [Endpoint_Write_8 E (ucast d), Endpoint_Write_8 E (ucast (drop_bit 8 d))]"
  by (simp_all add: Endpoint_Read_16_LE_def Endpoint_Read_8_def Endpoint_Write_16_LE_def Endpoint_Write_8_def)

lemma write24_runs:
  assumes r: "link_reads E V" and i: "link_in E V tx" and t: "sel (V (world s)) = tx" and b: "length (bank_in (V (world s))) \<le> 13"
  shows "\<exists>s'. Audio_Device_WriteSample24 E x s = Ok ((), s') \<and> written (V (world s')) = written (V (world s)) @ bytes24 x"
proof -
  let ?b = "bank_in (V (world s))"
  obtain w1 where w1: "Endpoint_Write_8 E (ucast x) s = Ok ((), s\<lparr>world := w1\<rparr>)" "V w1 = (V (world s))\<lparr>bank_in := ?b @ [ucast x]\<rparr>"
    using link_in_runs(5) [OF r i t, of "ucast x"] b by auto
  obtain w2 where w2: "Endpoint_Write_8 E (ucast (drop_bit 8 x)) (s\<lparr>world := w1\<rparr>) = Ok ((), s\<lparr>world := w2\<rparr>)"
      "V w2 = (V (world s))\<lparr>bank_in := ?b @ [ucast x, ucast (drop_bit 8 x)]\<rparr>"
    using link_in_runs(5) [OF r i, of "s\<lparr>world := w1\<rparr>" "ucast (drop_bit 8 x)"] b w1(2) t by auto
  obtain w3 where w3: "Endpoint_Write_8 E (ucast (drop_bit 16 x)) (s\<lparr>world := w2\<rparr>) = Ok ((), s\<lparr>world := w3\<rparr>)"
      "V w3 = (V (world s))\<lparr>bank_in := ?b @ bytes24 x\<rparr>"
    using link_in_runs(5) [OF r i, of "s\<lparr>world := w2\<rparr>" "ucast (drop_bit 16 x)"] b w2(2) t by (auto simp: bytes24_def)
  have "fst (rd E UEBCLX (snd (rd E UEBCHX w3))) = of_nat (length (bank_in (V w3)))"
    using in_simps(4) [OF i, of "snd (rd E UEBCHX w3)"] w3(2) t reads_simps(2) [OF r] by simp
  then obtain n w4 where w4: "Endpoint_BytesInEndpoint E (s\<lparr>world := w3\<rparr>) = Ok (n, s\<lparr>world := w4\<rparr>)" "V w4 = V w3"
    using link_count [OF r, of "s\<lparr>world := w3\<rparr>" "length (bank_in (V w3))"] w3(2) b by (auto simp: bytes24_def)
  obtain w5 where w5: "Endpoint_ClearIN E (s\<lparr>world := w4\<rparr>) = Ok ((), s\<lparr>world := w5\<rparr>)"
      "V w5 = (V w4)\<lparr>released := released (V w4) @ [bank_in (V w4)], bank_in := []\<rparr>"
    using link_in_runs(4) [OF r i, of "s\<lparr>world := w4\<rparr>"] w4(2) w3(2) t by auto
  have cast: "ucast (ucast x :: u16) = (ucast x :: u8)" "ucast (drop_bit 8 (ucast x :: u16)) = (ucast (drop_bit 8 x) :: u8)"
    by (rule bit_word_eqI; auto simp: bit_simps)+
  show ?thesis
    using w1(1) w2(1) w3 w4 w5
    by (cases "n = ep_Size (Audio_DataINEndpoint (Audio_config s))")
      (auto simp: Audio_Device_WriteSample24_def Endpoint_16_bytes cast sample_put_def prog_simps written_def)
qed

lemma read24_runs:
  assumes r: "link_reads E V" and q: "link_out E V rx" and t: "sel (V (world s)) = rx"
    and p: "arrived (V (world s)) = [b0, b1, b2] # ps"
  shows "\<exists>w. Audio_Device_ReadSample24 low_first E s =
    Ok (if low_first then push_bit 16 (ucast b2) OR ucast (of_le16 b0 b1) else push_bit 16 (ucast b0) OR ucast (of_le16 b1 b2), s\<lparr>world := w\<rparr>)"
proof -
  obtain w1 where w1: "Endpoint_Read_8 E s = Ok (b0, s\<lparr>world := w1\<rparr>)" "V w1 = (V (world s))\<lparr>arrived := [b1, b2] # ps\<rparr>"
    using link_out_runs(3) [OF r q t p] by blast
  obtain w2 where w2: "Endpoint_Read_8 E (s\<lparr>world := w1\<rparr>) = Ok (b1, s\<lparr>world := w2\<rparr>)" "V w2 = (V (world s))\<lparr>arrived := [b2] # ps\<rparr>"
    using link_out_runs(3) [OF r q, of "s\<lparr>world := w1\<rparr>" b1 "[b2]" ps] w1(2) t by auto
  obtain w3 where w3: "Endpoint_Read_8 E (s\<lparr>world := w2\<rparr>) = Ok (b2, s\<lparr>world := w3\<rparr>)" "V w3 = (V (world s))\<lparr>arrived := [] # ps\<rparr>"
    using link_out_runs(3) [OF r q, of "s\<lparr>world := w2\<rparr>" b2 "[]" ps] w2(2) t by auto
  have "\<exists>w. sample_taken E y (s\<lparr>world := w3\<rparr>) = Ok (y, s\<lparr>world := w\<rparr>)" for y :: u32
    using close_packet [OF r q, of w3 "[]" ps y s] w3(2) t unfolding sample_taken_def by auto
  with w1(1) w2(1) w3(1) show ?thesis
    by (simp add: Audio_Device_ReadSample24_def Endpoint_16_bytes prog_simps)
qed

lemma sample24_value:
  "push_bit 16 (ucast (ucast (drop_bit 16 x) :: u8)) OR ucast (of_le16 (ucast x) (ucast (drop_bit 8 x))) = take_bit 24 x" for x :: u32
proof (rule bit_word_eqI)
  fix n assume "n < LENGTH(32)"
  then consider "n < 8" | "8 \<le> n" "n < 16" | "16 \<le> n" "n < 24" | "24 \<le> n" "n < 32" by fastforce
  then show "bit (push_bit 16 (ucast (ucast (drop_bit 16 x) :: u8)) OR ucast (of_le16 (ucast x) (ucast (drop_bit 8 x))) :: u32) n = bit (take_bit 24 x) n"
    by cases (auto simp: of_le16_def bit_simps)
qed

lemma sample24_small: "\<not> bit (push_bit 16 (ucast (h :: u8)) OR ucast (l :: u16) :: u32) 31"
  by (auto simp: bit_simps dest: bit_imp_le_length)

text \<open>C37: which samples of 24 bits survive a transfer. \<^verbatim>\<open>Audio_Device_WriteSample24\<close> sends three bytes, low byte first. When they
  arrive at \<^verbatim>\<open>Audio_Device_ReadSample24\<close>, a sample that is not negative comes back if the compiler evaluates the right operand first; a
  negative sample never comes back, because the function does not extend the sign; and if the compiler evaluates the left operand first, the
  bytes are put together in another order, and the sample 1 comes back as 65536.
\<close>

theorem sample24_transfer:
  assumes link: "serial_link E V tx rx" "sel (V (world s)) = tx" "length (bank_in (V (world s))) \<le> 13"
    and peer: "serial_link E' V' tx' rx'" "sel (V' (world t)) = rx'" "arrived (V' (world t)) = [bytes24 x]"
  shows "(\<exists>s'. Audio_Device_WriteSample24 E x s = Ok ((), s') \<and> written (V (world s')) = written (V (world s)) @ bytes24 x) \<and>
    (\<exists>y t'. Audio_Device_ReadSample24 low_first E' t = Ok (y, t') \<and>
      (low_first \<and> x < 0x800000 \<longrightarrow> y = x) \<and> (x \<ge> 0x80000000 \<longrightarrow> y \<noteq> x) \<and> (\<not> low_first \<and> x = 1 \<longrightarrow> y = 0x10000))"
proof
  show "\<exists>s'. Audio_Device_WriteSample24 E x s = Ok ((), s') \<and> written (V (world s')) = written (V (world s)) @ bytes24 x"
    using write24_runs link unfolding serial_link_def by blast
  have r: "link_reads E' V'" "link_out E' V' rx'" using peer(1) unfolding serial_link_def by auto
  let ?y = "if low_first then push_bit 16 (ucast (ucast (drop_bit 16 x) :: u8)) OR ucast (of_le16 (ucast x) (ucast (drop_bit 8 x)))
    else push_bit 16 (ucast (ucast x :: u8)) OR ucast (of_le16 (ucast (drop_bit 8 x)) (ucast (drop_bit 16 x)))"
  obtain w where run: "Audio_Device_ReadSample24 low_first E' t = Ok (?y, t\<lparr>world := w\<rparr>)"
    using read24_runs [OF r peer(2), of "ucast x" "ucast (drop_bit 8 x)" "ucast (drop_bit 16 x)" "[]" low_first] peer(3)
    unfolding bytes24_def by blast
  have same: "take_bit 24 x = x" if "x < 0x800000"
    using that by (simp add: word_unat_eq_iff unsigned_take_bit_eq take_bit_nat_eq_self word_less_nat_alt)
  have neg: "bit x 31" if "x \<ge> 0x80000000"
  proof -
    have "unat x div 2 ^ 31 = 1"
      using that unsigned_less [of x, where ?'a = nat] by (intro div_nat_eqI) (simp_all add: word_le_nat_alt)
    then have "bit (unat x) 31" by (simp add: bit_iff_odd)
    then show ?thesis by (simp add: bit_unsigned_iff)
  qed
  have "?y = x" if "low_first" "x < 0x800000" using same that(2) by (simp add: that(1) sample24_value)
  moreover have "?y \<noteq> x" if "x \<ge> 0x80000000" using neg [OF that] sample24_small by metis
  moreover have "?y = 0x10000" if "\<not> low_first" "x = 1" using that by (simp add: of_le16_def)
  ultimately show "\<exists>y t'. Audio_Device_ReadSample24 low_first E' t = Ok (y, t') \<and>
      (low_first \<and> x < 0x800000 \<longrightarrow> y = x) \<and> (x \<ge> 0x80000000 \<longrightarrow> y \<noteq> x) \<and> (\<not> low_first \<and> x = 1 \<longrightarrow> y = 0x10000)"
    using run by blast
qed

definition audio_start :: "u8 \<Rightarrow> u8 list list \<Rightarrow> link audio" where
  "audio_start n ps = \<lparr>world = \<lparr>sel = n, bank_in = [], released = [], arrived = ps\<rparr>, USB_IsInitialized = True,
     USB_DeviceState = DEVICE_STATE_Configured,
     USB_ControlRequest = \<lparr>bmRequestType = 0, bRequest = 0, wValue = 0, wIndex = 0, wLength = 0\<rparr>,
     USB_Device_ConfigurationNumber = 1, USB_Device_CurrentlySelfPowered = False, USB_Device_RemoteWakeupEnabled = False,
     Audio_config = \<lparr>Audio_ControlInterfaceNumber = 0, Audio_StreamingInterfaceNumber = 1,
       Audio_DataINEndpoint = \<lparr>ep_Address = 0x83, ep_Size = 16, ep_Type = EP_TYPE_ISOCHRONOUS, ep_Banks = 1\<rparr>,
       Audio_DataOUTEndpoint = \<lparr>ep_Address = 4, ep_Size = 16, ep_Type = EP_TYPE_ISOCHRONOUS, ep_Banks = 1\<rparr>\<rparr>,
     InterfaceEnabled = True\<rparr>"

theorem sample24_transfer_witness:
  "(\<exists>s'. Audio_Device_WriteSample24 link_avr 1 (audio_start 3 []) = Ok ((), s') \<and> written (world s') = bytes24 1) \<and>
   (\<exists>t'. Audio_Device_ReadSample24 False link_avr (audio_start 4 [bytes24 1]) = Ok (0x10000, t')) \<and>
   (\<exists>t'. Audio_Device_ReadSample24 True link_avr (audio_start 4 [bytes24 1]) = Ok (1, t'))"
  using sample24_transfer [OF link_avr_serial(1) _ _ link_avr_serial(1), of "audio_start 3 []" "audio_start 4 [bytes24 1]" 1 False]
    sample24_transfer [OF link_avr_serial(1) _ _ link_avr_serial(1), of "audio_start 3 []" "audio_start 4 [bytes24 1]" 1 True]
  by (auto simp: audio_start_def written_def)

end
