(* ===== verification/Spec2Isabelle.thy ===== *)
theory Spec2Isabelle
  imports Huff_Correct Huff_Print Controller_Correct Slave_Correct Console Ring_Buffer Config_Desc Hid_Correct Cdc_Console Printer_Correct Mass_Storage
    Midi_Device Hid_Device Rndis_Device Audio_Device
begin

text \<open>
  A verification development of a distributed compressor on ATmega32U4 boards.

  \<^bold>\<open>The program.\<close> A controller board takes text from a console over USB, keeps it in two files on a storage chip,
  and hands blocks of it over a two-wire bus to worker boards, which compress or inflate them with a Huffman coder. The
  buttons of the controller start the jobs. The console is a CDC serial port of the vendored USB library LUFA.
  The parts under \<^verbatim>\<open>src/\<close> and the theories that model them, each definition named like its function in C:

  \<^item> \<^verbatim>\<open>huffman/huffman.c\<close>, which both images copy: the two static memory pools (\<open>Huff_Pool\<close>, record \<open>huffman_t\<close>), the
    sorted queue (\<open>Huff_Queue\<close>), the construction of the tree (\<open>Huff_Build\<close>), the walks over it and its serial form
    (\<open>Huff_Tree\<close>), the bit stream (\<open>Huff_Bits\<close>), the code table and the coding loops (\<open>Huff_Codec\<close>), the entry points
    \<^verbatim>\<open>huffman_compress\<close> and \<^verbatim>\<open>huffman_inflate\<close> (\<open>Huffman\<close>); the printing functions and the demonstration
    \<^verbatim>\<open>huffman/main.c\<close> (\<open>Huff_Print\<close>).
  \<^item> \<^verbatim>\<open>main/i2c_master.c\<close>: one definition per function in \<open>Twi_Master\<close>; the storage chip behind the bus, its block
    operations and \<^verbatim>\<open>format_storage\<close> in \<open>Fram\<close>.
  \<^item> \<^verbatim>\<open>main/leds.c\<close>, \<^verbatim>\<open>main/buttons.c\<close>: \<open>Board\<close> (record \<open>buttons\<close>, the pin-change interrupt \<^verbatim>\<open>PCINT0_vect\<close>).
  \<^item> \<^verbatim>\<open>main/main.c\<close>: \<open>Controller\<close> (record \<open>ctl\<close> for its globals; files, button actions and polls, job dispatch, start
    and main loop). \<^verbatim>\<open>main/lufa.c\<close>: \<open>Console\<close> (record \<open>ui\<close>).
  \<^item> \<^verbatim>\<open>slave/i2c_slave.c\<close>, \<^verbatim>\<open>slave/main.c\<close>: \<open>Slave\<close> (record \<open>slave\<close>, the bus interrupt \<^verbatim>\<open>TWI_vect\<close> on every branch).
  \<^item> \<^verbatim>\<open>lufa/LUFA/Drivers/USB\<close>, as the firmware configures it: registers and endpoint primitives (\<open>Usb_Machine\<close>),
    start, stop and bus events (\<open>Usb_Controller\<close>), waiting and streams (\<open>Usb_Stream\<close>), standard requests, control interrupt and
    task (\<open>Usb_Device\<close>), the CDC class driver (\<open>Cdc_Device\<close>); beside it the ring buffer (\<open>Ring_Buffer\<close>), the
    descriptor search (\<open>Config_Desc\<close>) and the HID report parser (\<open>Hid_Parser\<close>).
  \<^item> \<^verbatim>\<open>lufa/LUFA/Drivers/USB/Class/Device\<close>: the other class drivers of the library, for printers (\<open>Printer_Device\<close>), mass
    storage (\<open>Mass_Storage\<close>), MIDI (\<open>Midi_Device\<close>), HID (\<open>Hid_Device\<close>), RNDIS network adapters (\<open>Rndis_Message\<close>,
    \<open>Rndis_Device\<close>) and audio (\<open>Audio_Device\<close>). Neither image links them; they run on the same endpoint layer.
  \<^item> \<^verbatim>\<open>virtualserial/Descriptors.c\<close>: \<open>Descriptors\<close>; \<^verbatim>\<open>virtualserial/VirtualSerial.c\<close>: \<open>Virtual_Serial\<close>.

  \<^bold>\<open>How C is modelled.\<close> \<open>C_Prelude\<close> has the result type: a run returns a value or a fault, where a fault is an access outside an
  array, a read through NULL or of an undefined object, an undefined shift, a failing assertion, or a loop that does not end.
  Integers keep their width. Pointers into a static array are indices into it; pool cells are numbered. Global variables are the
  fields of a record that every operation takes and returns. The processor is a parameter (\<open>Avr_Machine\<close>, record \<open>avr\<close>; \<open>usb_avr\<close> for
  the USB controller): reading and writing a register are functions on an uninterpreted world, so every statement without a hypothesis on
  them holds for all hardware. What the code needs from the hardware is a named predicate: \<open>fram_bus\<close> for the storage chip,
  \<open>quiet_endpoint\<close>, \<open>control_in\<close>, \<open>control_out\<close> and \<open>serial_link\<close> for the USB controller with a host behind it; each has a
  simulator in the theory that satisfies it, on which the witnesses run. Interrupts of the USB stack are taken where the
  code polls (argument \<open>I\<close>; \<open>gen_point\<close>, \<open>irq_point\<close>), which is where its loops can observe them.

  \<^bold>\<open>Bounds.\<close> A C loop without a structural bound has a number of rounds, and running out is the fault \<open>Diverge\<close>. Walks over the queue
  and the tree have one round more than the pool has cells; \<open>Huff_Ends\<close> proves that this is enough on every input, by showing that
  \<open>Diverge\<close> is never the outcome. The hold of a button has eleven rounds, the packet loop of a control endpoint nine, the size mask of an
  endpoint sixteen: each is shown to be enough, or to tell exactly the inputs for which C loops forever. The descriptor search and
  the HID parser have one round per byte. Loops that wait for hardware have \<open>polls\<close> rounds, a field of the
  parameter: the theorems that such a loop returns state how many polls suffice, and \<open>i2c_start_timeout_stuck\<close> and
  \<open>processData_no_workers\<close> show loops that no number of polls ends.

  \<^bold>\<open>Interfaces.\<close> Each is a locale with the laws that its client uses, interpreted on the model: \<open>bump_pool\<close> (both allocators),
  \<open>bit_stream\<close> (the bit buffer), \<open>prefix_code\<close> (the code of a tree), \<open>byte_queue\<close> (the ring buffer), \<open>char_device\<close> (a character device
  on two data endpoints, in \<open>Bulk_Link\<close>; the serial port and the printer), and the tower
  \<open>hw_invariant\<close>, \<open>bus_invariant\<close>, \<open>cdc_invariant\<close>: what a predicate on the USB state must satisfy for every
  operation of the endpoint layer, of the device stack, of the class driver to keep it.

  \<^bold>\<open>What is shown.\<close>
  \<^item> Huffman (\<open>Huff_Correct\<close>): the round trip of compression for all inputs that fit the pools and codes of eight bits, and exactly what happens
    outside; both entry points return on every input; the queue is sorted; \<open>build_tree\<close> refines the construction on multisets of trees; the code is
    uniquely decodable; the serial form of a tree and the bit stream round-trip; bit reversal.
  \<^item> Storage and controller (\<open>Fram\<close>, \<open>Controller_Files\<close>, \<open>Controller_Correct\<close>, \<open>Console\<close>): what is written is read back; typed text
    comes back; the directory after formatting; the five-second hold; how jobs are cut and when dispatch ends; line editing and its buffer.
  \<^item> Board (\<open>Board\<close>): presses and releases alternate.
  \<^item> Worker (\<open>Slave_Correct\<close>): its buffers keep their type in every interrupt; what the first byte and a reply do.
  \<^item> USB (\<open>Usb_Invariant\<close>, \<open>Usb_Correct\<close>, \<open>Usb_Host\<close>, \<open>Cdc_Correct\<close>, \<open>Cdc_Console\<close>): an invariant of all reachable states of the serial port (inductive
    relation \<open>serial_reach\<close>), the timeout of a transfer, the delivery of a descriptor to a host, the round trip of the
    line encoding, the order and completeness of console output and input, the endpoint size against its logarithm, the well-formedness of the configuration descriptor.
  \<^item> Class drivers (\<open>Printer_Correct\<close>, \<open>Mass_Storage\<close>, \<open>Midi_Device\<close>, \<open>Hid_Device\<close>, \<open>Rndis_Message\<close>, \<open>Rndis_Device\<close>, \<open>Audio_Device\<close>; \<open>Usb_Host_Out\<close> for the data
    stage from the host): only checked commands are run, events and settings arrive or come back, which network messages and
    commands stay in the message buffer, which audio samples survive.
  \<^item> Library parts (\<open>Ring_Buffer\<close>, \<open>Config_Desc\<close>, \<open>Hid_Correct\<close>): the ring buffer is a bounded queue, the search finds the next descriptor of a
    type, the parser does not fault on complete reports without \<^verbatim>\<open>PUSH\<close>.

  Some statements are about defects and say exactly what the code does: the queue pool that is too small for more than thirty
  distinct bytes, codes longer than a byte, the block count, the release flag of button C, the unbounded waits, the one byte behind the
  command buffer, the job that runs on the first byte, the start-up call without its arguments, the printer status that is never sent, the network
  command longer than its buffer.

  \<^bold>\<open>Not modelled.\<close> Timing, electrical behaviour and the interleaving of an interrupt between two instructions of a main-loop
  function that does not poll: USB interrupts are taken at the polling points only, and the worker and button handlers are
  modelled as whole steps. The formatted output of \<^verbatim>\<open>printf\<close> is the string it prints. Of the vendored library, everything that
  is for other targets: host mode and its class drivers, the ports to other processors, the EEPROM variants of the
  streams, drivers of other boards, demonstrations, bootloaders and projects. They would add no behaviour to this program. Makefiles and sample data
  have no run-time behaviour.
\<close>

end
